theory Spec2Isabelle
  imports Complex_Main "HOL-Library.AList"
begin

section \<open>Glowy Tanks: the authoritative simulation core and the client's prediction\<close>

text \<open>
  Modelling conventions.
  \<^item> JavaScript numbers that hold coordinates, velocities, angles and time steps are
    values of the type \<open>num\<close> below: IEEE 754 double precision with \<open>NaN\<close>, the two
    infinities, overflow and rounding to nearest. The sign of zero is not modelled (it
    shows only in the angle of a bullet reflected with a zero velocity component), and
    \<open>Math.sqrt\<close>, \<open>Math.cos\<close>, \<open>Math.sin\<close> and \<open>Math.atan2\<close> are taken as correctly rounded.
    Hit points, scores, sequence numbers and millisecond timestamps only ever hold
    integers and are \<open>int\<close> (scores \<open>nat\<close>).
  \<^item> An object used as a dictionary (\<open>games\<close>, \<open>game.players\<close>, \<open>game.scores\<close>) is an
    association list in insertion order, the order in which \<open>for (... in ...)\<close> visits
    its keys. \<open>AList.update\<close> overwrites in place or appends, \<open>AList.delete\<close> removes.
  \<^item> \<open>games[gameId]\<close> with a key supplied by a client also finds the properties every
    object inherits from \<open>Object.prototype\<close>; see \<open>lookup\<close>. Socket ids are issued by the
    transport, not by the client, and a dictionary keyed by socket ids is read with
    \<open>map_of\<close>.
  \<^item> \<open>Date.now()\<close> and \<open>Math.random()\<close> are parameters of the operation that reads them.
  \<^item> A field that may be \<open>null\<close>, \<open>undefined\<close> or of the wrong type is an \<open>option\<close>.
  \<^item> Strings are lists of 8-bit characters; socket ids and game ids are strings.
  \<^item> Every \<open>emit\<close> appends to the server's \<open>outbox\<close>, so "nothing is emitted" reads
    "the outbox is unchanged". A handler that ends with an uncaught \<open>TypeError\<close> yields
    \<open>Threw\<close> and the state it leaves behind.
\<close>

subsection \<open>Numbers\<close>

datatype num = Fin real | PInf | NInf | NaN

text \<open>
  Rounding of a real to the nearest double, ties to even: \<open>expo\<close> is the exponent of the
  binade (not below that of the subnormal numbers), \<open>ulp\<close> the spacing of the doubles
  there, \<open>rne\<close> rounds to the nearest integer, and a result of magnitude \<open>2 ^ 1024\<close>
  overflows.
\<close>

definition pow2 :: "int \<Rightarrow> real" where
  "pow2 k = (if 0 \<le> k then 2 ^ nat k else 1 / 2 ^ nat (- k))"

definition expo :: "real \<Rightarrow> int" where
  "expo x = max (- 1022) \<lfloor>log 2 \<bar>x\<bar>\<rfloor>"

definition ulp :: "real \<Rightarrow> real" where
  "ulp x = pow2 (expo x - 52)"

definition rne :: "real \<Rightarrow> int" where
  "rne q = (let f = \<lfloor>q\<rfloor>; d = q - of_int f
            in if d < 1 / 2 then f else if 1 / 2 < d then f + 1
               else if even f then f else f + 1)"

definition rnd :: "real \<Rightarrow> num" where
  "rnd x =
     (if x = 0 then Fin 0
      else
        (let r = of_int (rne (x / ulp x)) * ulp x
         in if pow2 1024 \<le> \<bar>r\<bar> then (if 0 < x then PInf else NInf) else Fin r))"

text \<open>The arithmetic and the comparisons of JavaScript on these values.\<close>

instantiation num :: "{plus, minus, uminus, times, inverse, abs, sgn, ord}"
begin

fun uminus_num :: "num \<Rightarrow> num" where
  "uminus_num (Fin x) = Fin (- x)"
| "uminus_num PInf = NInf"
| "uminus_num NInf = PInf"
| "uminus_num NaN = NaN"

fun plus_num :: "num \<Rightarrow> num \<Rightarrow> num" where
  "plus_num NaN b = NaN"
| "plus_num a NaN = NaN"
| "plus_num PInf NInf = NaN"
| "plus_num NInf PInf = NaN"
| "plus_num PInf b = PInf"
| "plus_num a PInf = PInf"
| "plus_num NInf b = NInf"
| "plus_num a NInf = NInf"
| "plus_num (Fin x) (Fin y) = rnd (x + y)"

definition minus_num_def: "a - b = a + (- b)" for a b :: num

fun times_num :: "num \<Rightarrow> num \<Rightarrow> num" where
  "times_num NaN b = NaN"
| "times_num a NaN = NaN"
| "times_num (Fin x) (Fin y) = rnd (x * y)"
| "times_num (Fin x) PInf = (if x = 0 then NaN else if 0 < x then PInf else NInf)"
| "times_num (Fin x) NInf = (if x = 0 then NaN else if 0 < x then NInf else PInf)"
| "times_num PInf (Fin y) = (if y = 0 then NaN else if 0 < y then PInf else NInf)"
| "times_num NInf (Fin y) = (if y = 0 then NaN else if 0 < y then NInf else PInf)"
| "times_num PInf PInf = PInf"
| "times_num PInf NInf = NInf"
| "times_num NInf PInf = NInf"
| "times_num NInf NInf = PInf"

fun divide_num :: "num \<Rightarrow> num \<Rightarrow> num" where
  "divide_num NaN b = NaN"
| "divide_num a NaN = NaN"
| "divide_num (Fin x) (Fin y) =
     (if y = 0 then (if x = 0 then NaN else if 0 < x then PInf else NInf) else rnd (x / y))"
| "divide_num (Fin x) PInf = Fin 0"
| "divide_num (Fin x) NInf = Fin 0"
| "divide_num PInf (Fin y) = (if 0 \<le> y then PInf else NInf)"
| "divide_num NInf (Fin y) = (if 0 \<le> y then NInf else PInf)"
| "divide_num PInf PInf = NaN"
| "divide_num PInf NInf = NaN"
| "divide_num NInf PInf = NaN"
| "divide_num NInf NInf = NaN"

definition inverse_num_def: "inverse a = divide (Fin 1) a" for a :: num

text \<open>\<open>Math.abs\<close> and \<open>Math.sign\<close>\<close>

fun abs_num :: "num \<Rightarrow> num" where
  "abs_num (Fin x) = Fin \<bar>x\<bar>"
| "abs_num PInf = PInf"
| "abs_num NInf = PInf"
| "abs_num NaN = NaN"

fun sgn_num :: "num \<Rightarrow> num" where
  "sgn_num (Fin x) = Fin (sgn x)"
| "sgn_num PInf = Fin 1"
| "sgn_num NInf = Fin (- 1)"
| "sgn_num NaN = NaN"

fun less_num :: "num \<Rightarrow> num \<Rightarrow> bool" where
  "less_num NaN b \<longleftrightarrow> False"
| "less_num a NaN \<longleftrightarrow> False"
| "less_num (Fin x) (Fin y) \<longleftrightarrow> x < y"
| "less_num (Fin x) PInf \<longleftrightarrow> True"
| "less_num (Fin x) NInf \<longleftrightarrow> False"
| "less_num PInf b \<longleftrightarrow> False"
| "less_num NInf (Fin y) \<longleftrightarrow> True"
| "less_num NInf PInf \<longleftrightarrow> True"
| "less_num NInf NInf \<longleftrightarrow> False"

definition less_eq_num_def: "a \<le> b \<longleftrightarrow> a < b \<or> (a = b \<and> a \<noteq> NaN)" for a b :: num

instance ..

end

text \<open>\<open>Math.max\<close>, \<open>Math.min\<close>, \<open>Math.sqrt\<close>, \<open>Math.floor\<close>, \<open>Math.cos\<close>, \<open>Math.sin\<close>\<close>

definition js_max :: "num \<Rightarrow> num \<Rightarrow> num" where
  "js_max a b = (if a = NaN \<or> b = NaN then NaN else if a < b then b else a)"

definition js_min :: "num \<Rightarrow> num \<Rightarrow> num" where
  "js_min a b = (if a = NaN \<or> b = NaN then NaN else if b < a then b else a)"

fun js_sqrt :: "num \<Rightarrow> num" where
  "js_sqrt (Fin x) = (if x < 0 then NaN else rnd (sqrt x))"
| "js_sqrt PInf = PInf"
| "js_sqrt NInf = NaN"
| "js_sqrt NaN = NaN"

fun js_floor :: "num \<Rightarrow> num" where
  "js_floor (Fin x) = Fin (of_int \<lfloor>x\<rfloor>)"
| "js_floor a = a"

fun js_cos :: "num \<Rightarrow> num" where
  "js_cos (Fin x) = rnd (cos x)"
| "js_cos a = NaN"

fun js_sin :: "num \<Rightarrow> num" where
  "js_sin (Fin x) = rnd (sin x)"
| "js_sin a = NaN"

text \<open>\<open>v || 0\<close> for a number \<open>v\<close>\<close>

definition or_zero :: "num \<Rightarrow> num" where
  "or_zero v = (if v = NaN then Fin 0 else v)"

text \<open>An integer (a timestamp) used in floating-point arithmetic.\<close>

definition num_of_int :: "int \<Rightarrow> num" where
  "num_of_int n = rnd (of_int n)"

subsection \<open>Constants\<close>

definition TICK_RATE :: num where "TICK_RATE = Fin 60"
definition MAP_WIDTH :: num where "MAP_WIDTH = Fin 1000"
definition MAP_HEIGHT :: num where "MAP_HEIGHT = Fin 720"
definition TANK_ACCELERATION :: num where "TANK_ACCELERATION = Fin 600"
definition TANK_DECELERATION :: num where "TANK_DECELERATION = Fin 900"
definition TANK_MAX_SPEED :: num where "TANK_MAX_SPEED = Fin 60"
definition BULLET_SPEED :: num where "BULLET_SPEED = Fin 300"
definition BULLET_DAMAGE :: int where "BULLET_DAMAGE = 20"
definition SHOOT_COOLDOWN :: int where "SHOOT_COOLDOWN = 1500"
definition RAPID_FIRE_COOLDOWN :: int where "RAPID_FIRE_COOLDOWN = 400"
definition MAX_HP :: int where "MAX_HP = 100"
definition RESPAWN_TIME :: int where "RESPAWN_TIME = 3000"
definition MAX_PLAYERS :: nat where "MAX_PLAYERS = 50"
definition CHAT_MAX_MESSAGES :: nat where "CHAT_MAX_MESSAGES = 60"
definition POWER_UP_LIFETIME :: int where "POWER_UP_LIFETIME = 30000"
definition POWER_UP_RADIUS :: num where "POWER_UP_RADIUS = Fin 30"
definition NAME_MAX :: nat where "NAME_MAX = 20"

text \<open>\<open>TANK_RADIUS\<close> is 20 inside \<open>applyInput\<close> and 25 inside the game loop.\<close>

definition TANK_RADIUS :: num where "TANK_RADIUS = Fin 20"
definition HIT_RADIUS :: num where "HIT_RADIUS = Fin 25"
definition MAX_BOUNCES :: nat where "MAX_BOUNCES = 3"
definition bulletMaxAge :: int where "bulletMaxAge = 10000"

subsection \<open>Entities\<close>

type_synonym pid = string

record keys =
  k_w :: bool
  k_s :: bool
  k_a :: bool
  k_d :: bool

text \<open>
  The field \<open>dt\<close> of an input sample: \<open>NoDt\<close> when it is missing (or \<open>null\<close>, \<open>false\<close>, the
  empty string), \<open>NumDt v\<close> when it is the number \<open>v\<close>, and \<open>CoercedDt v\<close> when it is any
  other truthy value (a non-empty string, \<open>true\<close>, an array, an object), which the
  multiplications of \<open>applyInput\<close> convert to the number \<open>v\<close>: \<open>NaN\<close> for \<open>"x"\<close>, 0 for
  \<open>"0"\<close>.
\<close>

datatype dtField = NoDt | NumDt num | CoercedDt num

text \<open>
  One input sample as the server receives it. \<open>i_inputs = None\<close> is a sample without
  the \<open>inputs\<close> object; \<open>i_seq\<close>, \<open>i_rotation\<close> and \<open>i_turretRotation\<close> are \<open>None\<close> when
  they are missing or not of type number.
\<close>

record input =
  i_seq :: "int option"
  i_inputs :: "keys option"
  i_rotation :: "num option"
  i_turretRotation :: "num option"
  i_dt :: dtField

text \<open>
  The player object of \<open>game.players\<close>. Its field \<open>inputs: {}\<close> is never read and is
  left out; a queue entry \<open>None\<close> is a falsy entry of \<open>inputQueue\<close>.
\<close>

record player =
  p_id :: pid
  p_x :: num
  p_y :: num
  p_vx :: num
  p_vy :: num
  p_rotation :: num
  p_turretRotation :: num
  p_name :: string
  p_color :: string
  p_hp :: int
  p_dead :: bool
  p_respawnTime :: int
  p_speedBoost :: bool
  p_speedBoostExpireTime :: "int option"
  p_rapidFire :: bool
  p_rapidFireExpireTime :: "int option"
  p_shield :: bool
  p_shieldExpireTime :: "int option"
  p_damageBoost :: bool
  p_damageBoostExpireTime :: "int option"
  p_lastShotTime :: int
  p_invulnerable :: bool
  p_invulnerableExpireTime :: "int option"
  p_lastProcessedInput :: int
  p_inputQueue :: "input option list"

subsection \<open>Physics integrator (server \<open>applyInput\<close>)\<close>

definition SPEED_multiplier :: num where "SPEED_multiplier = Fin 2"

text \<open>\<open>input.dt || 1 / 60\<close>: a number that is 0 or \<open>NaN\<close> is falsy.\<close>

definition dt_of :: "dtField \<Rightarrow> num" where
  "dt_of d =
     (case d of
        NoDt \<Rightarrow> Fin 1 / Fin 60
      | NumDt v \<Rightarrow> if v = Fin 0 \<or> v = NaN then Fin 1 / Fin 60 else v
      | CoercedDt v \<Rightarrow> v)"

text \<open>The raw direction from the four flags, before normalisation.\<close>

definition rawDir :: "keys \<Rightarrow> num \<times> num" where
  "rawDir ks =
     (let targetVx = Fin 0;
          targetVy = Fin 0;
          targetVy = (if k_w ks then targetVy - Fin 1 else targetVy);
          targetVy = (if k_s ks then targetVy + Fin 1 else targetVy);
          targetVx = (if k_a ks then targetVx - Fin 1 else targetVx);
          targetVx = (if k_d ks then targetVx + Fin 1 else targetVx)
      in (targetVx, targetVy))"

definition inputMagnitude :: "keys \<Rightarrow> num" where
  "inputMagnitude ks = (case rawDir ks of (tx, ty) \<Rightarrow> js_sqrt (tx * tx + ty * ty))"

definition maxSpeed :: "bool \<Rightarrow> num" where
  "maxSpeed speedBoost = (if speedBoost then TANK_MAX_SPEED * SPEED_multiplier else TANK_MAX_SPEED)"

text \<open>
  \<open>targetVx\<close>, \<open>targetVy\<close> after normalisation and scaling by \<open>maxSpeed\<close>.
\<close>

definition targetVelocity :: "bool \<Rightarrow> keys \<Rightarrow> num \<times> num" where
  "targetVelocity speedBoost ks =
     (case rawDir ks of (tx, ty) \<Rightarrow>
        let m = inputMagnitude ks;
            tx' = (if Fin 0 < m then tx / m else tx);
            ty' = (if Fin 0 < m then ty / m else ty)
        in (tx' * maxSpeed speedBoost, ty' * maxSpeed speedBoost))"

text \<open>
  One axis of "interpolate current velocity towards target velocity":
  \<open>if (Math.abs(diff) < accelAmount) v = target; else v += Math.sign(diff) * accelAmount\<close>.
\<close>

definition approach :: "num \<Rightarrow> num \<Rightarrow> num \<Rightarrow> num" where
  "approach v target accelAmount =
     (if \<bar>target - v\<bar> < accelAmount then target else v + sgn (target - v) * accelAmount)"

text \<open>
  One axis of "enforce map boundaries": position and velocity after the clamp against
  \<open>[TANK_RADIUS, bound - TANK_RADIUS]\<close>.
\<close>

definition clampAxis :: "num \<Rightarrow> num \<Rightarrow> num \<Rightarrow> num \<times> num" where
  "clampAxis bound pos v =
     (if pos < TANK_RADIUS then (TANK_RADIUS, js_max (Fin 0) v)
      else if pos > bound - TANK_RADIUS then (bound - TANK_RADIUS, js_min (Fin 0) v)
      else (pos, v))"

text \<open>
  Velocity and position of the player after the acceleration step and the position
  update, before the boundary clamp: \<open>(vx, vy, x, y)\<close>.
\<close>

definition integrate :: "num \<Rightarrow> num \<Rightarrow> num \<Rightarrow> num \<Rightarrow> bool \<Rightarrow> keys \<Rightarrow> num
    \<Rightarrow> num \<times> num \<times> num \<times> num" where
  "integrate x y vx vy speedBoost ks dt =
     (case targetVelocity speedBoost ks of (targetVx, targetVy) \<Rightarrow>
        let acceleration = (if Fin 0 < inputMagnitude ks then TANK_ACCELERATION
                            else TANK_DECELERATION);
            accelAmount = acceleration * dt;
            vx' = approach vx targetVx accelAmount;
            vy' = approach vy targetVy accelAmount
        in (vx', vy', x + vx' * dt, y + vy' * dt))"

definition applyInput :: "player \<Rightarrow> input \<Rightarrow> player" where
  "applyInput player inp =
     (case i_inputs inp of
        None \<Rightarrow> player
      | Some ks \<Rightarrow>
          (case integrate (p_x player) (p_y player) (p_vx player) (p_vy player)
                  (p_speedBoost player) ks (dt_of (i_dt inp)) of
             (vx1, vy1, x1, y1) \<Rightarrow>
               (case (clampAxis MAP_WIDTH x1 vx1, clampAxis MAP_HEIGHT y1 vy1) of
                  ((x2, vx2), (y2, vy2)) \<Rightarrow>
                    player\<lparr>p_x := x2, p_y := y2, p_vx := vx2, p_vy := vy2,
                      p_rotation := (case i_rotation inp of Some r \<Rightarrow> r | None \<Rightarrow> p_rotation player),
                      p_turretRotation :=
                        (case i_turretRotation inp of Some r \<Rightarrow> r | None \<Rightarrow> p_turretRotation player),
                      p_lastProcessedInput :=
                        (case i_seq inp of Some n \<Rightarrow> n | None \<Rightarrow> p_lastProcessedInput player)\<rparr>)))"

text \<open>The position invariant of a tank: inside the arena, a tank radius away from each wall.\<close>

definition in_bounds :: "player \<Rightarrow> bool" where
  "in_bounds p \<longleftrightarrow>
     TANK_RADIUS \<le> p_x p \<and> p_x p \<le> MAP_WIDTH - TANK_RADIUS \<and>
     TANK_RADIUS \<le> p_y p \<and> p_y p \<le> MAP_HEIGHT - TANK_RADIUS"

subsection \<open>Player creation (the object literal of the \<open>join\<close> and \<open>host\<close> handlers)\<close>

definition newPlayer :: "pid \<Rightarrow> num \<Rightarrow> num \<Rightarrow> string \<Rightarrow> string \<Rightarrow> player" where
  "newPlayer sid x y safeName color =
     \<lparr>p_id = sid, p_x = x, p_y = y, p_vx = Fin 0, p_vy = Fin 0, p_rotation = Fin 0,
      p_turretRotation = Fin 0,
      p_name = safeName, p_color = color, p_hp = MAX_HP, p_dead = False, p_respawnTime = 0,
      p_speedBoost = False, p_speedBoostExpireTime = None,
      p_rapidFire = False, p_rapidFireExpireTime = None,
      p_shield = False, p_shieldExpireTime = None,
      p_damageBoost = False, p_damageBoostExpireTime = None,
      p_lastShotTime = 0, p_invulnerable = False, p_invulnerableExpireTime = None,
      p_lastProcessedInput = 0, p_inputQueue = []\<rparr>"

text \<open>
  The magnitude of a player's velocity, as a real number; 0 stands in when a component is
  not finite.
\<close>

definition magnitude :: "num \<Rightarrow> num \<Rightarrow> real" where
  "magnitude vx vy = (case (vx, vy) of (Fin a, Fin b) \<Rightarrow> sqrt (a * a + b * b) | _ \<Rightarrow> 0)"

definition speed :: "player \<Rightarrow> real" where
  "speed p = magnitude (p_vx p) (p_vy p)"

subsection \<open>Power-ups, bullets, rooms\<close>

datatype powerUpType = SPEED | RAPID_FIRE | SHIELD | DAMAGE_BOOST | HEALTH_PACK

text \<open>The table \<open>POWER_UP_TYPES\<close>: \<open>name\<close>, \<open>duration\<close> and the per-type parameters.\<close>

fun type_name :: "powerUpType \<Rightarrow> string" where
  "type_name SPEED = ''speed''"
| "type_name RAPID_FIRE = ''rapidFire''"
| "type_name SHIELD = ''shield''"
| "type_name DAMAGE_BOOST = ''damageBoost''"
| "type_name HEALTH_PACK = ''healthPack''"

fun duration :: "powerUpType \<Rightarrow> int" where
  "duration SPEED = 5000"
| "duration RAPID_FIRE = 5000"
| "duration SHIELD = 5000"
| "duration DAMAGE_BOOST = 10000"
| "duration HEALTH_PACK = 0"

definition RAPID_FIRE_shots :: nat where "RAPID_FIRE_shots = 3"
definition RAPID_FIRE_spread :: num where "RAPID_FIRE_spread = rnd (12 / 100)"
definition DAMAGE_BOOST_multiplier :: num where "DAMAGE_BOOST_multiplier = Fin (3 / 2)"
definition HEALTH_PACK_value :: int where "HEALTH_PACK_value = 50"

text \<open>\<open>cfg.duration || 10000\<close>\<close>

definition duration_or_default :: "powerUpType \<Rightarrow> int" where
  "duration_or_default t = (if duration t = 0 then 10000 else duration t)"

record powerUp =
  pu_id :: num
  pu_type :: powerUpType
  pu_uiType :: string
  pu_x :: num
  pu_y :: num
  pu_createdAt :: int

record bullet =
  b_x :: num
  b_y :: num
  b_vx :: num
  b_vy :: num
  b_angle :: num
  b_owner :: pid
  b_color :: string
  b_createdAt :: int
  b_bounces :: nat

record chatMessage =
  cm_playerId :: "pid option"
  cm_text :: string
  cm_timestamp :: int
  cm_system :: bool

type_synonym gid = string

text \<open>
  A room. \<open>g_cleanupTimer\<close> tells whether the room holds the handle of a cleanup timer
  (\<open>game.cleanupTimer\<close>).
\<close>

record game =
  g_id :: gid
  g_name :: string
  g_mapType :: string
  g_players :: "(pid \<times> player) list"
  g_bullets :: "bullet list"
  g_powerUps :: "powerUp list"
  g_scores :: "(pid \<times> nat) list"
  g_chat :: "chatMessage list"
  g_cleanupTimer :: bool

text \<open>One player of a state snapshot, as the game loop builds it.\<close>

record snapPlayer =
  sp_id :: pid
  sp_x :: num
  sp_y :: num
  sp_rotation :: num
  sp_turretRotation :: num
  sp_color :: string
  sp_name :: string
  sp_hp :: int
  sp_dead :: bool
  sp_vx :: num
  sp_vy :: num
  sp_speedBoost :: bool
  sp_rapidFire :: bool
  sp_shield :: bool
  sp_damageBoost :: bool
  sp_invulnerable :: bool
  sp_lastProcessedInput :: int

record snapBullet =
  sb_x :: num
  sb_y :: num
  sb_angle :: num
  sb_color :: string

record snapshot =
  st_players :: "snapPlayer list"
  st_bullets :: "snapBullet list"
  st_scores :: "(pid \<times> nat) list"
  st_powerUps :: "powerUp list"

record serverInfo =
  si_id :: gid
  si_name :: string
  si_players :: nat
  si_maxPlayers :: nat

text \<open>
  Outbound messages. A message to one socket names the socket, a broadcast
  (\<open>io.to(gameId).emit\<close>) names the room.
\<close>

datatype outEvent =
    EmitError pid string
  | EmitJoin pid gid string "string option" "string option" num num
  | EmitPlayerName gid pid string
  | EmitChatMessage gid chatMessage
  | EmitServers pid "serverInfo list"
  | EmitBulletHit gid pid pid num num
  | EmitWallImpact gid num num string
  | EmitState gid snapshot

text \<open>
  The server: the table \<open>games\<close>, \<open>gameCounter\<close>, \<open>lastPowerUpSpawnTime\<close>, the property
  \<open>socket.gameId\<close> of every socket, and all messages emitted so far, oldest first.
\<close>

record server =
  games :: "(gid \<times> game) list"
  gameCounter :: nat
  lastPowerUpSpawnTime :: "gid \<Rightarrow> int option"
  socketGameId :: "pid \<Rightarrow> gid option"
  outbox :: "outEvent list"

definition initServer :: server where
  "initServer = \<lparr>games = [], gameCounter = 0, lastPowerUpSpawnTime = (\<lambda>_. None),
                  socketGameId = (\<lambda>_. None), outbox = []\<rparr>"

definition emit :: "outEvent \<Rightarrow> server \<Rightarrow> server" where
  "emit e s = s\<lparr>outbox := outbox s @ [e]\<rparr>"

text \<open>
  How a handler ends: it returns, or it throws a \<open>TypeError\<close> that nothing catches; either
  way with the state it leaves behind.
\<close>

datatype 'a outcome = Returned 'a | Threw 'a

fun state_of :: "'a outcome \<Rightarrow> 'a" where
  "state_of (Returned s) = s"
| "state_of (Threw s) = s"

text \<open>
  \<open>obj[key]\<close> on an object created as \<open>{}\<close>: a property stored under the key, else one of
  the properties inherited from \<open>Object.prototype\<close> (a function or the prototype itself:
  truthy, and without a property \<open>players\<close>, \<open>chat\<close> or \<open>cleanupTimer\<close>), else \<open>undefined\<close>.
\<close>

definition inheritedKeys :: "string list" where
  "inheritedKeys =
     [''constructor'', ''__defineGetter__'', ''__defineSetter__'', ''hasOwnProperty'',
      ''__lookupGetter__'', ''__lookupSetter__'', ''isPrototypeOf'', ''propertyIsEnumerable'',
      ''toString'', ''valueOf'', ''__proto__'', ''toLocaleString'']"

datatype 'a slot = Own 'a | Inherited | Missing

definition lookup :: "(string \<times> 'a) list \<Rightarrow> string \<Rightarrow> 'a slot" where
  "lookup obj key =
     (case map_of obj key of
        Some v \<Rightarrow> Own v
      | None \<Rightarrow> if key \<in> set inheritedKeys then Inherited else Missing)"

subsection \<open>Helpers of the server\<close>

text \<open>
  \<open>sanitizeString\<close>: the white space of \<open>\s\<close> and \<open>trim\<close> among 8-bit characters is
  tab, line feed, vertical tab, form feed, carriage return, space and no-break space.
  The argument is \<open>None\<close> when the value is not a string.
\<close>

definition isSpace :: "char \<Rightarrow> bool" where
  "isSpace c \<longleftrightarrow> of_char c \<in> {9, 10, 11, 12, 13, 32, 160 :: nat}"

definition isControl :: "char \<Rightarrow> bool" where
  "isControl c \<longleftrightarrow> (of_char c :: nat) \<le> 31"

definition trim :: "string \<Rightarrow> string" where
  "trim s = rev (dropWhile isSpace (rev (dropWhile isSpace s)))"

function collapseSpaces :: "string \<Rightarrow> string" where
  "collapseSpaces [] = []"
| "collapseSpaces (c # cs) =
     (if isSpace c then CHR '' '' # collapseSpaces (dropWhile isSpace cs)
      else c # collapseSpaces cs)"
  by pat_completeness auto
termination
  by (relation "measure length") (auto simp: length_dropWhile_le less_Suc_eq_le)

definition sanitizeString :: "string option \<Rightarrow> string" where
  "sanitizeString name =
     (case name of
        None \<Rightarrow> []
      | Some n \<Rightarrow>
          let s = trim n in
          if s = [] then []
          else take NAME_MAX (filter (\<lambda>c. \<not> isControl c) (collapseSpaces s)))"

text \<open>The decimal digits of a number, for \<open>`game_${++gameCounter}`\<close>.\<close>

fun showNat :: "nat \<Rightarrow> string" where
  "showNat n =
     (if n < 10 then [char_of (48 + n)] else showNat (n div 10) @ [char_of (48 + n mod 10)])"

declare showNat.simps [simp del]

text \<open>
  \<open>Math.floor(Math.random() * n)\<close> as an index into an array of \<open>n\<close> elements, for a draw
  \<open>r\<close> of \<open>Math.random()\<close>; \<open>None\<close> when the element is \<open>undefined\<close>.
\<close>

definition randomIndex :: "real \<Rightarrow> nat \<Rightarrow> nat option" where
  "randomIndex r n =
     (case js_floor (Fin r * Fin (real n)) of
        Fin i \<Rightarrow> if 0 \<le> i \<and> i < real n then Some (nat \<lfloor>i\<rfloor>) else None
      | _ \<Rightarrow> None)"

text \<open>
  \<open>randomColor\<close> returns one of the twelve \<open>COLORS\<close>; the empty string stands for
  \<open>undefined\<close>.
\<close>

definition COLORS :: "string list" where
  "COLORS = [''#4a90e2'', ''#e74c3c'', ''#f1c40f'', ''#9b59b6'', ''#1abc9c'', ''#e67e22'',
             ''#2ecc71'', ''#ff6b6b'', ''#3498db'', ''#8e44ad'', ''#16a085'', ''#d35400'']"

definition randomColor :: "real \<Rightarrow> string" where
  "randomColor r = (case randomIndex r (length COLORS) of Some i \<Rightarrow> COLORS ! i | None \<Rightarrow> [])"

text \<open>\<open>Math.random() * (MAP_WIDTH - 40) + 20\<close> for a draw \<open>r\<close> of \<open>Math.random()\<close>.\<close>

definition randomX :: "real \<Rightarrow> num" where
  "randomX r = Fin r * (MAP_WIDTH - Fin 40) + Fin 20"

definition randomY :: "real \<Rightarrow> num" where
  "randomY r = Fin r * (MAP_HEIGHT - Fin 40) + Fin 20"

text \<open>The push onto a room's chat log, which keeps the last \<open>CHAT_MAX_MESSAGES\<close>.\<close>

definition pushChat :: "chatMessage \<Rightarrow> game \<Rightarrow> game" where
  "pushChat msg g =
     (let c = g_chat g @ [msg]
      in g\<lparr>g_chat := (if length c > CHAT_MAX_MESSAGES then tl c else c)\<rparr>)"

definition systemMessage :: "string \<Rightarrow> int \<Rightarrow> chatMessage" where
  "systemMessage text now = \<lparr>cm_playerId = None, cm_text = text, cm_timestamp = now, cm_system = True\<rparr>"

text \<open>Replace the room stored under a key of \<open>games\<close>.\<close>

definition setGame :: "gid \<Rightarrow> game \<Rightarrow> server \<Rightarrow> server" where
  "setGame gameId g s = s\<lparr>games := AList.update gameId g (games s)\<rparr>"

text \<open>
  \<open>pushChatMessage\<close>: nothing when the room is missing. Under an inherited key the
  message lands in a \<open>chat\<close> array of the inherited object, outside \<open>games\<close>.
\<close>

definition pushChatMessage :: "gid \<Rightarrow> chatMessage \<Rightarrow> server \<Rightarrow> server" where
  "pushChatMessage gameId msg s =
     (case lookup (games s) gameId of
        Own g \<Rightarrow> setGame gameId (pushChat msg g) s
      | _ \<Rightarrow> s)"

text \<open>
  \<open>broadcastPlayerName\<close>: nothing when the room or the player is missing; under an
  inherited key \<open>game.players[playerId]\<close> reads a property of \<open>undefined\<close>.
\<close>

definition broadcastPlayerName :: "gid \<Rightarrow> pid \<Rightarrow> server \<Rightarrow> server outcome" where
  "broadcastPlayerName gameId playerId s =
     (case lookup (games s) gameId of
        Missing \<Rightarrow> Returned s
      | Inherited \<Rightarrow> Threw s
      | Own g \<Rightarrow>
          (case map_of (g_players g) playerId of
             None \<Rightarrow> Returned s
           | Some player \<Rightarrow> Returned (emit (EmitPlayerName gameId playerId (p_name player)) s)))"

subsection \<open>Power-up functions\<close>

text \<open>
  The draws of \<open>spawnPowerUp\<close>, each a value of \<open>Math.random()\<close>: for the type, for the
  fraction added to the id, and for the two coordinates.
\<close>

record spawnDraw =
  sd_type :: real
  sd_id :: real
  sd_x :: real
  sd_y :: real

text \<open>\<open>Object.keys(POWER_UP_TYPES)\<close>\<close>

definition types :: "powerUpType list" where
  "types = [SPEED, RAPID_FIRE, SHIELD, DAMAGE_BOOST, HEALTH_PACK]"

text \<open>
  \<open>spawnPowerUp\<close> for the room found under \<open>gameId\<close>. An index outside \<open>types\<close> would make
  \<open>POWER_UP_TYPES[randomType]\<close> undefined, so that reading its \<open>name\<close> throws before
  anything is pushed; no value of \<open>Math.random()\<close> leads there, and the room is left as
  it is.
\<close>

definition spawnPowerUp :: "int \<Rightarrow> spawnDraw \<Rightarrow> game \<Rightarrow> game" where
  "spawnPowerUp now d g =
     (case randomIndex (sd_type d) (length types) of
        None \<Rightarrow> g
      | Some i \<Rightarrow>
          (let randomType = types ! i
           in g\<lparr>g_powerUps := g_powerUps g @
                [\<lparr>pu_id = num_of_int now + Fin (sd_id d), pu_type = randomType,
                  pu_uiType = type_name randomType,
                  pu_x = randomX (sd_x d), pu_y = randomY (sd_y d), pu_createdAt = now\<rparr>]\<rparr>))"

text \<open>The \<open>switch\<close> of \<open>applyPowerUp\<close> on the player.\<close>

fun powerUpEffect :: "int \<Rightarrow> powerUpType \<Rightarrow> player \<Rightarrow> player" where
  "powerUpEffect now HEALTH_PACK player =
     player\<lparr>p_hp := min MAX_HP (p_hp player + HEALTH_PACK_value)\<rparr>"
| "powerUpEffect now SPEED player =
     player\<lparr>p_speedBoost := True,
            p_speedBoostExpireTime := Some (now + duration_or_default SPEED)\<rparr>"
| "powerUpEffect now RAPID_FIRE player =
     player\<lparr>p_rapidFire := True,
            p_rapidFireExpireTime := Some (now + duration_or_default RAPID_FIRE)\<rparr>"
| "powerUpEffect now SHIELD player =
     player\<lparr>p_shield := True,
            p_shieldExpireTime := Some (now + duration_or_default SHIELD)\<rparr>"
| "powerUpEffect now DAMAGE_BOOST player =
     player\<lparr>p_damageBoost := True,
            p_damageBoostExpireTime := Some (now + duration_or_default DAMAGE_BOOST)\<rparr>"

definition applyPowerUp :: "int \<Rightarrow> pid \<Rightarrow> powerUpType \<Rightarrow> game \<Rightarrow> game" where
  "applyPowerUp now playerId powerUpType g =
     (case map_of (g_players g) playerId of
        None \<Rightarrow> g
      | Some player \<Rightarrow>
          g\<lparr>g_players := AList.update playerId (powerUpEffect now powerUpType player) (g_players g)\<rparr>)"

subsection \<open>Game loop: power-up spawn check\<close>

definition SPAWN_INTERVAL :: int where "SPAWN_INTERVAL = 7000"
definition POWER_UP_CAP :: nat where "POWER_UP_CAP = 6"

text \<open>
  The room and its entry of \<open>lastPowerUpSpawnTime\<close> after the spawn check. A missing
  (or zero) entry counts as 0.
\<close>

definition lastSpawnOf :: "int option \<Rightarrow> int" where
  "lastSpawnOf lastSpawn = (case lastSpawn of None \<Rightarrow> 0 | Some t \<Rightarrow> t)"

definition spawnCheck :: "int \<Rightarrow> spawnDraw \<Rightarrow> int option \<Rightarrow> game \<Rightarrow> game \<times> int option" where
  "spawnCheck now d lastSpawn g =
     (let l = lastSpawnOf lastSpawn
      in if now - l > SPAWN_INTERVAL
         then ((if length (g_powerUps g) < POWER_UP_CAP then spawnPowerUp now d g else g), Some now)
         else (g, Some l))"

subsection \<open>Game loop: collision pass\<close>

definition hitTest :: "bullet \<Rightarrow> player \<Rightarrow> bool" where
  "hitTest b target =
     (let dx = p_x target - b_x b;
          dy = p_y target - b_y b;
          distSq = dx * dx + dy * dy;
          nextX = b_x b + b_vx b;
          nextY = b_y b + b_vy b;
          nextDx = p_x target - nextX;
          nextDy = p_y target - nextY;
          nextDistSq = nextDx * nextDx + nextDy * nextDy
      in distSq < HIT_RADIUS * HIT_RADIUS \<or> nextDistSq < HIT_RADIUS * HIT_RADIUS)"

text \<open>
  The inner loop over \<open>game.players\<close>: the first player, in key order, that is not the
  owner, not dead, not invulnerable and within the hit radius.
\<close>

fun findTarget :: "bullet \<Rightarrow> (pid \<times> player) list \<Rightarrow> (pid \<times> player) option" where
  "findTarget b [] = None"
| "findTarget b ((tid, target) # rest) =
     (if tid = b_owner b then findTarget b rest
      else if p_dead target \<or> p_invulnerable target then findTarget b rest
      else if hitTest b target then Some (tid, target)
      else findTarget b rest)"

text \<open>
  \<open>damage\<close> as the hit computes it; \<open>shooter\<close> is \<open>game.players[bullet.owner]\<close>.
  \<open>floor_int\<close> is \<open>Math.floor\<close> read as an integer; its argument here is the finite
  product of the base damage and the multiplier.
\<close>

definition floor_int :: "num \<Rightarrow> int" where
  "floor_int a = (case a of Fin v \<Rightarrow> \<lfloor>v\<rfloor> | _ \<Rightarrow> 0)"

definition hitDamage :: "player option \<Rightarrow> player \<Rightarrow> int" where
  "hitDamage shooter target =
     (let damage = BULLET_DAMAGE;
          damage = (case shooter of
                      Some sh \<Rightarrow>
                        if p_damageBoost sh
                        then floor_int (num_of_int damage * DAMAGE_BOOST_multiplier)
                        else damage
                    | None \<Rightarrow> damage)
      in if p_shield target then 0 else damage)"

text \<open>The target after the hit.\<close>

definition damaged :: "int \<Rightarrow> int \<Rightarrow> player \<Rightarrow> player" where
  "damaged now damage target =
     (let hp = max 0 (p_hp target - damage)
      in if hp \<le> 0
         then target\<lparr>p_hp := hp, p_dead := True, p_respawnTime := now + RESPAWN_TIME\<rparr>
         else target\<lparr>p_hp := hp\<rparr>)"

text \<open>\<open>if (game.scores[bullet.owner] !== undefined) game.scores[bullet.owner]++\<close>\<close>

definition creditKill :: "pid \<Rightarrow> (pid \<times> nat) list \<Rightarrow> (pid \<times> nat) list" where
  "creditKill owner scores =
     (case map_of scores owner of
        None \<Rightarrow> scores
      | Some n \<Rightarrow> AList.update owner (n + 1) scores)"

definition resolveHit :: "int \<Rightarrow> gid \<Rightarrow> bullet \<Rightarrow> pid \<Rightarrow> player \<Rightarrow> game \<Rightarrow> game \<times> outEvent list" where
  "resolveHit now gameId b tid target g =
     (let shooter = map_of (g_players g) (b_owner b);
          target' = damaged now (hitDamage shooter target) target
      in (g\<lparr>g_players := AList.update tid target' (g_players g),
            g_scores := (if p_hp target' \<le> 0 then creditKill (b_owner b) (g_scores g)
                         else g_scores g)\<rparr>,
          [EmitBulletHit gameId (b_owner b) tid (b_x b) (b_y b)]))"

text \<open>\<open>Math.atan2(y, x)\<close>\<close>

definition atan2 :: "real \<Rightarrow> real \<Rightarrow> real" where
  "atan2 y x =
     (if 0 < x then arctan (y / x)
      else if x < 0 then (if 0 \<le> y then arctan (y / x) + pi else arctan (y / x) - pi)
      else if 0 < y then pi / 2
      else if y < 0 then - pi / 2
      else 0)"

fun js_atan2 :: "num \<Rightarrow> num \<Rightarrow> num" where
  "js_atan2 NaN x = NaN"
| "js_atan2 y NaN = NaN"
| "js_atan2 (Fin y) (Fin x) = rnd (atan2 y x)"
| "js_atan2 (Fin y) PInf = Fin 0"
| "js_atan2 (Fin y) NInf = (if 0 \<le> y then rnd pi else rnd (- pi))"
| "js_atan2 PInf (Fin x) = rnd (pi / 2)"
| "js_atan2 NInf (Fin x) = rnd (- pi / 2)"
| "js_atan2 PInf PInf = rnd (pi / 4)"
| "js_atan2 PInf NInf = rnd (3 * pi / 4)"
| "js_atan2 NInf PInf = rnd (- pi / 4)"
| "js_atan2 NInf NInf = rnd (- 3 * pi / 4)"

text \<open>\<open>bullet.color || '#ffff00'\<close>\<close>

definition impactColor :: "bullet \<Rightarrow> string" where
  "impactColor b = (if b_color b = [] then ''#ffff00'' else b_color b)"

text \<open>
  The two wall tests on a moved bullet. \<open>None\<close>: the bullet is removed
  (\<open>splice; continue\<close>). Otherwise the bullet, whether it bounced, and what was emitted.
\<close>

definition bounceX :: "gid \<Rightarrow> bullet \<Rightarrow> (bullet \<times> bool \<times> outEvent list) option" where
  "bounceX gameId b =
     (if b_x b < Fin 0 \<or> b_x b > MAP_WIDTH then
        (if b_bounces b < MAX_BOUNCES then
           (let b' = b\<lparr>b_vx := - b_vx b, b_x := js_max (Fin 0) (js_min MAP_WIDTH (b_x b)),
                       b_bounces := b_bounces b + 1\<rparr>
            in Some (b', True, [EmitWallImpact gameId (b_x b') (b_y b') (impactColor b')]))
         else None)
      else Some (b, False, []))"

definition bounceY :: "gid \<Rightarrow> bullet \<Rightarrow> (bullet \<times> bool \<times> outEvent list) option" where
  "bounceY gameId b =
     (if b_y b < Fin 0 \<or> b_y b > MAP_HEIGHT then
        (if b_bounces b < MAX_BOUNCES then
           (let b' = b\<lparr>b_vy := - b_vy b, b_y := js_max (Fin 0) (js_min MAP_HEIGHT (b_y b)),
                       b_bounces := b_bounces b + 1\<rparr>
            in Some (b', True, [EmitWallImpact gameId (b_x b') (b_y b') (impactColor b')]))
         else None)
      else Some (b, False, []))"

text \<open>
  A bullet that hit nobody: move, bounce or vanish at the walls, recompute the angle
  after a bounce, vanish when too old. The result is the bullet that stays in the list,
  if any, and the wall impacts emitted.
\<close>

definition moveBullet :: "int \<Rightarrow> gid \<Rightarrow> bullet \<Rightarrow> bullet option \<times> outEvent list" where
  "moveBullet now gameId b =
     (let b1 = b\<lparr>b_x := b_x b + b_vx b, b_y := b_y b + b_vy b\<rparr>
      in case bounceX gameId b1 of
           None \<Rightarrow> (None, [])
         | Some (b2, bouncedX, ev1) \<Rightarrow>
             (case bounceY gameId b2 of
                None \<Rightarrow> (None, ev1)
              | Some (b3, bouncedY, ev2) \<Rightarrow>
                  (let b4 = (if bouncedX \<or> bouncedY
                             then b3\<lparr>b_angle := js_atan2 (b_vy b3) (b_vx b3)\<rparr> else b3);
                       isNotTooOld = (b_createdAt b4 = 0 \<or> now - b_createdAt b4 < bulletMaxAge)
                   in ((if isNotTooOld then Some b4 else None), ev1 @ ev2))))"

text \<open>One iteration of the loop over \<open>game.bullets\<close>.\<close>

definition stepBullet :: "int \<Rightarrow> gid \<Rightarrow> bullet \<Rightarrow> game \<Rightarrow> bullet option \<times> game \<times> outEvent list" where
  "stepBullet now gameId b g =
     (case findTarget b (g_players g) of
        Some (tid, target) \<Rightarrow>
          (case resolveHit now gameId b tid target g of (g', ev) \<Rightarrow> (None, g', ev))
      | None \<Rightarrow> (case moveBullet now gameId b of (b', ev) \<Rightarrow> (b', g, ev)))"

text \<open>
  The loop runs from the last bullet to the first and removes or keeps each bullet in
  place, so the bullets behind the head are handled before the head. The \<open>g_bullets\<close>
  field of the room carried along is not read; \<open>collisionPass\<close> stores the result.
\<close>

fun bulletPass :: "int \<Rightarrow> gid \<Rightarrow> bullet list \<Rightarrow> game \<Rightarrow> bullet list \<times> game \<times> outEvent list" where
  "bulletPass now gameId [] g = ([], g, [])"
| "bulletPass now gameId (b # bs) g =
     (case bulletPass now gameId bs g of
        (bs', g1, ev1) \<Rightarrow>
          (case stepBullet now gameId b g1 of
             (b', g2, ev2) \<Rightarrow>
               ((case b' of None \<Rightarrow> bs' | Some b'' \<Rightarrow> b'' # bs'), g2, ev1 @ ev2)))"

definition collisionPass :: "int \<Rightarrow> gid \<Rightarrow> game \<Rightarrow> game \<times> outEvent list" where
  "collisionPass now gameId g =
     (case bulletPass now gameId (g_bullets g) g of
        (bs, g', ev) \<Rightarrow> (g'\<lparr>g_bullets := bs\<rparr>, ev))"

subsection \<open>Game loop: input drain, respawn, power-up collection, effect expiry\<close>

text \<open>
  \<open>while (player.inputQueue.length > 0) { input = shift(); if (input) applyInput(...) }\<close>
\<close>

definition drainInputs :: "player \<Rightarrow> player" where
  "drainInputs player =
     (foldl (\<lambda>p i. case i of None \<Rightarrow> p | Some inp \<Rightarrow> applyInput p inp)
        player (p_inputQueue player))\<lparr>p_inputQueue := []\<rparr>"

text \<open>The respawn of one player; \<open>d\<close> holds the two draws of \<open>getRandomSpawn\<close>.\<close>

definition INVULNERABLE_TIME :: int where "INVULNERABLE_TIME = 3000"

definition respawn :: "int \<Rightarrow> real \<times> real \<Rightarrow> player \<Rightarrow> player" where
  "respawn now d player =
     (if p_dead player \<and> p_respawnTime player \<noteq> 0 \<and> now > p_respawnTime player
      then player\<lparr>p_x := randomX (fst d), p_y := randomY (snd d), p_vx := Fin 0, p_vy := Fin 0,
                  p_hp := MAX_HP, p_dead := False, p_lastShotTime := 0,
                  p_invulnerable := True,
                  p_invulnerableExpireTime := Some (now + INVULNERABLE_TIME)\<rparr>
      else player)"

text \<open>The first player, in key order, that is not dead and within the pickup radius.\<close>

fun collector :: "powerUp \<Rightarrow> (pid \<times> player) list \<Rightarrow> pid option" where
  "collector pu [] = None"
| "collector pu ((playerId, player) # rest) =
     (if p_dead player then collector pu rest
      else
        (let dx = p_x player - pu_x pu;
             dy = p_y player - pu_y pu;
             distance = js_sqrt (dx * dx + dy * dy)
         in if distance < POWER_UP_RADIUS then Some playerId else collector pu rest))"

text \<open>
  The \<open>filter\<close> over \<open>game.powerUps\<close>, whose callback applies a collected power-up at
  once: the power-ups kept, and the room with the effects applied.
\<close>

fun powerUpPass :: "int \<Rightarrow> powerUp list \<Rightarrow> game \<Rightarrow> powerUp list \<times> game" where
  "powerUpPass now [] g = ([], g)"
| "powerUpPass now (pu # pus) g =
     (if now - pu_createdAt pu > POWER_UP_LIFETIME then powerUpPass now pus g
      else
        (case collector pu (g_players g) of
           Some playerId \<Rightarrow> powerUpPass now pus (applyPowerUp now playerId (pu_type pu) g)
         | None \<Rightarrow> (case powerUpPass now pus g of (kept, g') \<Rightarrow> (pu # kept, g'))))"

definition collectPowerUps :: "int \<Rightarrow> game \<Rightarrow> game" where
  "collectPowerUps now g =
     (if g_powerUps g \<noteq> [] then
        (case powerUpPass now (g_powerUps g) g of (kept, g') \<Rightarrow> g'\<lparr>g_powerUps := kept\<rparr>)
      else g)"

text \<open>\<open>flag && expireTime && Date.now() > expireTime\<close>\<close>

definition expired :: "int \<Rightarrow> bool \<Rightarrow> int option \<Rightarrow> bool" where
  "expired now flag e \<longleftrightarrow> flag \<and> (case e of None \<Rightarrow> False | Some t \<Rightarrow> t \<noteq> 0 \<and> now > t)"

definition expireEffects :: "int \<Rightarrow> player \<Rightarrow> player" where
  "expireEffects now player =
     (let p1 = (if expired now (p_speedBoost player) (p_speedBoostExpireTime player)
                then player\<lparr>p_speedBoost := False, p_speedBoostExpireTime := None\<rparr> else player);
          p2 = (if expired now (p_rapidFire p1) (p_rapidFireExpireTime p1)
                then p1\<lparr>p_rapidFire := False, p_rapidFireExpireTime := None\<rparr> else p1);
          p3 = (if expired now (p_shield p2) (p_shieldExpireTime p2)
                then p2\<lparr>p_shield := False, p_shieldExpireTime := None\<rparr> else p2);
          p4 = (if expired now (p_damageBoost p3) (p_damageBoostExpireTime p3)
                then p3\<lparr>p_damageBoost := False, p_damageBoostExpireTime := None\<rparr> else p3)
      in if expired now (p_invulnerable p4) (p_invulnerableExpireTime p4)
         then p4\<lparr>p_invulnerable := False, p_invulnerableExpireTime := None\<rparr> else p4)"

subsection \<open>Game loop: snapshot and the whole tick\<close>

definition snapOf :: "pid \<times> player \<Rightarrow> snapPlayer" where
  "snapOf e =
     (case e of (sid, player) \<Rightarrow>
        \<lparr>sp_id = sid, sp_x = p_x player, sp_y = p_y player, sp_rotation = p_rotation player,
         sp_turretRotation = p_turretRotation player, sp_color = p_color player,
         sp_name = p_name player, sp_hp = p_hp player, sp_dead = p_dead player,
         sp_vx = or_zero (p_vx player), sp_vy = or_zero (p_vy player), sp_speedBoost = p_speedBoost player,
         sp_rapidFire = p_rapidFire player, sp_shield = p_shield player,
         sp_damageBoost = p_damageBoost player, sp_invulnerable = p_invulnerable player,
         sp_lastProcessedInput = p_lastProcessedInput player\<rparr>)"

definition buildState :: "game \<Rightarrow> snapshot" where
  "buildState g =
     \<lparr>st_players = map snapOf (g_players g),
      st_bullets = map (\<lambda>b. \<lparr>sb_x = b_x b, sb_y = b_y b, sb_angle = b_angle b,
                              sb_color = b_color b\<rparr>) (g_bullets g),
      st_scores = g_scores g,
      st_powerUps = g_powerUps g\<rparr>"

text \<open>The draws of one room in one tick: for the power-up spawn and for each respawn.\<close>

record tickDraw =
  td_powerUp :: spawnDraw
  td_spawn :: "pid \<Rightarrow> real \<times> real"

text \<open>
  The body of the game loop for one room, one clock reading \<open>now\<close> for the whole body:
  the room, its entry of \<open>lastPowerUpSpawnTime\<close>, and what is emitted.
\<close>

definition tickGame :: "int \<Rightarrow> tickDraw \<Rightarrow> gid \<Rightarrow> int option \<Rightarrow> game
    \<Rightarrow> game \<times> int option \<times> outEvent list" where
  "tickGame now d gameId lastSpawn g0 =
     (case spawnCheck now (td_powerUp d) lastSpawn g0 of
        (g1, lastSpawn') \<Rightarrow>
          (case collisionPass now gameId g1 of
             (g2, ev) \<Rightarrow>
               (let g3 = g2\<lparr>g_players := map (apsnd drainInputs) (g_players g2)\<rparr>;
                    g4 = g3\<lparr>g_players :=
                           map (\<lambda>(sid, p). (sid, respawn now (td_spawn d sid) p)) (g_players g3)\<rparr>;
                    g5 = collectPowerUps now g4;
                    g6 = g5\<lparr>g_players := map (apsnd (expireEffects now)) (g_players g5)\<rparr>
                in (g6, lastSpawn', ev @ [EmitState gameId (buildState g6)]))))"

definition tickRoom :: "int \<Rightarrow> tickDraw \<Rightarrow> gid \<Rightarrow> server \<Rightarrow> server" where
  "tickRoom now d gameId s =
     (case map_of (games s) gameId of
        None \<Rightarrow> s
      | Some g \<Rightarrow>
          (case tickGame now d gameId (lastPowerUpSpawnTime s gameId) g of
             (g', lastSpawn', ev) \<Rightarrow>
               s\<lparr>games := AList.update gameId g' (games s),
                 lastPowerUpSpawnTime := (lastPowerUpSpawnTime s)(gameId := lastSpawn'),
                 outbox := outbox s @ ev\<rparr>))"

text \<open>\<open>for (const gameId in games)\<close>\<close>

definition gameLoop :: "int \<Rightarrow> (gid \<Rightarrow> tickDraw) \<Rightarrow> server \<Rightarrow> server" where
  "gameLoop now d s = foldl (\<lambda>s' gameId. tickRoom now (d gameId) gameId s') s (map fst (games s))"

subsection \<open>Socket handlers\<close>

text \<open>
  The payload of \<open>join\<close>; \<open>None\<close> for a missing field. An empty \<open>serverId\<close> is falsy.
\<close>

record joinData =
  jd_serverId :: "string option"
  jd_name :: "string option"

text \<open>
  Draws of \<open>join\<close> and \<open>host\<close>, each a value of \<open>Math.random()\<close>: for the two coordinates
  of the spawn position and for the colour.
\<close>

record joinDraw =
  jw_x :: real
  jw_y :: real
  jw_color :: real

text \<open>
  The state of \<open>join\<close> once the room has been found: the cleanup timer is cancelled,
  \<open>socket.gameId\<close> is set, and the new player and its score are stored.
\<close>

definition joinName :: "joinData option \<Rightarrow> string" where
  "joinName data = sanitizeString (case data of None \<Rightarrow> None | Some dt \<Rightarrow> jd_name dt)"

definition joined :: "pid \<Rightarrow> joinData option \<Rightarrow> joinDraw \<Rightarrow> gid \<Rightarrow> game \<Rightarrow> server \<Rightarrow> server" where
  "joined sid data d gameId g s =
     (let g1 = g\<lparr>g_cleanupTimer := False\<rparr>;
          safeName = joinName data;
          color = randomColor (jw_color d);
          g2 = g1\<lparr>g_players :=
                 AList.update sid
                   (newPlayer sid (randomX (jw_x d)) (randomY (jw_y d)) safeName color)
                   (g_players g1),
                 g_scores := AList.update sid 0 (g_scores g1)\<rparr>
      in (setGame gameId g2 s)\<lparr>socketGameId := (socketGameId s)(sid := Some gameId)\<rparr>)"

text \<open>
  \<open>join\<close>. Under an inherited key \<open>game\<close> is truthy, \<open>socket.gameId\<close> is set, and the
  assignment to \<open>game.players[socket.id]\<close> throws.
\<close>

definition on_join :: "pid \<Rightarrow> joinData option \<Rightarrow> int \<Rightarrow> joinDraw \<Rightarrow> server \<Rightarrow> server outcome" where
  "on_join sid data now d s =
     (case (case data of None \<Rightarrow> None | Some dt \<Rightarrow> jd_serverId dt) of
        None \<Rightarrow> Returned (emit (EmitError sid ''Missing serverId'') s)
      | Some gameId \<Rightarrow>
          if gameId = [] then Returned (emit (EmitError sid ''Missing serverId'') s)
          else
            (case lookup (games s) gameId of
               Missing \<Rightarrow> Returned (emit (EmitError sid ''Game not found'') s)
             | Inherited \<Rightarrow> Threw (s\<lparr>socketGameId := (socketGameId s)(sid := Some gameId)\<rparr>)
             | Own g \<Rightarrow>
                 (case broadcastPlayerName gameId sid (joined sid data d gameId g s) of
                    Threw s2 \<Rightarrow> Threw s2
                  | Returned s2 \<Rightarrow>
                      (let safeName = joinName data;
                           s3 = pushChatMessage gameId
                                  (systemMessage
                                     ((if safeName = [] then ''A player'' else safeName)
                                        @ '' joined the game.'') now) s2
                       in Returned
                            (emit (EmitJoin sid gameId safeName
                                     (Some (randomColor (jw_color d))) None
                                     MAP_WIDTH MAP_HEIGHT) s3)))))"

text \<open>
  \<open>games[socket.gameId]\<close>, as \<open>input\<close>, \<open>shoot\<close>, \<open>chat:message\<close> and \<open>disconnect\<close> read it. A
  socket that never joined has no \<open>gameId\<close>, and \<open>games[undefined]\<close> is \<open>undefined\<close>.
\<close>

definition socketGame :: "pid \<Rightarrow> server \<Rightarrow> (gid \<times> game) slot" where
  "socketGame sid s =
     (case socketGameId s sid of
        None \<Rightarrow> Missing
      | Some gameId \<Rightarrow>
          (case lookup (games s) gameId of
             Own g \<Rightarrow> Own (gameId, g)
           | Inherited \<Rightarrow> Inherited
           | Missing \<Rightarrow> Missing))"

text \<open>
  \<open>input\<close>; \<open>inputs\<close> is \<open>None\<close> when the payload is not an array. Under an inherited key
  \<open>game.players[socket.id]\<close> reads a property of \<open>undefined\<close>.
\<close>

definition on_input :: "pid \<Rightarrow> input option list option \<Rightarrow> server \<Rightarrow> server outcome" where
  "on_input sid inputs s =
     (case socketGame sid s of
        Missing \<Rightarrow> Returned s
      | Inherited \<Rightarrow> Threw s
      | Own (gameId, g) \<Rightarrow>
          (case map_of (g_players g) sid of
             None \<Rightarrow> Returned s
           | Some player \<Rightarrow>
               (case inputs of
                  None \<Rightarrow> Returned s
                | Some xs \<Rightarrow>
                    (let q = p_inputQueue player @ xs;
                         q' = (if length q > 180 then drop (length q - 120) q else q)
                     in Returned
                          (setGame gameId
                             (g\<lparr>g_players := AList.update sid (player\<lparr>p_inputQueue := q'\<rparr>)
                                                (g_players g)\<rparr>) s)))))"

text \<open>The bullets of one shot; \<open>dataAngle\<close> is \<open>Number(data?.angle)\<close> and \<open>angle\<close> is \<open>dataAngle || 0\<close>.\<close>

definition newBullet :: "player \<Rightarrow> pid \<Rightarrow> int \<Rightarrow> num \<Rightarrow> bullet" where
  "newBullet player sid now a =
     (let dt = Fin 1 / TICK_RATE
      in \<lparr>b_x = p_x player, b_y = p_y player,
          b_vx = js_cos a * BULLET_SPEED * dt, b_vy = js_sin a * BULLET_SPEED * dt,
          b_angle = a, b_owner = sid, b_color = p_color player, b_createdAt = now,
          b_bounces = 0\<rparr>)"

definition shotAngles :: "bool \<Rightarrow> num \<Rightarrow> num list" where
  "shotAngles isRapid angle =
     (let shots = (if isRapid then RAPID_FIRE_shots else 1);
          spread = RAPID_FIRE_spread
      in map (\<lambda>i. angle + (if shots = 1 then Fin 0
                             else (Fin (real i) - (Fin (real shots) - Fin 1) / Fin 2) * spread))
           [0 ..< shots])"

text \<open>
  \<open>shoot\<close>. It reads \<open>game.players?.[socket.id]\<close>, so under an inherited key the player
  is \<open>undefined\<close> and the handler returns.
\<close>

definition on_shoot :: "pid \<Rightarrow> num \<Rightarrow> int \<Rightarrow> server \<Rightarrow> server outcome" where
  "on_shoot sid dataAngle now s =
     (case socketGame sid s of
        Missing \<Rightarrow> Returned s
      | Inherited \<Rightarrow> Returned s
      | Own (gameId, g) \<Rightarrow>
          (case map_of (g_players g) sid of
             None \<Rightarrow> Returned s
           | Some player \<Rightarrow>
               if p_dead player then Returned s
               else
                 (let isRapid = p_rapidFire player;
                      cooldown = (if isRapid then RAPID_FIRE_COOLDOWN else SHOOT_COOLDOWN)
                  in if now - p_lastShotTime player < cooldown then Returned s
                     else
                       (let angle = or_zero dataAngle;
                            bs = map (newBullet player sid now) (shotAngles isRapid angle)
                        in Returned
                             (setGame gameId
                                (g\<lparr>g_bullets := g_bullets g @ bs,
                                   g_players := AList.update sid (player\<lparr>p_lastShotTime := now\<rparr>)
                                                  (g_players g)\<rparr>) s)))))"

text \<open>\<open>chat:message\<close>; \<open>dataText\<close> is \<open>data.text\<close> when it is a string.\<close>

definition on_chat_message :: "pid \<Rightarrow> string option \<Rightarrow> int \<Rightarrow> server \<Rightarrow> server outcome" where
  "on_chat_message sid dataText now s =
     (case socketGame sid s of
        Missing \<Rightarrow> Returned s
      | Inherited \<Rightarrow> Threw s
      | Own (gameId, g) \<Rightarrow>
          (case map_of (g_players g) sid of
             None \<Rightarrow> Returned s
           | Some player \<Rightarrow>
               (let sanitizedText = take 200 (sanitizeString dataText)
                in if sanitizedText = [] then Returned s
                   else
                     (let msg = \<lparr>cm_playerId = Some sid, cm_text = sanitizedText,
                                 cm_timestamp = now, cm_system = False\<rparr>
                      in Returned (emit (EmitChatMessage gameId msg)
                                     (pushChatMessage gameId msg s))))))"

definition on_getServers :: "pid \<Rightarrow> server \<Rightarrow> server outcome" where
  "on_getServers sid s =
     Returned
       (emit (EmitServers sid
                (map (\<lambda>(gameId, g). \<lparr>si_id = g_id g, si_name = g_name g,
                                      si_players = length (g_players g), si_maxPlayers = MAX_PLAYERS\<rparr>)
                   (filter (\<lambda>(gameId, g). length (g_players g) > 0) (games s)))) s)"

record hostData =
  hd_name :: "string option"
  hd_playerName :: "string option"
  hd_map :: "string option"

text \<open>
  The name of the room that \<open>host\<close> creates, and the state once the room with its first
  player has been stored.
\<close>

definition hostName :: "hostData \<Rightarrow> nat \<Rightarrow> string" where
  "hostName dt counter =
     (case hd_name dt of
        None \<Rightarrow> ''Game '' @ showNat counter
      | Some n \<Rightarrow> if n = [] then ''Game '' @ showNat counter else n)"

definition hostMap :: "hostData \<Rightarrow> string" where
  "hostMap dt = (case hd_map dt of None \<Rightarrow> ''green'' | Some m \<Rightarrow> if m = [] then ''green'' else m)"

definition hosted :: "pid \<Rightarrow> hostData \<Rightarrow> joinDraw \<Rightarrow> server \<Rightarrow> server" where
  "hosted sid dt d s =
     (let counter = gameCounter s + 1;
          gameId = ''game_'' @ showNat counter;
          safeName = sanitizeString (hd_playerName dt);
          color = randomColor (jw_color d);
          g = \<lparr>g_id = gameId, g_name = hostName dt counter, g_mapType = hostMap dt,
               g_players = [(sid, newPlayer sid (randomX (jw_x d)) (randomY (jw_y d))
                                    safeName color)],
               g_bullets = [], g_powerUps = [], g_scores = [(sid, 0)], g_chat = [],
               g_cleanupTimer = False\<rparr>
      in (setGame gameId g s)\<lparr>gameCounter := counter,
           socketGameId := (socketGameId s)(sid := Some gameId)\<rparr>)"

text \<open>\<open>host\<close>; its body runs inside \<open>try\<close>, and the \<open>catch\<close> reports to the socket.\<close>

definition on_host :: "pid \<Rightarrow> hostData option \<Rightarrow> int \<Rightarrow> joinDraw \<Rightarrow> server \<Rightarrow> server outcome" where
  "on_host sid data now d s =
     (case data of
        None \<Rightarrow> Returned (emit (EmitError sid ''Invalid host data'') s)
      | Some dt \<Rightarrow>
          (let counter = gameCounter s + 1;
               gameId = ''game_'' @ showNat counter
           in case broadcastPlayerName gameId sid (hosted sid dt d s) of
                Threw s2 \<Rightarrow> Returned (emit (EmitError sid ''Unable to host server'') s2)
              | Returned s2 \<Rightarrow>
                  (let s3 = pushChatMessage gameId
                              (systemMessage
                                 (''Server \"'' @ hostName dt counter @ ''\" created.'') now) s2
                   in Returned
                        (emit (EmitJoin sid gameId (hostName dt counter) None (Some (hostMap dt))
                                 MAP_WIDTH MAP_HEIGHT) s3))))"

text \<open>
  \<open>disconnect\<close>: the chat message is pushed onto the room just found, then the player
  and the score are deleted (\<open>withoutPlayer\<close>), then the timer is set if nobody is left
  (\<open>departed\<close>). Under an inherited key \<open>games[gameId].players[socket.id]\<close> reads a property
  of \<open>undefined\<close>.
\<close>

definition withoutPlayer :: "pid \<Rightarrow> int \<Rightarrow> game \<Rightarrow> game" where
  "withoutPlayer sid now g =
     (case map_of (g_players g) sid of
        None \<Rightarrow> g
      | Some player \<Rightarrow>
          (let g' = pushChat
                      (systemMessage
                         ((if p_name player = [] then ''A player'' else p_name player)
                            @ '' left the game.'') now) g
           in g'\<lparr>g_players := AList.delete sid (g_players g'),
                 g_scores := AList.delete sid (g_scores g')\<rparr>))"

definition departed :: "pid \<Rightarrow> int \<Rightarrow> game \<Rightarrow> game" where
  "departed sid now g =
     (let g1 = withoutPlayer sid now g
      in if g_players g1 = [] then g1\<lparr>g_cleanupTimer := True\<rparr> else g1)"

definition on_disconnect :: "pid \<Rightarrow> int \<Rightarrow> server \<Rightarrow> server outcome" where
  "on_disconnect sid now s =
     (case socketGame sid s of
        Missing \<Rightarrow> Returned s
      | Inherited \<Rightarrow> Threw s
      | Own (gameId, g) \<Rightarrow> Returned (setGame gameId (departed sid now g) s))"

text \<open>
  The callback of a cleanup timer set for room \<open>gameId\<close>, whenever it runs.
\<close>

definition on_cleanup :: "gid \<Rightarrow> server \<Rightarrow> server outcome" where
  "on_cleanup gameId s =
     (case lookup (games s) gameId of
        Missing \<Rightarrow> Returned s
      | Inherited \<Rightarrow> Threw s
      | Own g \<Rightarrow>
          if g_players g = [] then Returned (s\<lparr>games := AList.delete gameId (games s)\<rparr>)
          else Returned s)"

subsection \<open>Runs of the server\<close>

text \<open>
  An event carries what its handler reads from outside: the payload, the clock and the
  random draws. Any event may follow any other, with any clock reading and any draws;
  the callback of a cleanup timer and the tick are not tied to real time, and a run goes
  on after a handler has thrown. So the reachable states include every state of a real
  run.
\<close>

datatype event =
    Join pid "joinData option" int joinDraw
  | Input pid "input option list option"
  | Shoot pid num int
  | Chat pid "string option" int
  | GetServers pid
  | Host pid "hostData option" int joinDraw
  | Disconnect pid int
  | Cleanup gid
  | Tick int "gid \<Rightarrow> tickDraw"

fun handle :: "event \<Rightarrow> server \<Rightarrow> server outcome" where
  "handle (Join sid data now d) s = on_join sid data now d s"
| "handle (Input sid inputs) s = on_input sid inputs s"
| "handle (Shoot sid angle now) s = on_shoot sid angle now s"
| "handle (Chat sid text now) s = on_chat_message sid text now s"
| "handle (GetServers sid) s = on_getServers sid s"
| "handle (Host sid data now d) s = on_host sid data now d s"
| "handle (Disconnect sid now) s = on_disconnect sid now s"
| "handle (Cleanup gameId) s = on_cleanup gameId s"
| "handle (Tick now d) s = Returned (gameLoop now d s)"

definition step :: "event \<Rightarrow> server \<Rightarrow> server" where
  "step e s = state_of (handle e s)"

text \<open>The states the server can be in: the initial one and every state an event leads to.\<close>

inductive reachable :: "server \<Rightarrow> bool" where
  init: "reachable initServer"
| next_state: "reachable s \<Longrightarrow> reachable (step e s)"

section \<open>The client: prediction and reconciliation\<close>

text \<open>
  What the client's \<open>applyInput\<close> reads of its second argument: the input packet built
  by \<open>update\<close>, and each entry of \<open>predictionHistory\<close>, which stores the same fields
  next to the predicted state at that moment.
\<close>

record clientInput =
  ci_seq :: int
  ci_inputs :: keys
  ci_rotation :: num
  ci_turretRotation :: num
  ci_dt :: num

record histEntry = clientInput +
  h_x :: num
  h_y :: num
  h_vx :: num
  h_vy :: num

text \<open>
  \<open>predictedPlayer\<close>. The flags are absent (falsy) until the first snapshot; the field
  \<open>health\<close>, which only drives a screen flash, is left out.
\<close>

record predicted =
  c_x :: num
  c_y :: num
  c_vx :: num
  c_vy :: num
  c_rotation :: num
  c_turretRotation :: num
  c_speedBoost :: bool
  c_shield :: bool

text \<open>
  The client: the size of the canvas, \<open>gameStarted\<close>, \<open>playerId\<close>, the table \<open>players\<close>
  built from the last snapshot, and the state of the prediction.
\<close>

record client =
  canvasWidth :: num
  canvasHeight :: num
  gameStarted :: bool
  playerId :: "pid option"
  players :: "(pid \<times> snapPlayer) list"
  sequenceNumber :: int
  inputQueue :: "clientInput list"
  predictionHistory :: "histEntry list"
  predictedPlayer :: predicted

definition PREDICTION_HISTORY_MAX :: nat where "PREDICTION_HISTORY_MAX = 60"

text \<open>
  The client's copy of the physics: the same steps as the server's, with the bounds
  taken from the canvas, the speed-boost factor written as 2, and the rotations copied
  from the input without a type test. The \<open>dt\<close> of an entry is a number.
\<close>

definition applyInput_client :: "num \<Rightarrow> num \<Rightarrow> predicted \<Rightarrow> 'a clientInput_scheme \<Rightarrow> predicted" where
  "applyInput_client width height player inp =
     (case integrate (c_x player) (c_y player) (c_vx player) (c_vy player)
             (c_speedBoost player) (ci_inputs inp) (dt_of (NumDt (ci_dt inp))) of
        (vx1, vy1, x1, y1) \<Rightarrow>
          (case (clampAxis width x1 vx1, clampAxis height y1 vy1) of
             ((x2, vx2), (y2, vy2)) \<Rightarrow>
               player\<lparr>c_x := x2, c_y := y2, c_vx := vx2, c_vy := vy2,
                 c_rotation := ci_rotation inp,
                 c_turretRotation := ci_turretRotation inp\<rparr>))"

text \<open>
  One run of \<open>update\<close> as far as prediction goes, after its guard
  \<open>if (!playerId || !players[playerId] || !gameStarted) return\<close>: \<open>ks\<close> is the state of the
  keys and \<open>turret\<close> the turret angle computed from the mouse.
\<close>

definition predictStep :: "keys \<Rightarrow> num \<Rightarrow> client \<Rightarrow> client" where
  "predictStep ks turret c =
     (let dt = Fin 1 / Fin 60;
          p0 = (predictedPlayer c)\<lparr>c_turretRotation := turret\<rparr>;
          inp = \<lparr>ci_seq = sequenceNumber c, ci_inputs = ks, ci_rotation = or_zero (c_rotation p0),
                 ci_turretRotation = or_zero (c_turretRotation p0), ci_dt = dt\<rparr>;
          p1 = applyInput_client (canvasWidth c) (canvasHeight c) p0 inp;
          entry = \<lparr>ci_seq = ci_seq inp, ci_inputs = ks, ci_rotation = c_rotation p1,
                   ci_turretRotation = c_turretRotation p1, ci_dt = dt,
                   h_x = c_x p1, h_y = c_y p1, h_vx = c_vx p1, h_vy = c_vy p1\<rparr>;
          h = predictionHistory c @ [entry]
      in c\<lparr>sequenceNumber := sequenceNumber c + 1,
           inputQueue := inputQueue c @ [inp],
           predictedPlayer := p1,
           predictionHistory := (if length h > PREDICTION_HISTORY_MAX then tl h else h)\<rparr>)"

definition clientUpdate :: "keys \<Rightarrow> num \<Rightarrow> client \<Rightarrow> client" where
  "clientUpdate ks turret c =
     (case playerId c of
        None \<Rightarrow> c
      | Some me \<Rightarrow>
          if me = [] \<or> map_of (players c) me = None \<or> \<not> gameStarted c then c
          else predictStep ks turret c)"

text \<open>
  The authoritative base: the predicted player with position, velocity, rotation and
  the two flags overwritten from the snapshot (\<open>vx\<close> and \<open>vy\<close> through \<open>|| 0\<close>).
\<close>

definition authoritative :: "snapPlayer \<Rightarrow> predicted \<Rightarrow> predicted" where
  "authoritative serverPlayer p =
     p\<lparr>c_x := sp_x serverPlayer, c_y := sp_y serverPlayer,
       c_vx := or_zero (sp_vx serverPlayer), c_vy := or_zero (sp_vy serverPlayer),
       c_rotation := sp_rotation serverPlayer,
       c_speedBoost := sp_speedBoost serverPlayer, c_shield := sp_shield serverPlayer\<rparr>"

text \<open>
  Server reconciliation: overwrite, shift acknowledged entries off the front of the
  history, re-apply what is left.
\<close>

definition reconcile :: "snapPlayer \<Rightarrow> client \<Rightarrow> client" where
  "reconcile serverPlayer c =
     (let p1 = authoritative serverPlayer (predictedPlayer c);
          lastProcessedInputSeq = sp_lastProcessedInput serverPlayer;
          h = dropWhile (\<lambda>e. ci_seq e \<le> lastProcessedInputSeq) (predictionHistory c)
      in c\<lparr>predictionHistory := h,
           predictedPlayer := foldl (applyInput_client (canvasWidth c) (canvasHeight c)) p1 h\<rparr>)"

text \<open>
  The table \<open>players\<close> of the \<open>state\<close> handler: \<open>players[p.id] = p\<close> for each entry \<open>p\<close> of the
  snapshot that is an object with a non-empty id (\<open>None\<close> is an entry that is not).
\<close>

definition playersOf :: "snapPlayer option list \<Rightarrow> (pid \<times> snapPlayer) list" where
  "playersOf ps =
     foldl (\<lambda>tbl e. case e of
                       None \<Rightarrow> tbl
                     | Some p \<Rightarrow> if sp_id p = [] then tbl else AList.update (sp_id p) p tbl)
       [] ps"

text \<open>
  The \<open>state\<close> handler as far as the local player goes. \<open>state\<close> is \<open>None\<close> when the payload
  is missing or its \<open>players\<close> is not an array. After the guard the table \<open>players\<close> is
  rebuilt, and the local player is reconciled if \<open>playerId\<close> is set and found there.
\<close>

definition on_state :: "snapPlayer option list option \<Rightarrow> client \<Rightarrow> client" where
  "on_state state c =
     (case state of
        None \<Rightarrow> c
      | Some ps \<Rightarrow>
          if \<not> gameStarted c then c
          else
            (let c1 = c\<lparr>players := playersOf ps\<rparr>
             in case playerId c1 of
                  None \<Rightarrow> c1
                | Some me \<Rightarrow>
                    if me = [] then c1
                    else
                      (case map_of (players c1) me of
                         None \<Rightarrow> c1
                       | Some serverPlayer \<Rightarrow> reconcile serverPlayer c1)))"

definition initClient :: "num \<Rightarrow> num \<Rightarrow> client" where
  "initClient width height =
     \<lparr>canvasWidth = width, canvasHeight = height, gameStarted = False, playerId = None,
      players = [], sequenceNumber = 0,
      inputQueue = [], predictionHistory = [],
      predictedPlayer = \<lparr>c_x = Fin 0, c_y = Fin 0, c_vx = Fin 0, c_vy = Fin 0,
                          c_rotation = Fin 0, c_turretRotation = Fin 0,
                          c_speedBoost = False, c_shield = False\<rparr>\<rparr>"

text \<open>The client's \<open>join\<close> handler, as far as this state goes.\<close>

definition client_on_join :: "pid \<Rightarrow> num \<Rightarrow> num \<Rightarrow> client \<Rightarrow> client" where
  "client_on_join sid mapWidth mapHeight c =
     c\<lparr>playerId := Some sid, canvasWidth := mapWidth, canvasHeight := mapHeight\<rparr>"

text \<open>
  \<open>hostGame\<close> and \<open>joinGame\<close> start the game, reset the predicted player and forget the
  player id and the players; the history and the sequence number stay.
\<close>

definition client_start :: "client \<Rightarrow> client" where
  "client_start c =
     c\<lparr>gameStarted := True, playerId := None, players := [],
       predictedPlayer := \<lparr>c_x = canvasWidth c / Fin 2, c_y = canvasHeight c / Fin 2,
                           c_vx = Fin 0, c_vy = Fin 0,
                           c_rotation = Fin 0, c_turretRotation = Fin 0, c_speedBoost = False,
                           c_shield = False\<rparr>\<rparr>"

text \<open>\<open>showStartScreen\<close>\<close>

definition client_stop :: "client \<Rightarrow> client" where
  "client_stop c = c\<lparr>gameStarted := False\<rparr>"

text \<open>\<open>inputQueue\<close> is sent and emptied every 50 ms.\<close>

definition client_flush :: "client \<Rightarrow> client" where
  "client_flush c = c\<lparr>inputQueue := []\<rparr>"

inductive client_reachable :: "client \<Rightarrow> bool" where
  c_init: "client_reachable (initClient w h)"
| c_update: "client_reachable c \<Longrightarrow> client_reachable (clientUpdate ks turret c)"
| c_state: "client_reachable c \<Longrightarrow> client_reachable (on_state st c)"
| c_join: "client_reachable c \<Longrightarrow> client_reachable (client_on_join sid w h c)"
| c_start: "client_reachable c \<Longrightarrow> client_reachable (client_start c)"
| c_stop: "client_reachable c \<Longrightarrow> client_reachable (client_stop c)"
| c_flush: "client_reachable c \<Longrightarrow> client_reachable (client_flush c)"

text \<open>The history is in strictly increasing sequence order, below the next sequence number.\<close>

definition historyOrdered :: "client \<Rightarrow> bool" where
  "historyOrdered c \<longleftrightarrow>
     sorted_wrt (<) (map ci_seq (predictionHistory c)) \<and>
     (\<forall>e \<in> set (predictionHistory c). ci_seq e < sequenceNumber c)"

section \<open>Invariants of the rooms\<close>

text \<open>
  Hit points stay within \<open>[0, MAX_HP]\<close>, and a player that is not dead has hit points
  left.
\<close>

definition player_ok :: "player \<Rightarrow> bool" where
  "player_ok p \<longleftrightarrow> 0 \<le> p_hp p \<and> p_hp p \<le> MAX_HP \<and> (\<not> p_dead p \<longrightarrow> 0 < p_hp p)"

text \<open>
  A room is well formed when its players have distinct keys and are \<open>player_ok\<close>, no
  bullet has bounced more than \<open>MAX_BOUNCES\<close> times, and the scores are kept for
  exactly the players present.
\<close>

definition room_inv :: "game \<Rightarrow> bool" where
  "room_inv g \<longleftrightarrow>
     distinct (map fst (g_players g)) \<and>
     (\<forall>p \<in> snd ` set (g_players g). player_ok p) \<and>
     (\<forall>b \<in> set (g_bullets g). b_bounces b \<le> MAX_BOUNCES) \<and>
     fst ` set (g_scores g) = fst ` set (g_players g)"

definition server_inv :: "server \<Rightarrow> bool" where
  "server_inv s \<longleftrightarrow> (\<forall>g \<in> snd ` set (games s). room_inv g)"

text \<open>A bullet whose next position lies beyond a wall.\<close>

definition crossesWall :: "bullet \<Rightarrow> bool" where
  "crossesWall b \<longleftrightarrow>
     b_x b + b_vx b < Fin 0 \<or> b_x b + b_vx b > MAP_WIDTH \<or>
     b_y b + b_vy b < Fin 0 \<or> b_y b + b_vy b > MAP_HEIGHT"

text \<open>
  The power-ups of a room were created more than \<open>SPAWN_INTERVAL\<close> apart, none after the
  room's entry \<open>l\<close> of \<open>lastPowerUpSpawnTime\<close> and none more than \<open>POWER_UP_LIFETIME\<close> before
  it.
\<close>

definition powerUps_spaced :: "int \<Rightarrow> powerUp list \<Rightarrow> bool" where
  "powerUps_spaced l pus \<longleftrightarrow>
     sorted_wrt (\<lambda>a b. a + SPAWN_INTERVAL < b) (map pu_createdAt pus) \<and>
     (\<forall>pu \<in> set pus. pu_createdAt pu \<le> l \<and> l - pu_createdAt pu \<le> POWER_UP_LIFETIME)"

definition spawn_inv :: "server \<Rightarrow> bool" where
  "spawn_inv s \<longleftrightarrow>
     distinct (map fst (games s)) \<and>
     (\<forall>(gameId, g) \<in> set (games s).
        powerUps_spaced (lastSpawnOf (lastPowerUpSpawnTime s gameId)) (g_powerUps g))"


section \<open>Notions used in the statements\<close>

text \<open>
  The direction that a pair of opposite keys selects on its axis: \<open>- 1\<close>, 0 or 1. An
  input is \<open>diagonal\<close> when both axes are selected and \<open>straight\<close> when exactly one is.
\<close>

definition axis :: "bool \<Rightarrow> bool \<Rightarrow> real" where
  "axis neg pos = (if neg = pos then 0 else if pos then 1 else - 1)"

definition diagonal :: "keys \<Rightarrow> bool" where
  "diagonal ks \<longleftrightarrow> k_a ks \<noteq> k_d ks \<and> k_w ks \<noteq> k_s ks"

definition straight :: "keys \<Rightarrow> bool" where
  "straight ks \<longleftrightarrow> (k_a ks \<noteq> k_d ks) \<noteq> (k_w ks \<noteq> k_s ks)"

text \<open>
  A step of \<open>applyInput\<close> reaches its target velocity when on both axes the difference to
  the target is below \<open>acceleration * dt\<close>, and it stays clear of the walls when neither
  test of the boundary clamp fires on the new position.
\<close>

definition noClamp :: "num \<Rightarrow> num \<Rightarrow> bool" where
  "noClamp bound pos \<longleftrightarrow> \<not> pos < TANK_RADIUS \<and> \<not> pos > bound - TANK_RADIUS"

definition reachesTarget :: "player \<Rightarrow> keys \<Rightarrow> num \<Rightarrow> bool" where
  "reachesTarget p ks dt \<longleftrightarrow>
     (case targetVelocity (p_speedBoost p) ks of
        (targetVx, targetVy) \<Rightarrow>
          (let accelAmount = (if Fin 0 < inputMagnitude ks then TANK_ACCELERATION
                              else TANK_DECELERATION) * dt
           in \<bar>targetVx - p_vx p\<bar> < accelAmount \<and> \<bar>targetVy - p_vy p\<bar> < accelAmount \<and>
              noClamp MAP_WIDTH (p_x p + targetVx * dt) \<and>
              noClamp MAP_HEIGHT (p_y p + targetVy * dt)))"


section \<open>Sample data\<close>

definition leftInput :: input where
  "leftInput =
     \<lparr>i_seq = Some 1, i_inputs = Some \<lparr>k_w = False, k_s = False, k_a = True, k_d = False\<rparr>,
      i_rotation = Some (Fin 0), i_turretRotation = Some (Fin 0), i_dt = NumDt (Fin 1)\<rparr>"

definition rightInput :: input where
  "rightInput =
     \<lparr>i_seq = Some 1, i_inputs = Some \<lparr>k_w = False, k_s = False, k_a = False, k_d = True\<rparr>,
      i_rotation = Some (Fin 0), i_turretRotation = Some (Fin 0), i_dt = NoDt\<rparr>"

definition diagonalInput :: input where
  "diagonalInput =
     \<lparr>i_seq = Some 1, i_inputs = Some \<lparr>k_w = False, k_s = True, k_a = False, k_d = True\<rparr>,
      i_rotation = Some (Fin 0), i_turretRotation = Some (Fin 0), i_dt = NoDt\<rparr>"

text \<open>
  Samples with no key pressed whose \<open>dt\<close> is the string \<open>"x"\<close>, the number \<open>Infinity\<close>
  (sent as \<open>1e999\<close>), and the number \<open>- 2 ^ 1023\<close>.
\<close>

definition idleKeys :: keys where
  "idleKeys = \<lparr>k_w = False, k_s = False, k_a = False, k_d = False\<rparr>"

definition textDtInput :: input where
  "textDtInput =
     \<lparr>i_seq = Some 1, i_inputs = Some idleKeys, i_rotation = Some (Fin 0),
      i_turretRotation = Some (Fin 0), i_dt = CoercedDt NaN\<rparr>"

definition hugeDtInput :: input where
  "hugeDtInput =
     \<lparr>i_seq = Some 1, i_inputs = Some idleKeys, i_rotation = Some (Fin 0),
      i_turretRotation = Some (Fin 0), i_dt = NumDt PInf\<rparr>"

definition hugeNegative :: real where
  "hugeNegative = - (2 ^ 1023)"

definition negativeDtInput :: input where
  "negativeDtInput =
     \<lparr>i_seq = Some 1, i_inputs = Some idleKeys, i_rotation = Some (Fin 0),
      i_turretRotation = Some (Fin 0), i_dt = NumDt (Fin hugeNegative)\<rparr>"

text \<open>A client that has predicted the inputs 10 to 15, and a snapshot acknowledging 12.\<close>

definition sampleEntry :: "int \<Rightarrow> histEntry" where
  "sampleEntry n =
     \<lparr>ci_seq = n, ci_inputs = \<lparr>k_w = False, k_s = False, k_a = False, k_d = True\<rparr>,
      ci_rotation = Fin 0, ci_turretRotation = Fin 0, ci_dt = Fin 1 / Fin 60,
      h_x = Fin (500 + real_of_int n), h_y = Fin 360, h_vx = Fin 60, h_vy = Fin 0\<rparr>"

definition sampleSnap :: snapPlayer where
  "sampleSnap =
     \<lparr>sp_id = ''me'', sp_x = Fin 511, sp_y = Fin 360, sp_rotation = Fin 0,
      sp_turretRotation = Fin 0,
      sp_color = ''#4a90e2'', sp_name = ''me'', sp_hp = 100, sp_dead = False,
      sp_vx = Fin 60, sp_vy = Fin 0, sp_speedBoost = False, sp_rapidFire = False,
      sp_shield = False,
      sp_damageBoost = False, sp_invulnerable = False, sp_lastProcessedInput = 12\<rparr>"

definition otherSnap :: snapPlayer where
  "otherSnap = sampleSnap\<lparr>sp_id := ''you'', sp_x := Fin 100, sp_lastProcessedInput := 40\<rparr>"

definition sampleClient :: client where
  "sampleClient =
     \<lparr>canvasWidth = Fin 1000, canvasHeight = Fin 720, gameStarted = True,
      playerId = Some ''me'', players = [], sequenceNumber = 16,
      inputQueue = [],
      predictionHistory = map sampleEntry [10, 11, 12, 13, 14, 15],
      predictedPlayer = \<lparr>c_x = Fin 515, c_y = Fin 360, c_vx = Fin 60, c_vy = Fin 0,
                          c_rotation = Fin 0,
                          c_turretRotation = Fin 0, c_speedBoost = False, c_shield = False\<rparr>\<rparr>"

text \<open>A room with the given players and bullets, no power-ups and all scores zero.\<close>

definition sampleRoom :: "(pid \<times> player) list \<Rightarrow> bullet list \<Rightarrow> game" where
  "sampleRoom ps bs =
     \<lparr>g_id = ''game_1'', g_name = ''Game 1'', g_mapType = ''green'', g_players = ps,
      g_bullets = bs, g_powerUps = [], g_scores = map (\<lambda>(k, p). (k, 0)) ps, g_chat = [],
      g_cleanupTimer = False\<rparr>"


definition sampleJoin :: joinData where
  "sampleJoin = \<lparr>jd_serverId = Some ''game_7'', jd_name = Some ''Ada''\<rparr>"

definition sampleJoinDraw :: joinDraw where
  "sampleJoinDraw = \<lparr>jw_x = 1 / 2, jw_y = 1 / 2, jw_color = 0\<rparr>"

text \<open>Three tanks in a row, the second invulnerable, the third shielded, and a shot of the first.\<close>

definition tankA :: player where
  "tankA = newPlayer ''a'' (Fin 100) (Fin 100) ''Ada'' ''#4a90e2''"

definition tankB :: player where
  "tankB = (newPlayer ''b'' (Fin 110) (Fin 100) ''Bob'' ''#e74c3c'')\<lparr>p_invulnerable := True\<rparr>"

definition tankC :: player where
  "tankC = (newPlayer ''c'' (Fin 120) (Fin 100) ''Cy'' ''#f1c40f'')\<lparr>p_shield := True\<rparr>"

definition tankD :: player where
  "tankD = (newPlayer ''d'' (Fin 120) (Fin 100) ''Di'' ''#9b59b6'')\<lparr>p_hp := 20\<rparr>"

definition shotA :: bullet where
  "shotA = newBullet tankA ''a'' 1000 (Fin 0)"

text \<open>A bullet that has bounced three times and is about to leave through the left wall.\<close>

definition spentBullet :: bullet where
  "spentBullet =
     \<lparr>b_x = Fin 2, b_y = Fin 100, b_vx = Fin (- 5), b_vy = Fin 0, b_angle = rnd pi,
      b_owner = ''a'',
      b_color = ''#4a90e2'', b_createdAt = 1000, b_bounces = 3\<rparr>"

text \<open>The server after one \<open>host\<close> request, and after a shot of the host.\<close>

definition sampleHost :: hostData where
  "sampleHost = \<lparr>hd_name = Some ''Arena'', hd_playerName = Some ''Ada'', hd_map = None\<rparr>"

definition hostedServer :: server where
  "hostedServer = step (Host ''s1'' (Some sampleHost) 1000 sampleJoinDraw) initServer"

definition shotServer :: server where
  "shotServer = step (Shoot ''s1'' (Fin 0) 5000) hostedServer"

text \<open>A tank at rest in the middle of the arena, and one-second steps to the right and diagonally.\<close>

definition restingTank :: player where
  "restingTank = newPlayer ''a'' (Fin 500) (Fin 360) ''n'' ''#4a90e2''"

definition rightKeys :: keys where
  "rightKeys = \<lparr>k_w = False, k_s = False, k_a = False, k_d = True\<rparr>"

definition downRightKeys :: keys where
  "downRightKeys = \<lparr>k_w = False, k_s = True, k_a = False, k_d = True\<rparr>"

definition longRightInput :: input where
  "longRightInput = rightInput\<lparr>i_dt := NumDt (Fin 1)\<rparr>"

definition longDiagonalInput :: input where
  "longDiagonalInput = diagonalInput\<lparr>i_dt := NumDt (Fin 1)\<rparr>"

text \<open>
  A room whose only tank has all four timed effects running and stands on two SPEED
  power-ups.
\<close>

definition boostedTank :: player where
  "boostedTank =
     tankA\<lparr>p_speedBoost := True, p_speedBoostExpireTime := Some 3000,
            p_rapidFire := True, p_rapidFireExpireTime := Some 3000,
            p_shield := True, p_shieldExpireTime := Some 3000,
            p_damageBoost := True, p_damageBoostExpireTime := Some 3000\<rparr>"

definition speedPowerUp :: "real \<Rightarrow> powerUp" where
  "speedPowerUp n =
     \<lparr>pu_id = Fin n, pu_type = SPEED, pu_uiType = type_name SPEED, pu_x = Fin 100,
      pu_y = Fin 100, pu_createdAt = 1000\<rparr>"

definition boostRoom :: game where
  "boostRoom = (sampleRoom [(''a'', boostedTank)] [])\<lparr>g_powerUps := [speedPowerUp 1, speedPowerUp 2]\<rparr>"

text \<open>
  A join that names \<open>constructor\<close>, the server after it, and the server after the host
  of the sample room has left.
\<close>

definition protoJoin :: joinData where
  "protoJoin = \<lparr>jd_serverId = Some ''constructor'', jd_name = Some ''Ada''\<rparr>"

definition protoServer :: server where
  "protoServer = step (Join ''s1'' (Some protoJoin) 1000 sampleJoinDraw) initServer"

definition departedServer :: server where
  "departedServer = step (Disconnect ''s1'' 2000) hostedServer"


section \<open>Properties of the numbers\<close>

lemma pow2_powr: "pow2 k = 2 powr (of_int k)"
proof (cases "0 \<le> k")
  case True
  then have "2 powr (of_int k) = (2::real) powr (real (nat k))" by simp
  also have "\<dots> = 2 ^ nat k" by (simp add: powr_realpow)
  finally show ?thesis using True by (simp add: pow2_def)
next
  case False
  then have "2 powr (of_int k) = (2::real) powr (- real (nat (- k)))" by simp
  also have "\<dots> = 1 / 2 ^ nat (- k)" by (simp add: powr_minus powr_realpow divide_inverse)
  finally show ?thesis using False by (simp add: pow2_def)
qed

lemma pow2_pos [simp]: "0 < pow2 k" by (simp add: pow2_powr)

lemma pow2_add: "pow2 (a + b) = pow2 a * pow2 b" by (simp add: pow2_powr powr_add)

lemma pow2_mono: "a \<le> b \<Longrightarrow> pow2 a \<le> pow2 b" by (simp add: pow2_powr)

lemma pow2_nat: "0 \<le> k \<Longrightarrow> pow2 k = 2 ^ nat k" by (simp add: pow2_def)

lemma pow2_Ints: "0 \<le> k \<Longrightarrow> pow2 k \<in> \<int>" by (simp add: pow2_def)

lemma rne_int [simp]: "rne (of_int n) = n" by (simp add: rne_def)

lemma rne_Ints: "q \<in> \<int> \<Longrightarrow> of_int (rne q) = q" by (auto elim!: Ints_cases)

lemma rne_le: "q \<le> of_int m \<Longrightarrow> rne q \<le> m"
proof -
  assume a: "q \<le> of_int m"
  show ?thesis
  proof (cases "q = of_int m")
    case True then show ?thesis by simp
  next
    case False
    then have "q < of_int m" using a by simp
    then have "\<lfloor>q\<rfloor> < m" by (simp add: floor_less_iff)
    then have "\<lfloor>q\<rfloor> + 1 \<le> m" by simp
    then show ?thesis by (simp add: rne_def Let_def)
  qed
qed

lemma rne_ge: "of_int m \<le> q \<Longrightarrow> m \<le> rne q"
proof -
  assume a: "of_int m \<le> q"
  then have "m \<le> \<lfloor>q\<rfloor>" by (simp add: le_floor_iff)
  then show ?thesis by (simp add: rne_def Let_def)
qed

lemma rne_eval: "of_int n - 1 / 2 < q \<Longrightarrow> q < of_int n + 1 / 2 \<Longrightarrow> rne q = n"
proof -
  assume a: "of_int n - 1 / 2 < q" and b: "q < of_int n + 1 / 2"
  show ?thesis
  proof (cases "of_int n \<le> q")
    case True
    then have f: "\<lfloor>q\<rfloor> = n" using b by (intro floor_unique) auto
    then show ?thesis using b by (simp add: rne_def Let_def)
  next
    case False
    then have f: "\<lfloor>q\<rfloor> = n - 1" using a by (intro floor_unique) auto
    then show ?thesis using a by (simp add: rne_def Let_def)
  qed
qed

lemma floor_log2: "0 < x \<Longrightarrow> pow2 k \<le> x \<Longrightarrow> x < pow2 (k + 1) \<Longrightarrow> \<lfloor>log 2 x\<rfloor> = k"
proof -
  assume p: "0 < x" and a: "pow2 k \<le> x" and b: "x < pow2 (k + 1)"
  have "of_int k \<le> log 2 x" using a p by (simp add: pow2_powr le_log_iff)
  moreover have "log 2 x < of_int k + 1" using b p by (simp add: pow2_powr log_less_iff add.commute)
  ultimately show ?thesis by (intro floor_unique) auto
qed

lemma expo_eval: "x \<noteq> 0 \<Longrightarrow> pow2 k \<le> \<bar>x\<bar> \<Longrightarrow> \<bar>x\<bar> < pow2 (k + 1) \<Longrightarrow> - 1022 \<le> k \<Longrightarrow> expo x = k"
  by (simp add: expo_def floor_log2)

lemma rnd_eval:
  assumes "x \<noteq> 0" "pow2 k \<le> \<bar>x\<bar>" "\<bar>x\<bar> < pow2 (k + 1)" "- 1022 \<le> k" "k \<le> 1022"
    and "of_int n - 1 / 2 < x / pow2 (k - 52)" "x / pow2 (k - 52) < of_int n + 1 / 2"
    and "\<bar>of_int n * pow2 (k - 52)\<bar> < pow2 1024"
  shows "rnd x = Fin (of_int n * pow2 (k - 52))"
proof -
  have e: "expo x = k" using assms by (intro expo_eval) auto
  have r: "rne (x / pow2 (k - 52)) = n" using assms by (intro rne_eval) auto
  show ?thesis using assms(1,8) by (simp add: rnd_def ulp_def e r Let_def)
qed

lemma expo_big:
  assumes "x \<noteq> 0" "- 1022 < expo x"
  shows "pow2 (expo x) \<le> \<bar>x\<bar>"
proof -
  have e: "expo x = \<lfloor>log 2 \<bar>x\<bar>\<rfloor>" using assms(2) by (simp add: expo_def max_def split: if_splits)
  have "of_int (expo x) \<le> log 2 \<bar>x\<bar>" unfolding e by simp
  then show ?thesis using assms(1) by (simp add: pow2_powr le_log_iff)
qed

lemma ulp_coarse:
  assumes "x \<noteq> 0" "j < expo x - 52" "- 1074 \<le> j"
  shows "pow2 (j + 53) \<le> \<bar>x\<bar>"
proof -
  have "pow2 (j + 53) \<le> pow2 (expo x)" using assms(2) by (intro pow2_mono) simp
  also have "\<dots> \<le> \<bar>x\<bar>" using assms by (intro expo_big) auto
  finally show ?thesis .
qed

lemma pow2_numeral: "pow2 (numeral w) = 2 ^ numeral w"
  by (simp add: pow2_def)

lemma pow2_53: "pow2 (j + 53) = 2 ^ 53 * pow2 j"
  using pow2_add [of 53 j] by (simp add: add.commute pow2_numeral)

lemma pow2_52: "pow2 (k + 52) = 2 ^ 52 * pow2 k"
  using pow2_add [of 52 k] by (simp add: add.commute pow2_numeral)

lemma pow2_diff: "pow2 j / pow2 k = pow2 (j - k)"
  by (simp add: pow2_powr powr_diff)

lemma rnd_upper:
  assumes "0 < x" "x \<le> of_int n * pow2 j" "n < 2 ^ 53" "- 1074 \<le> j"
    and "of_int n * pow2 j < pow2 1024"
  shows "\<exists>r. rnd x = Fin r \<and> 0 \<le> r \<and> r \<le> of_int n * pow2 j"
proof -
  define k where "k = expo x - 52"
  define u where "u = pow2 k"
  have u: "0 < u" "ulp x = u" by (simp_all add: u_def k_def ulp_def)
  have kj: "k \<le> j"
  proof (rule ccontr)
    assume "\<not> k \<le> j"
    then have "pow2 (j + 53) \<le> \<bar>x\<bar>" using assms(1,4) by (intro ulp_coarse) (auto simp: k_def)
    then have "2 ^ 53 * pow2 j \<le> x" using assms(1) by (simp add: pow2_53)
    moreover have "real_of_int n < 2 ^ 53" using assms(3) by simp
    then have "of_int n * pow2 j < 2 ^ 53 * pow2 j" by (intro mult_strict_right_mono) simp_all
    ultimately show False using assms(2) by linarith
  qed
  define m where "m = n * 2 ^ nat (j - k)"
  have m: "of_int m * u = of_int n * pow2 j"
  proof -
    have "pow2 j = pow2 (j - k) * pow2 k" by (simp add: pow2_add [symmetric])
    then show ?thesis using kj by (simp add: m_def u_def pow2_nat)
  qed
  have q: "x / u \<le> of_int m" using assms(2) u(1) m by (simp add: pos_divide_le_eq)
  have r1: "rne (x / u) \<le> m" using q by (rule rne_le)
  have r0: "0 \<le> rne (x / u)" using assms(1) u(1) by (intro rne_ge) simp
  define r where "r = of_int (rne (x / u)) * u"
  have rb: "0 \<le> r" "r \<le> of_int n * pow2 j"
  proof -
    show "0 \<le> r" using r0 u(1) by (simp add: r_def)
    have "r \<le> of_int m * u" unfolding r_def using r1 u(1) by (intro mult_right_mono) auto
    then show "r \<le> of_int n * pow2 j" by (simp add: m)
  qed
  have "rnd x = Fin r" using assms(1,5) rb by (simp add: rnd_def u(2) Let_def r_def [symmetric])
  then show ?thesis using rb by blast
qed

lemma rnd_lower:
  assumes "0 < of_int n * pow2 j" "of_int n * pow2 j \<le> x" "n < 2 ^ 53" "- 1074 \<le> j"
  shows "rnd x = PInf \<or> (\<exists>r. rnd x = Fin r \<and> of_int n * pow2 j \<le> r)"
proof -
  define k where "k = expo x - 52"
  define u where "u = pow2 k"
  have x: "0 < x" using assms(1,2) by simp
  have u: "0 < u" "ulp x = u" by (simp_all add: u_def k_def ulp_def)
  define r where "r = of_int (rne (x / u)) * u"
  have rb: "of_int n * pow2 j \<le> r"
  proof (cases "k \<le> j")
    case True
    define m where "m = n * 2 ^ nat (j - k)"
    have m: "of_int m * u = of_int n * pow2 j"
    proof -
      have "pow2 j = pow2 (j - k) * pow2 k" by (simp add: pow2_add [symmetric])
      then show ?thesis using True by (simp add: m_def u_def pow2_nat)
    qed
    have q: "of_int m \<le> x / u" using assms(2) u(1) m by (simp add: pos_le_divide_eq)
    have "m \<le> rne (x / u)" using q by (rule rne_ge)
    then have "of_int m * u \<le> r" unfolding r_def using u(1) by (intro mult_right_mono) auto
    then show ?thesis by (simp add: m)
  next
    case False
    then have kj: "j + 53 \<le> k + 52" by simp
    have "- 1022 < expo x" using False assms(4) by (simp add: k_def)
    then have "pow2 (expo x) \<le> \<bar>x\<bar>" using x by (intro expo_big) auto
    then have "pow2 (k + 52) \<le> x" using x by (simp add: k_def)
    then have "2 ^ 52 * u \<le> x" by (simp add: pow2_52 u_def)
    then have "of_int (2 ^ 52) \<le> x / u" using u(1) by (simp add: pos_le_divide_eq)
    then have "2 ^ 52 \<le> rne (x / u)" by (rule rne_ge)
    then have "of_int (2 ^ 52) * u \<le> r" unfolding r_def using u(1) by (intro mult_right_mono) auto
    then have "pow2 (k + 52) \<le> r" by (simp add: pow2_52 u_def)
    moreover have "pow2 (j + 53) \<le> pow2 (k + 52)" using kj by (rule pow2_mono)
    moreover have "real_of_int n \<le> 2 ^ 53" using assms(3) by simp
    then have "of_int n * pow2 j \<le> 2 ^ 53 * pow2 j"
      by (intro mult_right_mono) (simp_all add: less_imp_le)
    ultimately show ?thesis unfolding pow2_53 by linarith
  qed
  have "0 < r" using rb assms(1) by simp
  then show ?thesis using x rb by (simp add: rnd_def u(2) Let_def r_def [symmetric])
qed

lemma pow2_0 [simp]: "pow2 0 = 1" by (simp add: pow2_def)

lemma pow2_1 [simp]: "pow2 1 = 2" "pow2 (- 1) = 1 / 2" by (simp_all add: pow2_def)

lemma pow2_neg_numeral: "pow2 (- numeral w) = 1 / 2 ^ numeral w"
  by (simp add: pow2_def)

lemma rne_minus: "rne (- q) = - rne q"
proof (cases "q \<in> \<int>")
  case True
  then obtain n where "q = of_int n" by (auto elim: Ints_cases)
  then have "- q = of_int (- n)" by simp
  then show ?thesis using \<open>q = of_int n\<close> by (simp only: rne_int)
next
  case False
  define f where "f = \<lfloor>q\<rfloor>"
  define d where "d = q - of_int f"
  have d: "0 < d" "d < 1"
  proof -
    have "of_int f \<noteq> q" using False by (metis Ints_of_int)
    moreover have "of_int f \<le> q" by (simp add: f_def)
    ultimately show "0 < d" by (simp add: d_def)
    show "d < 1" unfolding d_def f_def by linarith
  qed
  have nf: "\<lfloor>- q\<rfloor> = - f - 1" using d by (intro floor_unique) (auto simp: d_def)
  have e: "- q - of_int (- f - 1) = 1 - d" by (simp add: d_def)
  have r1: "rne q = (if d < 1 / 2 then f else if 1 / 2 < d then f + 1 else if even f then f else f + 1)"
    by (simp add: rne_def Let_def f_def d_def)
  have r2: "rne (- q) = (if 1 - d < 1 / 2 then - f - 1 else if 1 / 2 < 1 - d then - f
                         else if even (- f - 1) then - f - 1 else - f)"
    unfolding rne_def Let_def nf e by simp
  show ?thesis unfolding r1 r2 using d by auto
qed

lemma expo_minus [simp]: "expo (- x) = expo x" by (simp add: expo_def)

lemma ulp_minus [simp]: "ulp (- x) = ulp x" by (simp add: ulp_def)

lemma rnd_minus: "rnd (- x) = - rnd x"
  by (simp add: rnd_def Let_def rne_minus)

lemma rnd_0 [simp]: "rnd 0 = Fin 0" by (simp add: rnd_def)

text \<open>A double: an integer below \<open>2 ^ 53\<close> in magnitude times a power of two not below \<open>2 ^ - 1074\<close>.\<close>

lemma rnd_fixed_pos:
  assumes "0 < of_int n * pow2 j" "n < 2 ^ 53" "- 1074 \<le> j" "of_int n * pow2 j < pow2 1024"
  shows "rnd (of_int n * pow2 j) = Fin (of_int n * pow2 j)"
proof -
  from rnd_upper [OF assms(1) order_refl assms(2,3,4)]
  obtain r where r: "rnd (of_int n * pow2 j) = Fin r" "r \<le> of_int n * pow2 j" by blast
  from rnd_lower [OF assms(1) order_refl assms(2,3)] r
  have "of_int n * pow2 j \<le> r" by auto
  then show ?thesis using r by simp
qed

lemma rnd_fixed:
  assumes "\<bar>n\<bar> < 2 ^ 53" "- 1074 \<le> j" "\<bar>of_int n\<bar> * pow2 j < pow2 1024"
  shows "rnd (of_int n * pow2 j) = Fin (of_int n * pow2 j)"
proof -
  consider "n = 0" | "0 < n" | "n < 0" by linarith
  then show ?thesis
  proof cases
    case 1 then show ?thesis by simp
  next
    case 2
    then have "0 < real_of_int n * pow2 j" by simp
    moreover have "real_of_int n * pow2 j < pow2 1024" using assms(3) 2 by simp
    ultimately show ?thesis using assms(1,2) 2 by (intro rnd_fixed_pos) simp_all
  next
    case 3
    then have "0 < real_of_int (- n) * pow2 j" by (simp add: mult_neg_pos)
    moreover have "real_of_int (- n) * pow2 j < pow2 1024" using assms(3) 3 by simp
    ultimately have "rnd (of_int (- n) * pow2 j) = Fin (of_int (- n) * pow2 j)"
      using assms(1,2) 3 by (intro rnd_fixed_pos) simp_all
    then have "- rnd (of_int n * pow2 j) = Fin (- (of_int n * pow2 j))"
      using rnd_minus [of "of_int n * pow2 j"] by simp
    then show ?thesis by (cases "rnd (of_int n * pow2 j)") simp_all
  qed
qed

lemma rnd_Ints: "x \<in> \<int> \<Longrightarrow> \<bar>x\<bar> < 2 ^ 53 \<Longrightarrow> rnd x = Fin x"
proof -
  assume "x \<in> \<int>" and b: "\<bar>x\<bar> < 2 ^ 53"
  then obtain n where n: "x = of_int n" by (auto elim: Ints_cases)
  have "(2::real) ^ 53 \<le> 2 ^ 1024" by (intro power_increasing) simp_all
  then have "\<bar>real_of_int n\<bar> * pow2 0 < pow2 1024" using b unfolding n pow2_numeral by simp
  then show ?thesis using rnd_fixed [of n 0] b by (simp add: n)
qed


text \<open>Arithmetic on finite values.\<close>

lemma Fin_plus: "Fin x + Fin y = rnd (x + y)"
  by simp

lemma Fin_minus: "Fin x - Fin y = rnd (x - y)"
  by (simp add: minus_num_def)

lemma Fin_times: "Fin x * Fin y = rnd (x * y)"
  by simp

lemma Fin_divide: "y \<noteq> 0 \<Longrightarrow> Fin x / Fin y = rnd (x / y)"
  by simp

lemmas Fin_arith = Fin_plus Fin_minus Fin_times Fin_divide

lemmas special_arith = plus_num.simps times_num.simps divide_num.simps

lemma Fin_le [simp]: "Fin x \<le> Fin y \<longleftrightarrow> x \<le> y"
  by (auto simp: less_eq_num_def)

lemma NaN_less [simp]: "\<not> NaN < a" "\<not> a < NaN"
proof -
  show "\<not> NaN < a" by simp
  show "\<not> a < NaN" by (cases a) simp_all
qed

lemma NaN_le [simp]: "\<not> NaN \<le> a" "\<not> a \<le> NaN"
  by (simp_all add: less_eq_num_def)

lemma NaN_arith [simp]:
  "NaN + a = NaN" "a + NaN = NaN" "NaN - a = NaN" "a - NaN = NaN"
  "NaN * a = NaN" "a * NaN = NaN" "NaN / a = NaN" "a / NaN = NaN"
  by (cases a; simp add: minus_num_def)+

declare plus_num.simps [simp del] times_num.simps [simp del] divide_num.simps [simp del]

lemma infinite_arith:
  "Fin x * PInf = (if x = 0 then NaN else if 0 < x then PInf else NInf)"
  "Fin x * NInf = (if x = 0 then NaN else if 0 < x then NInf else PInf)"
  "PInf * Fin y = (if y = 0 then NaN else if 0 < y then PInf else NInf)"
  "NInf * Fin y = (if y = 0 then NaN else if 0 < y then NInf else PInf)"
  "Fin x + PInf = PInf" "PInf + Fin y = PInf" "Fin x + NInf = NInf" "NInf + Fin y = NInf"
  by (simp_all add: special_arith)

lemma js_max_Fin [simp]: "js_max (Fin x) (Fin y) = Fin (max x y)"
  by (simp add: js_max_def max_def)

lemma js_min_Fin [simp]: "js_min (Fin x) (Fin y) = Fin (min x y)"
  by (simp add: js_min_def min_def)

lemma js_max_NaN [simp]: "js_max a NaN = NaN" "js_max NaN a = NaN"
  by (simp_all add: js_max_def)

lemma js_min_NaN [simp]: "js_min a NaN = NaN" "js_min NaN a = NaN"
  by (simp_all add: js_min_def)

lemma num_of_int_small: "\<bar>n\<bar> < 2 ^ 53 \<Longrightarrow> num_of_int n = Fin (of_int n)"
  unfolding num_of_int_def by (rule rnd_Ints) simp_all

text \<open>The doubles that the step of \<open>1 / 60\<close> s and the normalisation of a diagonal produce.\<close>

lemma Fin_ints:
  "x \<in> \<int> \<Longrightarrow> y \<in> \<int> \<Longrightarrow> \<bar>x + y\<bar> < 2 ^ 53 \<Longrightarrow> Fin x + Fin y = Fin (x + y)"
  "x \<in> \<int> \<Longrightarrow> y \<in> \<int> \<Longrightarrow> \<bar>x - y\<bar> < 2 ^ 53 \<Longrightarrow> Fin x - Fin y = Fin (x - y)"
  "x \<in> \<int> \<Longrightarrow> y \<in> \<int> \<Longrightarrow> \<bar>x * y\<bar> < 2 ^ 53 \<Longrightarrow> Fin x * Fin y = Fin (x * y)"
  by (simp_all add: Fin_arith rnd_Ints)

lemma Fin_zero_times [simp]: "Fin 0 * Fin y = Fin 0" "Fin x * Fin 0 = Fin 0"
  by (simp_all add: Fin_arith)

lemma rnd_1 [simp]: "rnd 1 = Fin 1"
  by (simp add: rnd_Ints)

lemma dt60: "Fin 1 / Fin 60 = Fin (4803839602528529 / 288230376151711744)"
  using rnd_eval [of "1 / 60" "- 6" 4803839602528529]
  by (simp add: Fin_arith pow2_neg_numeral pow2_numeral)

lemma accel60: "Fin 600 * Fin (4803839602528529 / 288230376151711744) = Fin 10"
  using rnd_eval [of "600 * (4803839602528529 / 2 ^ 58)" 3 5629499534213120]
  by (simp add: Fin_arith pow2_neg_numeral pow2_numeral)

lemma decel60: "Fin 900 * Fin (4803839602528529 / 288230376151711744) = Fin 15"
  using rnd_eval [of "900 * (4803839602528529 / 2 ^ 58)" 3 8444249301319680]
  by (simp add: Fin_arith pow2_neg_numeral pow2_numeral)

lemma bullet60: "Fin 300 * Fin (4803839602528529 / 288230376151711744) = Fin 5"
  using rnd_eval [of "300 * (4803839602528529 / 2 ^ 58)" 2 5629499534213120]
  by (simp add: Fin_arith pow2_neg_numeral pow2_numeral)

lemma step10: "Fin 10 * Fin (4803839602528529 / 288230376151711744) = Fin (6004799503160661 / 36028797018963968)"
  using rnd_eval [of "10 * (4803839602528529 / 2 ^ 58)" "- 3" 6004799503160661]
  by (simp add: Fin_arith pow2_neg_numeral pow2_numeral)

lemma x500_step: "Fin 500 + Fin (6004799503160661 / 36028797018963968) = Fin (8799025053215403 / 17592186044416)"
  using rnd_eval [of "500 + 6004799503160661 / 2 ^ 55" 8 8799025053215403]
  by (simp add: Fin_arith pow2_neg_numeral pow2_numeral)

lemma y360_step: "Fin 360 + Fin (6004799503160661 / 36028797018963968) = Fin (6336119006997163 / 17592186044416)"
  using rnd_eval [of "360 + 6004799503160661 / 2 ^ 55" 8 6336119006997163]
  by (simp add: Fin_arith pow2_neg_numeral pow2_numeral)

text \<open>\<open>Math.sqrt(2)\<close>, \<open>1 / Math.sqrt(2)\<close>, and that times 60 and times 120.\<close>

lemma sqrt2_double: "rnd (sqrt 2) = Fin (6369051672525773 / 4503599627370496)"
proof -
  have l: "(1::real) \<le> sqrt 2" by (rule real_le_rsqrt) simp
  have u: "sqrt 2 < (2::real)" by (rule real_less_lsqrt) simp_all
  have a: "(6369051672525773 - 1 / 2) / 2 ^ 52 < sqrt (2::real)"
    by (rule real_less_rsqrt) (simp add: power2_eq_square)
  have b: "sqrt (2::real) < (6369051672525773 + 1 / 2) / 2 ^ 52"
    by (rule real_less_lsqrt) (simp_all add: power2_eq_square)
  show ?thesis
    using rnd_eval [of "sqrt 2" 0 6369051672525773] l u a b
    by (simp add: pow2_neg_numeral pow2_numeral pos_divide_less_eq pos_less_divide_eq)
qed

lemma inv_sqrt2_double:
  "Fin 1 / Fin (6369051672525773 / 4503599627370496) = Fin (1592262918131443 / 2251799813685248)"
  using rnd_eval [of "1 / (6369051672525773 / 2 ^ 52)" "- 1" 6369051672525772]
  by (simp add: Fin_arith pow2_neg_numeral pow2_numeral)

lemma diag60: "Fin (1592262918131443 / 2251799813685248) * Fin 60 = Fin (5970985942992911 / 140737488355328)"
  using rnd_eval [of "1592262918131443 / 2 ^ 51 * 60" 5 5970985942992911]
  by (simp add: Fin_arith pow2_neg_numeral pow2_numeral)

lemma diag120: "Fin (1592262918131443 / 2251799813685248) * Fin 120 = Fin (5970985942992911 / 70368744177664)"
  using rnd_eval [of "1592262918131443 / 2 ^ 51 * 120" 6 5970985942992911]
  by (simp add: Fin_arith pow2_neg_numeral pow2_numeral)

lemma diag60_fixed: "rnd (5970985942992911 / 140737488355328) = Fin (5970985942992911 / 140737488355328)"
  using rnd_fixed [of 5970985942992911 "- 47"] by (simp add: pow2_neg_numeral pow2_numeral)

lemma diag120_fixed: "rnd (5970985942992911 / 70368744177664) = Fin (5970985942992911 / 70368744177664)"
  using rnd_fixed [of 5970985942992911 "- 46"] by (simp add: pow2_neg_numeral pow2_numeral)

lemma maxSpeed_value: "maxSpeed sb = Fin (if sb then 120 else 60)"
  by (simp add: maxSpeed_def TANK_MAX_SPEED_def SPEED_multiplier_def Fin_ints)


subsection \<open>Every reachable room is well formed\<close>

text \<open>Players.\<close>

lemma applyInput_hp [simp]: "p_hp (applyInput p inp) = p_hp p" "p_dead (applyInput p inp) = p_dead p"
  by (simp_all add: applyInput_def split: option.splits prod.splits)

lemma player_ok_applyInput [simp]: "player_ok (applyInput p inp) = player_ok p"
  by (simp add: player_ok_def)

lemma foldl_applyInput_ok:
  "player_ok (foldl (\<lambda>p i. case i of None \<Rightarrow> p | Some inp \<Rightarrow> applyInput p inp) p q) = player_ok p"
  by (induction q arbitrary: p) (simp_all split: option.splits)

lemma player_ok_upd_queue [simp]: "player_ok (p\<lparr>p_inputQueue := q\<rparr>) = player_ok p"
  by (simp add: player_ok_def)

lemma player_ok_drainInputs [simp]: "player_ok (drainInputs p) = player_ok p"
  by (simp add: drainInputs_def foldl_applyInput_ok)

lemma player_ok_respawn: "player_ok p \<Longrightarrow> player_ok (respawn now d p)"
  by (simp add: respawn_def player_ok_def MAX_HP_def)

lemma player_ok_expireEffects [simp]: "player_ok (expireEffects now p) = player_ok p"
  by (simp add: expireEffects_def player_ok_def Let_def)

lemma player_ok_powerUpEffect: "player_ok p \<Longrightarrow> player_ok (powerUpEffect now t p)"
  by (cases t) (auto simp: player_ok_def MAX_HP_def HEALTH_PACK_value_def)

lemma boosted_damage: "floor_int (num_of_int BULLET_DAMAGE * DAMAGE_BOOST_multiplier) = 30"
  by (simp add: BULLET_DAMAGE_def DAMAGE_BOOST_multiplier_def num_of_int_small Fin_arith rnd_Ints
      floor_int_def)

lemma hitDamage_nonneg: "0 \<le> hitDamage shooter target"
  by (simp add: hitDamage_def Let_def boosted_damage split: option.splits)
     (simp add: BULLET_DAMAGE_def)

lemma player_ok_damaged: "player_ok p \<Longrightarrow> 0 \<le> d \<Longrightarrow> player_ok (damaged now d p)"
  by (auto simp: damaged_def player_ok_def Let_def)

lemma player_ok_newPlayer [simp]: "player_ok (newPlayer sid x y n c)"
  by (simp add: newPlayer_def player_ok_def MAX_HP_def)


text \<open>Association lists.\<close>

lemma snd_set_update: "snd ` set (AList.update k v al) \<subseteq> insert v (snd ` set al)"
  by (induction al) auto

lemma snd_set_delete: "snd ` set (AList.delete k al) \<subseteq> snd ` set al"
  by (auto simp: AList.delete_eq)

lemma dom_delete: "fst ` set (AList.delete k al) = fst ` set al - {k}"
  by (force simp: AList.delete_eq)

lemma map_of_mem: "map_of al k = Some v \<Longrightarrow> v \<in> snd ` set al"
  by (metis map_of_SomeD snd_conv image_eqI)

lemma findTarget_mem:
  "findTarget b ps = Some (tid, target) \<Longrightarrow>
   (tid, target) \<in> set ps \<and> tid \<noteq> b_owner b \<and> \<not> p_dead target \<and> \<not> p_invulnerable target \<and>
   hitTest b target"
  by (induction ps) (auto split: if_splits)

text \<open>Rooms.\<close>

lemma room_inv_players:
  assumes "room_inv g" and "map fst ps = map fst (g_players g)"
    and "\<forall>p \<in> snd ` set ps. player_ok p"
  shows "room_inv (g\<lparr>g_players := ps\<rparr>)"
proof -
  have "fst ` set ps = fst ` set (g_players g)"
    using assms(2) by (metis list.set_map)
  then show ?thesis using assms by (simp add: room_inv_def)
qed

lemma room_inv_map_players:
  assumes "room_inv g" and "\<And>k p. player_ok p \<Longrightarrow> player_ok (f k p)"
  shows "room_inv (g\<lparr>g_players := map (\<lambda>(k, p). (k, f k p)) (g_players g)\<rparr>)"
proof (rule room_inv_players [OF assms(1)])
  show "map fst (map (\<lambda>(k, p). (k, f k p)) (g_players g)) = map fst (g_players g)"
    by (induction "g_players g") auto
  show "\<forall>p \<in> snd ` set (map (\<lambda>(k, p). (k, f k p)) (g_players g)). player_ok p"
    using assms by (force simp: room_inv_def)
qed

lemma apsnd_as_case: "apsnd f = (\<lambda>(k, p). (k, f p))"
  by (auto simp: fun_eq_iff)

lemma room_inv_apsnd_players:
  assumes "room_inv g" and "\<And>p. player_ok p \<Longrightarrow> player_ok (f p)"
  shows "room_inv (g\<lparr>g_players := map (apsnd f) (g_players g)\<rparr>)"
  unfolding apsnd_as_case using assms by (rule room_inv_map_players)

lemma room_inv_update_player:
  assumes "room_inv g" and "k \<in> fst ` set (g_players g)" and "player_ok p"
  shows "room_inv (g\<lparr>g_players := AList.update k p (g_players g)\<rparr>)"
proof -
  have "\<forall>q \<in> snd ` set (AList.update k p (g_players g)). player_ok q"
  proof
    fix q assume "q \<in> snd ` set (AList.update k p (g_players g))"
    then have "q \<in> insert p (snd ` set (g_players g))"
      using snd_set_update [of k p "g_players g"] by (rule rev_subsetD)
    then show "player_ok q" using assms(1,3) by (auto simp: room_inv_def)
  qed
  moreover have "fst ` set (AList.update k p (g_players g)) = fst ` set (g_players g)"
    using assms(2) by (auto simp: AList.dom_update)
  ultimately show ?thesis
    using assms(1) by (simp add: room_inv_def AList.distinct_update)
qed

lemma room_inv_other_fields [simp]:
  "room_inv (g\<lparr>g_powerUps := pus\<rparr>) = room_inv g"
  "room_inv (g\<lparr>g_chat := ch\<rparr>) = room_inv g"
  "room_inv (g\<lparr>g_cleanupTimer := t\<rparr>) = room_inv g"
  by (simp_all add: room_inv_def)

lemma room_inv_spawnPowerUp [simp]: "room_inv (spawnPowerUp now d g) = room_inv g"
  by (simp add: spawnPowerUp_def Let_def split: option.splits)

lemma room_inv_spawnCheck: "room_inv (fst (spawnCheck now d l g)) = room_inv g"
  by (simp add: spawnCheck_def Let_def)

lemma creditKill_keys: "fst ` set (creditKill owner sc) = fst ` set sc"
  by (auto simp: creditKill_def AList.dom_update split: option.splits dest: map_of_SomeD
      intro: rev_image_eqI)

lemma room_inv_resolveHit:
  assumes "room_inv g" and "findTarget b (g_players g) = Some (tid, target)"
  shows "room_inv (fst (resolveHit now gameId b tid target g))"
proof -
  from findTarget_mem [OF assms(2)] have m: "(tid, target) \<in> set (g_players g)" by simp
  then have k: "tid \<in> fst ` set (g_players g)" by force
  have "player_ok target" using m assms(1) by (force simp: room_inv_def)
  then have ok: "player_ok (damaged now (hitDamage (map_of (g_players g) (b_owner b)) target) target)"
    by (rule player_ok_damaged) (rule hitDamage_nonneg)
  have "room_inv (g\<lparr>g_players := AList.update tid
      (damaged now (hitDamage (map_of (g_players g) (b_owner b)) target) target) (g_players g)\<rparr>)"
    by (rule room_inv_update_player [OF assms(1) k ok])
  then show ?thesis
    by (simp add: resolveHit_def Let_def room_inv_def creditKill_keys)
qed

lemma bounceX_bounces:
  "bounceX gameId b = Some (b', f, ev) \<Longrightarrow> b_bounces b \<le> MAX_BOUNCES \<Longrightarrow> b_bounces b' \<le> MAX_BOUNCES"
  by (auto simp: bounceX_def Let_def split: if_splits)

lemma bounceY_bounces:
  "bounceY gameId b = Some (b', f, ev) \<Longrightarrow> b_bounces b \<le> MAX_BOUNCES \<Longrightarrow> b_bounces b' \<le> MAX_BOUNCES"
  by (auto simp: bounceY_def Let_def split: if_splits)

lemma moveBullet_bounces:
  assumes "fst (moveBullet now gameId b) = Some b'" and "b_bounces b \<le> MAX_BOUNCES"
  shows "b_bounces b' \<le> MAX_BOUNCES"
proof -
  let ?b1 = "b\<lparr>b_x := b_x b + b_vx b, b_y := b_y b + b_vy b\<rparr>"
  from assms(1) obtain b2 fx e1 b3 fy e2 where
    x: "bounceX gameId ?b1 = Some (b2, fx, e1)" and y: "bounceY gameId b2 = Some (b3, fy, e2)"
    and r: "b' = (if fx \<or> fy then b3\<lparr>b_angle := js_atan2 (b_vy b3) (b_vx b3)\<rparr> else b3)"
    by (auto simp: moveBullet_def Let_def split: option.splits if_splits)
  have "b_bounces b2 \<le> MAX_BOUNCES" using bounceX_bounces [OF x] assms(2) by simp
  then have "b_bounces b3 \<le> MAX_BOUNCES" by (rule bounceY_bounces [OF y])
  then show ?thesis using r by simp
qed

lemma stepBullet_inv:
  assumes "room_inv g" and "b_bounces b \<le> MAX_BOUNCES"
  shows "room_inv (fst (snd (stepBullet now gameId b g))) \<and>
         (\<forall>b'. fst (stepBullet now gameId b g) = Some b' \<longrightarrow> b_bounces b' \<le> MAX_BOUNCES)"
proof (cases "findTarget b (g_players g)")
  case None
  then show ?thesis
    using assms moveBullet_bounces [of now gameId b]
    by (auto simp: stepBullet_def split: prod.splits)
next
  case (Some a)
  then obtain tid target where "findTarget b (g_players g) = Some (tid, target)"
    by (cases a) simp
  then show ?thesis
    using room_inv_resolveHit [OF assms(1), of b tid target now gameId]
    by (simp add: stepBullet_def split: prod.splits)
qed

lemma bulletPass_inv:
  assumes "room_inv g" and "\<forall>b \<in> set bs. b_bounces b \<le> MAX_BOUNCES"
  shows "room_inv (fst (snd (bulletPass now gameId bs g))) \<and>
         (\<forall>b \<in> set (fst (bulletPass now gameId bs g)). b_bounces b \<le> MAX_BOUNCES)"
  using assms
proof (induction bs)
  case Nil
  then show ?case by simp
next
  case (Cons b bs)
  obtain bs' g1 ev1 where r: "bulletPass now gameId bs g = (bs', g1, ev1)"
    by (metis prod_cases3)
  obtain b' g2 ev2 where t: "stepBullet now gameId b g1 = (b', g2, ev2)"
    by (metis prod_cases3)
  from Cons r have i: "room_inv g1" "\<forall>b \<in> set bs'. b_bounces b \<le> MAX_BOUNCES" by simp_all
  from Cons.prems have "b_bounces b \<le> MAX_BOUNCES" by simp
  from stepBullet_inv [OF i(1) this, of now gameId] t
  have "room_inv g2" "\<forall>x. b' = Some x \<longrightarrow> b_bounces x \<le> MAX_BOUNCES" by simp_all
  then show ?case using r t i by (auto split: option.splits)
qed

lemma room_inv_bullets:
  "room_inv g \<Longrightarrow> \<forall>b \<in> set bs. b_bounces b \<le> MAX_BOUNCES \<Longrightarrow> room_inv (g\<lparr>g_bullets := bs\<rparr>)"
  by (simp add: room_inv_def)

lemma room_inv_collisionPass:
  assumes "room_inv g"
  shows "room_inv (fst (collisionPass now gameId g))"
proof -
  have "\<forall>b \<in> set (g_bullets g). b_bounces b \<le> MAX_BOUNCES"
    using assms by (simp add: room_inv_def)
  from bulletPass_inv [OF assms this, of now gameId]
  obtain bs g' ev where "bulletPass now gameId (g_bullets g) g = (bs, g', ev)"
    and "room_inv g'" and "\<forall>b \<in> set bs. b_bounces b \<le> MAX_BOUNCES"
    by (cases "bulletPass now gameId (g_bullets g) g") auto
  then show ?thesis by (simp add: collisionPass_def room_inv_bullets)
qed

lemma room_inv_applyPowerUp: "room_inv g \<Longrightarrow> room_inv (applyPowerUp now k t g)"
proof -
  assume a: "room_inv g"
  show ?thesis
  proof (cases "map_of (g_players g) k")
    case None
    then show ?thesis using a by (simp add: applyPowerUp_def)
  next
    case (Some p)
    then have "(k, p) \<in> set (g_players g)" by (rule map_of_SomeD)
    then have "k \<in> fst ` set (g_players g)" "player_ok p"
      using a by (force simp: room_inv_def)+
    then show ?thesis
      using a Some by (simp add: applyPowerUp_def room_inv_update_player player_ok_powerUpEffect)
  qed
qed

lemma room_inv_powerUpPass:
  "room_inv g \<Longrightarrow> room_inv (snd (powerUpPass now pus g))"
proof (induction pus arbitrary: g)
  case Nil
  then show ?case by simp
next
  case (Cons pu pus)
  have "snd (powerUpPass now (pu # pus) g) = snd (powerUpPass now pus g) \<or>
        (\<exists>k. snd (powerUpPass now (pu # pus) g)
               = snd (powerUpPass now pus (applyPowerUp now k (pu_type pu) g)))"
    by (cases "powerUpPass now pus g") (auto split: option.splits)
  then show ?case
    using Cons.IH [OF Cons.prems] Cons.IH [OF room_inv_applyPowerUp [OF Cons.prems]] by auto
qed

lemma room_inv_collectPowerUps: "room_inv g \<Longrightarrow> room_inv (collectPowerUps now g)"
  using room_inv_powerUpPass [of g now "g_powerUps g"]
  by (cases "powerUpPass now (g_powerUps g) g") (simp add: collectPowerUps_def)

lemma room_inv_tickGame:
  assumes "room_inv g"
  shows "room_inv (fst (tickGame now d gameId l g))"
proof -
  obtain g1 l' where s: "spawnCheck now (td_powerUp d) l g = (g1, l')" by (cases "spawnCheck now (td_powerUp d) l g")
  obtain g2 ev where c: "collisionPass now gameId g1 = (g2, ev)" by (cases "collisionPass now gameId g1")
  have 1: "room_inv g1" using room_inv_spawnCheck [of now "td_powerUp d" l g] s assms by simp
  have 2: "room_inv g2" using room_inv_collisionPass [OF 1, of now gameId] c by simp
  let ?g3 = "g2\<lparr>g_players := map (apsnd drainInputs) (g_players g2)\<rparr>"
  have 3: "room_inv ?g3"
    by (rule room_inv_apsnd_players [OF 2]) simp
  let ?g4 = "?g3\<lparr>g_players := map (\<lambda>(sid, p). (sid, respawn now (td_spawn d sid) p)) (g_players ?g3)\<rparr>"
  have 4: "room_inv ?g4"
    by (rule room_inv_map_players [OF 3]) (rule player_ok_respawn)
  let ?g5 = "collectPowerUps now ?g4"
  have 5: "room_inv ?g5" by (rule room_inv_collectPowerUps [OF 4])
  let ?g6 = "?g5\<lparr>g_players := map (apsnd (expireEffects now)) (g_players ?g5)\<rparr>"
  have 6: "room_inv ?g6"
    by (rule room_inv_apsnd_players [OF 5]) simp
  show ?thesis using 6 by (simp add: tickGame_def s c Let_def)
qed

text \<open>The server.\<close>

lemma lookup_Own: "lookup al k = Own v \<longleftrightarrow> map_of al k = Some v"
  by (simp add: lookup_def split: option.splits)

lemma lookup_cases:
  obtains (own) v where "map_of al k = Some v" "lookup al k = Own v"
    | (inherited) "map_of al k = None" "lookup al k = Inherited"
    | (missing) "map_of al k = None" "lookup al k = Missing"
  by (cases "map_of al k"; cases "k \<in> set inheritedKeys") (auto simp: lookup_def)

lemma socketGame_cases:
  obtains (own) gameId g where "socketGameId s sid = Some gameId" "map_of (games s) gameId = Some g"
      "socketGame sid s = Own (gameId, g)"
    | (inherited) "socketGame sid s = Inherited"
    | (missing) "socketGame sid s = Missing"
proof (cases "socketGameId s sid")
  case None
  then have "socketGame sid s = Missing" by (simp add: socketGame_def)
  then show ?thesis by (rule missing)
next
  case (Some gameId)
  show ?thesis
  proof (cases rule: lookup_cases [of "games s" gameId])
    case (own g)
    then have "socketGame sid s = Own (gameId, g)" using Some by (simp add: socketGame_def)
    then show ?thesis using Some own by (intro that(1))
  next
    case inherited
    then have "socketGame sid s = Inherited" using Some by (simp add: socketGame_def)
    then show ?thesis by (rule that(2))
  next
    case missing
    then have "socketGame sid s = Missing" using Some by (simp add: socketGame_def)
    then show ?thesis by (rule that(3))
  qed
qed

lemma socketGameD:
  "socketGame sid s = Own (gameId, g) \<Longrightarrow>
   socketGameId s sid = Some gameId \<and> map_of (games s) gameId = Some g"
  by (auto simp: socketGame_def lookup_def split: option.splits if_splits)

lemma server_inv_lookup: "server_inv s \<Longrightarrow> map_of (games s) gameId = Some g \<Longrightarrow> room_inv g"
  by (auto simp: server_inv_def dest: map_of_mem)

lemma mem_updateD: "(a, b) \<in> set (AList.update k v al) \<Longrightarrow> b = v \<or> (a, b) \<in> set al"
  by (induction al) (auto split: if_splits)

lemma mem_deleteD: "(a, b) \<in> set (AList.delete k al) \<Longrightarrow> (a, b) \<in> set al"
  by (simp add: AList.delete_eq)

lemma server_inv_setGame: "server_inv s \<Longrightarrow> room_inv g \<Longrightarrow> server_inv (setGame gameId g s)"
  by (auto simp: server_inv_def setGame_def dest: mem_updateD)

lemma server_inv_emit [simp]: "server_inv (emit e s) = server_inv s"
  by (simp add: server_inv_def emit_def)

lemma server_inv_fields [simp]:
  "server_inv (s\<lparr>socketGameId := f\<rparr>) = server_inv s"
  "server_inv (s\<lparr>gameCounter := n\<rparr>) = server_inv s"
  "server_inv (s\<lparr>outbox := ob\<rparr>) = server_inv s"
  "server_inv (s\<lparr>lastPowerUpSpawnTime := l\<rparr>) = server_inv s"
  by (simp_all add: server_inv_def)

text \<open>
  \<open>broadcastPlayerName\<close> only emits; it returns when the room is stored under the key.
\<close>

lemma broadcastPlayerName_state:
  "state_of (broadcastPlayerName gameId sid s) = s \<or>
   (\<exists>e. state_of (broadcastPlayerName gameId sid s) = emit e s)"
  by (cases rule: lookup_cases [of "games s" gameId];
      cases "map_of (g_players (the (map_of (games s) gameId))) sid")
     (auto simp: broadcastPlayerName_def)

lemma broadcastPlayerName_returns:
  "map_of (games s) gameId = Some g \<Longrightarrow>
   \<exists>s'. broadcastPlayerName gameId sid s = Returned s'"
  by (cases "map_of (g_players g) sid") (simp_all add: broadcastPlayerName_def lookup_def)

lemma server_inv_broadcastPlayerName [simp]:
  "server_inv (state_of (broadcastPlayerName gameId sid s)) = server_inv s"
  using broadcastPlayerName_state [of gameId sid s] by auto

lemma room_inv_pushChat [simp]: "room_inv (pushChat msg g) = room_inv g"
  by (simp add: pushChat_def Let_def)

lemma server_inv_pushChatMessage: "server_inv s \<Longrightarrow> server_inv (pushChatMessage gameId msg s)"
proof (cases rule: lookup_cases [of "games s" gameId])
  case (own g)
  assume a: "server_inv s"
  then have "room_inv (pushChat msg g)" using server_inv_lookup [OF a own(1)] by simp
  then show ?thesis using own a by (simp add: pushChatMessage_def server_inv_setGame)
qed (simp_all add: pushChatMessage_def)

lemma room_inv_add_player:
  assumes "room_inv g" and "player_ok p"
  shows "room_inv (g\<lparr>g_players := AList.update sid p (g_players g),
                     g_scores := AList.update sid n (g_scores g)\<rparr>)"
proof -
  have "\<forall>q \<in> snd ` set (AList.update sid p (g_players g)). player_ok q"
  proof
    fix q assume "q \<in> snd ` set (AList.update sid p (g_players g))"
    then have "q \<in> insert p (snd ` set (g_players g))"
      using snd_set_update [of sid p "g_players g"] by (rule rev_subsetD)
    then show "player_ok q" using assms by (auto simp: room_inv_def)
  qed
  then show ?thesis
    using assms(1) by (simp add: room_inv_def AList.distinct_update AList.dom_update)
qed

lemma on_join_cases:
  obtains (error) e where "on_join sid data now d s = Returned (emit e s)"
    | (threw) gameId where "on_join sid data now d s
          = Threw (s\<lparr>socketGameId := (socketGameId s)(sid := Some gameId)\<rparr>)"
    | (joined) gameId g s2 e msg where "map_of (games s) gameId = Some g"
        "broadcastPlayerName gameId sid (joined sid data d gameId g s) = Returned s2"
        "on_join sid data now d s = Returned (emit e (pushChatMessage gameId msg s2))"
proof (cases "case data of None \<Rightarrow> None | Some dt \<Rightarrow> jd_serverId dt")
  case None
  then show ?thesis by (intro error) (simp add: on_join_def)
next
  case (Some gameId)
  show ?thesis
  proof (cases "gameId = []")
    case True
    then show ?thesis using Some by (intro error) (simp add: on_join_def)
  next
    case False
    show ?thesis
    proof (cases rule: lookup_cases [of "games s" gameId])
      case (own g)
      have "map_of (games (joined sid data d gameId g s)) gameId \<noteq> None"
        by (simp add: joined_def Let_def setGame_def update_conv')
      then obtain g' where "map_of (games (joined sid data d gameId g s)) gameId = Some g'"
        by blast
      from broadcastPlayerName_returns [OF this]
      obtain s2 where b: "broadcastPlayerName gameId sid (joined sid data d gameId g s) = Returned s2"
        by blast
      show ?thesis
        by (rule joined [OF own(1) b])
           (use Some False own(2) b in \<open>simp add: on_join_def Let_def\<close>)
    next
      case inherited
      then show ?thesis using Some False by (intro threw) (simp add: on_join_def)
    next
      case missing
      then show ?thesis using Some False by (intro error) (simp add: on_join_def)
    qed
  qed
qed

lemma server_inv_joined:
  "server_inv s \<Longrightarrow> map_of (games s) gameId = Some g \<Longrightarrow>
   server_inv (joined sid data d gameId g s)"
proof -
  assume a: "server_inv s" and g: "map_of (games s) gameId = Some g"
  have "room_inv (g\<lparr>g_cleanupTimer := False\<rparr>)" using server_inv_lookup [OF a g] by simp
  from room_inv_add_player [OF this, of _ sid 0]
  show ?thesis using a by (simp add: joined_def Let_def server_inv_setGame)
qed

lemma server_inv_on_join: "server_inv s \<Longrightarrow> server_inv (state_of (on_join sid data now d s))"
proof (cases rule: on_join_cases [of sid data now d s])
  case (joined gameId g s2 e msg)
  assume a: "server_inv s"
  have "server_inv (state_of (broadcastPlayerName gameId sid (joined sid data d gameId g s)))"
    using server_inv_joined [OF a joined(1)] by simp
  then have "server_inv s2" unfolding joined(2) by simp
  then show ?thesis by (simp add: joined(3) server_inv_pushChatMessage)
qed simp_all

lemma room_inv_set_player:
  assumes "room_inv g" and "map_of (g_players g) sid = Some p" and "player_ok p \<Longrightarrow> player_ok p'"
  shows "room_inv (g\<lparr>g_players := AList.update sid p' (g_players g)\<rparr>)"
proof -
  from assms(2) have "(sid, p) \<in> set (g_players g)" by (rule map_of_SomeD)
  then have "sid \<in> fst ` set (g_players g)" "player_ok p"
    using assms(1) by (force simp: room_inv_def)+
  then show ?thesis using assms by (simp add: room_inv_update_player)
qed

lemma server_inv_on_input: "server_inv s \<Longrightarrow> server_inv (state_of (on_input sid inputs s))"
proof (cases rule: socketGame_cases [of s sid])
  case (own gameId g)
  assume a: "server_inv s"
  have r: "room_inv g" using server_inv_lookup [OF a own(2)] .
  show ?thesis
  proof (cases "map_of (g_players g) sid")
    case None
    then show ?thesis using a own by (simp add: on_input_def)
  next
    case (Some p)
    have "\<And>q. room_inv (g\<lparr>g_players := AList.update sid (p\<lparr>p_inputQueue := q\<rparr>) (g_players g)\<rparr>)"
      by (rule room_inv_set_player [OF r Some]) simp
    then show ?thesis
      using a own Some by (cases inputs) (simp_all add: on_input_def Let_def server_inv_setGame)
  qed
qed (simp_all add: on_input_def)

lemma player_ok_lastShot [simp]: "player_ok (p\<lparr>p_lastShotTime := t\<rparr>) = player_ok p"
  by (simp add: player_ok_def)

lemma room_inv_add_bullets:
  "room_inv g \<Longrightarrow> \<forall>b \<in> set bs. b_bounces b \<le> MAX_BOUNCES \<Longrightarrow>
   room_inv (g\<lparr>g_bullets := g_bullets g @ bs\<rparr>)"
  by (auto simp: room_inv_def)

lemma newBullet_bounces [simp]: "b_bounces (newBullet p sid now a) = 0"
  by (simp add: newBullet_def Let_def)

lemma server_inv_on_shoot: "server_inv s \<Longrightarrow> server_inv (state_of (on_shoot sid angle now s))"
proof (cases rule: socketGame_cases [of s sid])
  case (own gameId g)
  assume a: "server_inv s"
  have r: "room_inv g" using server_inv_lookup [OF a own(2)] .
  show ?thesis
  proof (cases "map_of (g_players g) sid")
    case None
    then show ?thesis using a own by (simp add: on_shoot_def)
  next
    case p: (Some p)
    have "room_inv (g\<lparr>g_players := AList.update sid (p\<lparr>p_lastShotTime := now\<rparr>) (g_players g)\<rparr>)"
      by (rule room_inv_set_player [OF r p]) simp
    from room_inv_add_bullets [OF this]
    have "\<And>bs. \<forall>b \<in> set bs. b_bounces b \<le> MAX_BOUNCES \<Longrightarrow>
        room_inv (g\<lparr>g_bullets := g_bullets g @ bs,
          g_players := AList.update sid (p\<lparr>p_lastShotTime := now\<rparr>) (g_players g)\<rparr>)"
      by (simp add: room_inv_def)
    then show ?thesis
      using a own p by (simp add: on_shoot_def Let_def server_inv_setGame)
  qed
qed (simp_all add: on_shoot_def)

lemma server_inv_on_chat: "server_inv s \<Longrightarrow> server_inv (state_of (on_chat_message sid text now s))"
proof (cases rule: socketGame_cases [of s sid])
  case (own gameId g)
  then show "server_inv s \<Longrightarrow> ?thesis"
    by (cases "map_of (g_players g) sid")
       (simp_all add: on_chat_message_def Let_def server_inv_pushChatMessage)
qed (simp_all add: on_chat_message_def)

lemma hosted_room:
  "\<exists>g. map_of (games (hosted sid dt d s)) (''game_'' @ showNat (gameCounter s + 1)) = Some g \<and>
       map_of (g_players g) sid \<noteq> None"
  by (simp add: hosted_def Let_def setGame_def update_conv')

lemma on_host_cases:
  obtains (error) e where "on_host sid data now d s = Returned (emit e s)"
    | (hosted) dt s2 e msg where "data = Some dt"
        "broadcastPlayerName (''game_'' @ showNat (gameCounter s + 1)) sid (hosted sid dt d s)
           = Returned s2"
        "on_host sid data now d s = Returned
           (emit e (pushChatMessage (''game_'' @ showNat (gameCounter s + 1)) msg s2))"
proof (cases data)
  case None
  then show ?thesis by (intro error) (simp add: on_host_def)
next
  case (Some dt)
  from hosted_room [of sid dt d s] obtain g where
    "map_of (games (hosted sid dt d s)) (''game_'' @ showNat (gameCounter s + 1)) = Some g"
    by blast
  from broadcastPlayerName_returns [OF this]
  obtain s2 where b:
    "broadcastPlayerName (''game_'' @ showNat (gameCounter s + 1)) sid (hosted sid dt d s)
       = Returned s2"
    by blast
  show ?thesis
    by (rule hosted [OF Some b])
       (use Some b in \<open>simp add: on_host_def Let_def\<close>)
qed

lemma server_inv_hosted: "server_inv s \<Longrightarrow> server_inv (hosted sid dt d s)"
proof -
  assume a: "server_inv s"
  have "\<And>gameId gameName mapType p. player_ok p \<Longrightarrow>
      room_inv \<lparr>g_id = gameId, g_name = gameName, g_mapType = mapType,
        g_players = [(sid, p)], g_bullets = [], g_powerUps = [], g_scores = [(sid, 0)],
        g_chat = [], g_cleanupTimer = False\<rparr>"
    by (simp add: room_inv_def)
  then show ?thesis using a by (simp add: hosted_def Let_def server_inv_setGame)
qed

lemma server_inv_on_host: "server_inv s \<Longrightarrow> server_inv (state_of (on_host sid data now d s))"
proof (cases rule: on_host_cases [of sid data now d s])
  case (hosted dt s2 e msg)
  assume a: "server_inv s"
  have "server_inv (state_of (broadcastPlayerName (''game_'' @ showNat (gameCounter s + 1)) sid
          (hosted sid dt d s)))"
    using server_inv_hosted [OF a] by simp
  then have "server_inv s2" unfolding hosted(2) by simp
  then show ?thesis by (simp add: hosted(3) server_inv_pushChatMessage)
qed simp_all

lemma room_inv_remove_player:
  assumes "room_inv g"
  shows "room_inv (g\<lparr>g_players := AList.delete sid (g_players g),
                     g_scores := AList.delete sid (g_scores g)\<rparr>)"
proof -
  have "\<forall>q \<in> snd ` set (AList.delete sid (g_players g)). player_ok q"
    using assms by (auto simp: room_inv_def dest: mem_deleteD)
  then show ?thesis
    using assms by (simp add: room_inv_def AList.distinct_delete dom_delete)
qed

lemma on_disconnect_own:
  "socketGame sid s = Own (gameId, g) \<Longrightarrow>
   on_disconnect sid now s = Returned (setGame gameId (departed sid now g) s)"
  by (simp add: on_disconnect_def)

lemma room_inv_withoutPlayer: "room_inv g \<Longrightarrow> room_inv (withoutPlayer sid now g)"
proof -
  assume r: "room_inv g"
  have "\<And>msg. room_inv ((pushChat msg g)\<lparr>g_players := AList.delete sid (g_players (pushChat msg g)),
                     g_scores := AList.delete sid (g_scores (pushChat msg g))\<rparr>)"
    by (rule room_inv_remove_player) (simp add: r)
  then show ?thesis
    using r unfolding withoutPlayer_def Let_def by (cases "map_of (g_players g) sid") simp_all
qed

lemma room_inv_departed: "room_inv g \<Longrightarrow> room_inv (departed sid now g)"
  using room_inv_withoutPlayer [of g sid now] by (simp add: departed_def Let_def)

lemma server_inv_on_disconnect: "server_inv s \<Longrightarrow> server_inv (state_of (on_disconnect sid now s))"
proof (cases rule: socketGame_cases [of s sid])
  case (own gameId g)
  assume a: "server_inv s"
  have "room_inv (departed sid now g)" using server_inv_lookup [OF a own(2)] by (rule room_inv_departed)
  then show ?thesis using a by (simp add: on_disconnect_own [OF own(3)] server_inv_setGame)
qed (simp_all add: on_disconnect_def)

lemma server_inv_on_cleanup: "server_inv s \<Longrightarrow> server_inv (state_of (on_cleanup gameId s))"
  by (cases rule: lookup_cases [of "games s" gameId])
     (auto simp: on_cleanup_def server_inv_def dest: mem_deleteD)

lemma server_inv_tickRoom: "server_inv s \<Longrightarrow> server_inv (tickRoom now d gameId s)"
proof -
  assume a: "server_inv s"
  show ?thesis
  proof (cases "map_of (games s) gameId")
    case None
    then show ?thesis using a by (simp add: tickRoom_def)
  next
    case (Some g)
    obtain g' l' ev where t: "tickGame now d gameId (lastPowerUpSpawnTime s gameId) g = (g', l', ev)"
      by (metis prod_cases3)
    have "room_inv g'"
      using room_inv_tickGame [OF server_inv_lookup [OF a Some], of now d gameId
          "lastPowerUpSpawnTime s gameId"] t by simp
    then have "server_inv (setGame gameId g' s)" using a by (simp add: server_inv_setGame)
    then show ?thesis using Some t by (simp add: tickRoom_def setGame_def server_inv_def)
  qed
qed

lemma server_inv_gameLoop: "server_inv s \<Longrightarrow> server_inv (gameLoop now d s)"
proof -
  have "server_inv s' \<Longrightarrow>
      server_inv (foldl (\<lambda>s' gameId. tickRoom now (d gameId) gameId s') s' ks)" for ks s'
    by (induction ks arbitrary: s') (simp_all add: server_inv_tickRoom)
  then show "server_inv s \<Longrightarrow> server_inv (gameLoop now d s)"
    by (simp add: gameLoop_def)
qed

lemma server_inv_step: "server_inv s \<Longrightarrow> server_inv (step e s)"
  unfolding step_def
  by (cases e)
     (simp_all add: server_inv_on_join server_inv_on_input server_inv_on_shoot server_inv_on_chat
        on_getServers_def server_inv_on_host server_inv_on_disconnect server_inv_on_cleanup
        server_inv_gameLoop)

lemma reachable_server_inv: "reachable s \<Longrightarrow> server_inv s"
proof (induction rule: reachable.induct)
  case init
  then show ?case by (simp add: server_inv_def initServer_def)
next
  case (next_state s e)
  then show ?case by (simp add: server_inv_step)
qed

lemma reachable_room_inv: "reachable s \<Longrightarrow> (gameId, g) \<in> set (games s) \<Longrightarrow> room_inv g"
  using reachable_server_inv [of s] by (force simp: server_inv_def)

subsection \<open>Power-ups are spawned apart: the cap is never reached\<close>






lemma resolveHit_powerUps [simp]:
  "g_powerUps (fst (resolveHit now gameId b tid target g)) = g_powerUps g"
  by (simp add: resolveHit_def Let_def)













lemma spawn_inv_emit [simp]: "spawn_inv (emit e s) = spawn_inv s"
  by (simp add: spawn_inv_def emit_def)

lemma spawn_inv_fields [simp]:
  "spawn_inv (s\<lparr>socketGameId := f\<rparr>) = spawn_inv s"
  "spawn_inv (s\<lparr>gameCounter := n\<rparr>) = spawn_inv s"
  "spawn_inv (s\<lparr>outbox := ob\<rparr>) = spawn_inv s"
  by (simp_all add: spawn_inv_def)

lemma spawn_inv_broadcastPlayerName [simp]:
  "spawn_inv (state_of (broadcastPlayerName gameId sid s)) = spawn_inv s"
  using broadcastPlayerName_state [of gameId sid s] by auto

lemma pushChat_powerUps [simp]: "g_powerUps (pushChat msg g) = g_powerUps g"
  by (simp add: pushChat_def Let_def)









lemma departed_powerUps [simp]: "g_powerUps (departed sid now g) = g_powerUps g"
  by (cases "map_of (g_players g) sid") (simp_all add: departed_def withoutPlayer_def Let_def)









subsection \<open>The sample runs\<close>

lemma randomX_half: "randomX (1 / 2) = Fin 500"
  by (simp add: randomX_def MAP_WIDTH_def Fin_arith rnd_Ints)

lemma randomY_half: "randomY (1 / 2) = Fin 360"
  by (simp add: randomY_def MAP_HEIGHT_def Fin_arith rnd_Ints)


lemma randomColor_0: "randomColor 0 = ''#4a90e2''"
  by (simp add: randomColor_def randomIndex_def COLORS_def Fin_arith)

lemma hosted_sample:
  "hosted ''s1'' sampleHost sampleJoinDraw initServer =
     \<lparr>games =
        [(''game_'' @ showNat 1,
          \<lparr>g_id = ''game_'' @ showNat 1, g_name = ''Arena'', g_mapType = ''green'',
           g_players = [(''s1'', newPlayer ''s1'' (Fin 500) (Fin 360) (sanitizeString (Some ''Ada''))
                                  ''#4a90e2'')],
           g_bullets = [], g_powerUps = [], g_scores = [(''s1'', 0)],
           g_chat = [], g_cleanupTimer = False\<rparr>)],
      gameCounter = 1, lastPowerUpSpawnTime = (\<lambda>_. None),
      socketGameId = (\<lambda>_. None)(''s1'' := Some (''game_'' @ showNat 1)), outbox = []\<rparr>"
  by (simp add: hosted_def sampleHost_def sampleJoinDraw_def initServer_def Let_def setGame_def
      hostName_def hostMap_def randomX_half randomY_half randomColor_0)

lemma initServer_counter: "gameCounter initServer = 0"
  by (simp add: initServer_def)

lemma sampleHost_name: "hd_name sampleHost = Some ''Arena''"
  by (simp add: sampleHost_def)

lemma hostedServer_games:
  "games hostedServer =
     [(''game_'' @ showNat 1,
       \<lparr>g_id = ''game_'' @ showNat 1, g_name = ''Arena'', g_mapType = ''green'',
        g_players = [(''s1'', newPlayer ''s1'' (Fin 500) (Fin 360) (sanitizeString (Some ''Ada''))
                               ''#4a90e2'')],
        g_bullets = [], g_powerUps = [], g_scores = [(''s1'', 0)],
        g_chat = [systemMessage ''Server \"Arena\" created.'' 1000], g_cleanupTimer = False\<rparr>)]"
  using initServer_counter
  by (simp add: hostedServer_def step_def on_host_def hosted_sample Let_def
      broadcastPlayerName_def lookup_def pushChatMessage_def pushChat_def emit_def setGame_def
      hostName_def sampleHost_name CHAT_MAX_MESSAGES_def)

lemma hostedServer_socket: "socketGameId hostedServer ''s1'' = Some (''game_'' @ showNat 1)"
  using initServer_counter
  by (simp add: hostedServer_def step_def on_host_def hosted_sample Let_def
      broadcastPlayerName_def lookup_def pushChatMessage_def pushChat_def emit_def setGame_def)

lemma shotServer_bullets:
  "map (g_bullets \<circ> snd) (games shotServer)
     = [[newBullet (newPlayer ''s1'' (Fin 500) (Fin 360) (sanitizeString (Some ''Ada'')) ''#4a90e2'')
           ''s1'' 5000 (Fin 0)]]"
  by (simp add: shotServer_def step_def on_shoot_def socketGame_def lookup_def hostedServer_socket
      hostedServer_games Let_def setGame_def shotAngles_def newPlayer_def SHOOT_COOLDOWN_def
      or_zero_def Fin_ints)

subsection \<open>The boundary clamp of \<open>applyInput\<close>\<close>

text \<open>
  The clamp compares, so it bounds every coordinate that is a number: after a step on a
  sample that carries movement flags each coordinate is within the bounds or is \<open>NaN\<close>.
\<close>

lemma bound_values:
  "MAP_WIDTH - TANK_RADIUS = Fin 980" "MAP_HEIGHT - TANK_RADIUS = Fin 700"
  by (simp_all add: MAP_WIDTH_def MAP_HEIGHT_def TANK_RADIUS_def Fin_ints)

lemma clampAxis_width:
  "fst (clampAxis MAP_WIDTH pos v) = NaN \<or>
   (TANK_RADIUS \<le> fst (clampAxis MAP_WIDTH pos v) \<and> fst (clampAxis MAP_WIDTH pos v) \<le> MAP_WIDTH - TANK_RADIUS)"
  unfolding clampAxis_def bound_values
  by (cases pos) (auto simp: TANK_RADIUS_def less_eq_num_def)

lemma clampAxis_height:
  "fst (clampAxis MAP_HEIGHT pos v) = NaN \<or>
   (TANK_RADIUS \<le> fst (clampAxis MAP_HEIGHT pos v) \<and> fst (clampAxis MAP_HEIGHT pos v) \<le> MAP_HEIGHT - TANK_RADIUS)"
  unfolding clampAxis_def bound_values
  by (cases pos) (auto simp: TANK_RADIUS_def less_eq_num_def)

lemma applyInput_position:
  assumes "i_inputs inp = Some ks"
  shows "\<exists>pos v. p_x (applyInput p inp) = fst (clampAxis MAP_WIDTH pos v)"
    and "\<exists>pos v. p_y (applyInput p inp) = fst (clampAxis MAP_HEIGHT pos v)"
proof -
  obtain vx1 vy1 x1 y1 where i:
    "integrate (p_x p) (p_y p) (p_vx p) (p_vy p) (p_speedBoost p) ks (dt_of (i_dt inp))
       = (vx1, vy1, x1, y1)"
    by (metis prod_cases4)
  have "p_x (applyInput p inp) = fst (clampAxis MAP_WIDTH x1 vx1)"
    "p_y (applyInput p inp) = fst (clampAxis MAP_HEIGHT y1 vy1)"
    using assms i by (simp_all add: applyInput_def split: prod.splits)
  then show "\<exists>pos v. p_x (applyInput p inp) = fst (clampAxis MAP_WIDTH pos v)"
    and "\<exists>pos v. p_y (applyInput p inp) = fst (clampAxis MAP_HEIGHT pos v)" by blast+
qed

lemma applyInput_in_bounds_or_NaN:
  assumes "i_inputs inp = Some ks"
  shows "in_bounds (applyInput p inp) \<or> p_x (applyInput p inp) = NaN \<or> p_y (applyInput p inp) = NaN"
proof -
  from applyInput_position [OF assms, of p] obtain px vx py vy where
    x: "p_x (applyInput p inp) = fst (clampAxis MAP_WIDTH px vx)" and
    y: "p_y (applyInput p inp) = fst (clampAxis MAP_HEIGHT py vy)" by blast
  show ?thesis
    unfolding in_bounds_def x y using clampAxis_width [of px vx] clampAxis_height [of py vy]
    by blast
qed

text \<open>The steps that leave the arena.\<close>

lemma idle_rawDir: "rawDir idleKeys = (Fin 0, Fin 0)"
  by (simp add: rawDir_def idleKeys_def Let_def)

lemma idle_magnitude: "inputMagnitude idleKeys = Fin 0"
  by (simp add: inputMagnitude_def idle_rawDir Fin_ints)

lemma idle_target: "targetVelocity sb idleKeys = (Fin 0, Fin 0)"
  by (simp add: targetVelocity_def idle_magnitude idle_rawDir Let_def maxSpeed_def
      TANK_MAX_SPEED_def SPEED_multiplier_def Fin_ints)

lemma hugeNegative_nonzero: "hugeNegative \<noteq> 0"
  by (simp add: hugeNegative_def)

lemma overflow_900: "Fin 900 * Fin hugeNegative = NInf"
proof -
  define x :: real where "x = 900 * hugeNegative"
  have x: "x = - (900 * 2 ^ 1023)" by (simp add: x_def hugeNegative_def)
  have e: "expo x = 1032" unfolding x by (rule expo_eval) (simp_all add: pow2_numeral)
  have u: "ulp x = 2 ^ 980" by (simp add: ulp_def e pow2_numeral)
  have "(900 * 2 ^ 1023 :: real) = of_int (900 * 2 ^ 43) * 2 ^ 980" by simp
  then have q: "x / 2 ^ 980 = of_int (- (900 * 2 ^ 43))" unfolding x by simp
  have r: "of_int (rne (x / ulp x)) * ulp x = x"
    unfolding u q rne_int unfolding x by simp
  have b: "pow2 1024 \<le> \<bar>x\<bar>" unfolding x by (simp add: pow2_numeral)
  have n: "x \<noteq> 0" "\<not> 0 < x" unfolding x by simp_all
  have "rnd x = NInf" unfolding rnd_def Let_def r using b n by simp
  then show ?thesis by (simp add: Fin_times x_def)
qed

lemma restingTank_in_bounds: "in_bounds restingTank"
  unfolding in_bounds_def bound_values
  by (simp add: restingTank_def newPlayer_def TANK_RADIUS_def)

lemma text_dt_step:
  "p_x (applyInput restingTank textDtInput) = NaN" "p_y (applyInput restingTank textDtInput) = NaN"
  "p_vx (applyInput restingTank textDtInput) = NaN" "p_vy (applyInput restingTank textDtInput) = NaN"
  by (simp_all add: applyInput_def integrate_def approach_def clampAxis_def Let_def
      restingTank_def newPlayer_def textDtInput_def dt_of_def idle_magnitude idle_target)

lemma huge_dt_step:
  "p_x (applyInput restingTank hugeDtInput) = NaN" "p_y (applyInput restingTank hugeDtInput) = NaN"
  "p_vx (applyInput restingTank hugeDtInput) = Fin 0" "p_vy (applyInput restingTank hugeDtInput) = Fin 0"
  by (simp_all add: applyInput_def integrate_def approach_def clampAxis_def Let_def
      restingTank_def newPlayer_def hugeDtInput_def dt_of_def idle_magnitude idle_target
      TANK_DECELERATION_def infinite_arith Fin_ints)

lemma negative_dt_step:
  "p_x (applyInput restingTank negativeDtInput) = NaN"
  "p_y (applyInput restingTank negativeDtInput) = NaN"
  by (simp_all add: applyInput_def integrate_def approach_def clampAxis_def Let_def
      restingTank_def newPlayer_def negativeDtInput_def dt_of_def idle_magnitude idle_target
      TANK_DECELERATION_def overflow_900 hugeNegative_nonzero infinite_arith Fin_ints)

text \<open>
  Claim C2. The clamp of \<open>applyInput\<close> misses \<open>NaN\<close>. A tank at rest in the middle of the
  arena, with no key pressed: a sample whose \<open>dt\<close> is the string \<open>"x"\<close> makes
  \<open>acceleration * dt\<close> \<open>NaN\<close>, a sample whose \<open>dt\<close> is \<open>Infinity\<close> makes \<open>vx * dt\<close> \<open>0 * Infinity\<close>,
  and a sample whose \<open>dt\<close> is the double \<open>- 2 ^ 1023\<close> makes \<open>acceleration * dt\<close> overflow to
  \<open>- Infinity\<close>. In each case both coordinates become \<open>NaN\<close>, which neither test of the
  clamp replaces, so the tank is outside \<open>[20, 980] \<times> [20, 700]\<close> after the step.
\<close>

theorem applyInput_escapes_clamp:
  "in_bounds restingTank \<and>
   p_x (applyInput restingTank textDtInput) = NaN \<and>
   p_y (applyInput restingTank textDtInput) = NaN \<and>
   \<not> in_bounds (applyInput restingTank textDtInput) \<and>
   p_x (applyInput restingTank hugeDtInput) = NaN \<and>
   p_y (applyInput restingTank hugeDtInput) = NaN \<and>
   \<not> in_bounds (applyInput restingTank hugeDtInput) \<and>
   p_x (applyInput restingTank negativeDtInput) = NaN \<and>
   p_y (applyInput restingTank negativeDtInput) = NaN \<and>
   \<not> in_bounds (applyInput restingTank negativeDtInput)"
  by (simp add: restingTank_in_bounds)
     (simp add: in_bounds_def text_dt_step huge_dt_step negative_dt_step)

subsection \<open>Normalisation of diagonal input\<close>

lemma Fin_neg_divide: "y \<noteq> 0 \<Longrightarrow> Fin (- x) / Fin y = - (Fin x / Fin y)"
  by (simp add: Fin_divide rnd_minus)

lemma Fin_neg_times: "Fin (- x) * Fin y = - (Fin x * Fin y)"
  by (simp add: Fin_times rnd_minus)

lemma Fin_zero_divide: "y \<noteq> 0 \<Longrightarrow> Fin 0 / Fin y = Fin 0"
  by (simp add: Fin_divide)

lemma rawDir_axis: "rawDir ks = (Fin (axis (k_a ks) (k_d ks)), Fin (axis (k_w ks) (k_s ks)))"
  by (simp add: rawDir_def axis_def Let_def Fin_ints)

lemma inputMagnitude_cases:
  "inputMagnitude ks =
     (if diagonal ks then Fin (6369051672525773 / 4503599627370496)
      else if straight ks then Fin 1 else Fin 0)"
  by (simp add: inputMagnitude_def rawDir_axis axis_def diagonal_def straight_def Fin_ints
      sqrt2_double)

lemma axis_cases: "axis a b = 0 \<or> axis a b = 1 \<or> axis a b = - 1"
  by (simp add: axis_def)

lemma scale_diagonal:
  assumes "h = 0 \<or> h = 1 \<or> h = - 1"
  shows "Fin h / Fin (6369051672525773 / 4503599627370496) * Fin 60
           = Fin (h * (5970985942992911 / 140737488355328))"
    and "Fin h / Fin (6369051672525773 / 4503599627370496) * Fin 120
           = Fin (h * (5970985942992911 / 70368744177664))"
  using assms
  by (auto simp: Fin_neg_divide Fin_neg_times inv_sqrt2_double diag60 diag120 Fin_zero_divide)

lemma scale_straight:
  assumes "h = 0 \<or> h = 1 \<or> h = - 1"
  shows "Fin h / Fin 1 * Fin 60 = Fin (h * 60)" "Fin h / Fin 1 * Fin 120 = Fin (h * 120)"
    and "Fin h * Fin 60 = Fin (h * 60)" "Fin h * Fin 120 = Fin (h * 120)"
  using assms by (auto simp: Fin_divide Fin_ints rnd_Ints)

text \<open>The target velocity for every combination of flags.\<close>

lemma targetVelocity_table:
  "targetVelocity sb ks =
     (if diagonal ks
      then (if sb
            then (Fin (axis (k_a ks) (k_d ks) * (5970985942992911 / 70368744177664)),
                  Fin (axis (k_w ks) (k_s ks) * (5970985942992911 / 70368744177664)))
            else (Fin (axis (k_a ks) (k_d ks) * (5970985942992911 / 140737488355328)),
                  Fin (axis (k_w ks) (k_s ks) * (5970985942992911 / 140737488355328))))
      else (Fin (axis (k_a ks) (k_d ks) * (if sb then 120 else 60)),
            Fin (axis (k_w ks) (k_s ks) * (if sb then 120 else 60))))"
  using scale_diagonal [OF axis_cases [of "k_a ks" "k_d ks"]]
    scale_diagonal [OF axis_cases [of "k_w ks" "k_s ks"]]
    scale_straight [OF axis_cases [of "k_a ks" "k_d ks"]]
    scale_straight [OF axis_cases [of "k_w ks" "k_s ks"]]
  by (simp add: targetVelocity_def inputMagnitude_cases rawDir_axis Let_def maxSpeed_value)

lemma applyInput_reaches:
  assumes "i_inputs inp = Some ks" and "reachesTarget p ks (dt_of (i_dt inp))"
  shows "(p_vx (applyInput p inp), p_vy (applyInput p inp)) = targetVelocity (p_speedBoost p) ks"
proof -
  obtain tvx tvy where t: "targetVelocity (p_speedBoost p) ks = (tvx, tvy)"
    by (cases "targetVelocity (p_speedBoost p) ks")
  show ?thesis
    using assms
    by (simp add: applyInput_def integrate_def approach_def clampAxis_def reachesTarget_def
        noClamp_def t Let_def)
qed

lemma sqrt_square_sum: "sqrt (a * a + 0 * 0) = \<bar>a\<bar>" "sqrt (0 * 0 + a * a) = \<bar>a\<bar>"
  by simp_all

lemma magnitude_straight:
  assumes "straight ks"
  shows "(case targetVelocity sb ks of (tx, ty) \<Rightarrow> magnitude tx ty) = (if sb then 120 else 60)"
  using assms
  by (auto simp: targetVelocity_table straight_def diagonal_def axis_def magnitude_def)

lemma diagonal_below_60:
  "sqrt (5970985942992911 / 140737488355328 * (5970985942992911 / 140737488355328) +
         5970985942992911 / 140737488355328 * (5970985942992911 / 140737488355328)) < 60"
  by (rule real_less_lsqrt) (simp_all add: power2_eq_square)

lemma diagonal_below_120:
  "sqrt (5970985942992911 / 70368744177664 * (5970985942992911 / 70368744177664) +
         5970985942992911 / 70368744177664 * (5970985942992911 / 70368744177664)) < 120"
  by (rule real_less_lsqrt) (simp_all add: power2_eq_square)

lemma magnitude_diagonal:
  assumes "diagonal ks"
  shows "(case targetVelocity sb ks of (tx, ty) \<Rightarrow>
            \<bar>tx\<bar> = \<bar>ty\<bar> \<and>
            \<bar>tx\<bar> = Fin (if sb then 5970985942992911 / 70368744177664
                           else 5970985942992911 / 140737488355328) \<and>
            magnitude tx ty < (if sb then 120 else 60))"
  using assms diagonal_below_60 diagonal_below_120
  by (auto simp: targetVelocity_table diagonal_def axis_def magnitude_def)

lemma target_zero:
  assumes "\<not> straight ks" and "\<not> diagonal ks"
  shows "targetVelocity sb ks = (Fin 0, Fin 0)"
  using assms by (auto simp: targetVelocity_table straight_def diagonal_def axis_def)

lemma speed_reached:
  assumes "i_inputs inp = Some ks" and "reachesTarget p ks (dt_of (i_dt inp))"
  shows "speed (applyInput p inp)
           = (case targetVelocity (p_speedBoost p) ks of (tx, ty) \<Rightarrow> magnitude tx ty)"
  using applyInput_reaches [OF assms] by (auto simp: speed_def split: prod.splits)

lemma default_step_right:
  "p_vx (applyInput restingTank rightInput) = Fin 10"
  "p_vy (applyInput restingTank rightInput) = Fin 0"
  by (simp_all add: applyInput_def integrate_def approach_def clampAxis_def Let_def
      restingTank_def newPlayer_def rightInput_def dt_of_def dt60 accel60 step10 x500_step
      targetVelocity_table inputMagnitude_cases diagonal_def straight_def axis_def
      TANK_ACCELERATION_def TANK_DECELERATION_def TANK_RADIUS_def MAP_WIDTH_def MAP_HEIGHT_def
      Fin_ints)

lemma default_step_diagonal:
  "p_vx (applyInput restingTank diagonalInput) = Fin 10"
  "p_vy (applyInput restingTank diagonalInput) = Fin 10"
  by (simp_all add: applyInput_def integrate_def approach_def clampAxis_def Let_def
      restingTank_def newPlayer_def diagonalInput_def dt_of_def dt60 accel60 step10 x500_step
      y360_step targetVelocity_table inputMagnitude_cases diagonal_def straight_def axis_def
      TANK_ACCELERATION_def TANK_DECELERATION_def TANK_RADIUS_def MAP_WIDTH_def MAP_HEIGHT_def
      Fin_ints Fin_minus diag60_fixed rnd_Ints)

text \<open>
  Claim C9, as stated, fails on the velocity that \<open>applyInput\<close> produces: from rest, one
  default step with right+down held gives velocity \<open>(10, 10)\<close>, one step with only right
  held gives \<open>(10, 0)\<close>.
\<close>

theorem diagonal_step_faster_counterexample:
  "speed (applyInput restingTank rightInput) < speed (applyInput restingTank diagonalInput)"
proof -
  have a: "sqrt 100 = 10" by (rule real_sqrt_unique) simp_all
  have b: "sqrt 100 < sqrt 200" by (rule real_sqrt_less_mono) simp
  have c: "10 < sqrt 200" using b unfolding a .
  show ?thesis using a c by (simp add: speed_def magnitude_def default_step_right default_step_diagonal)
qed

text \<open>
  Claim C9, amended. The target velocity computed from the flags is normalised before it
  is scaled by the max speed (60, or 120 under speed boost): for a straight input its
  magnitude is exactly the max speed; for a diagonal input its two components have the
  same absolute value, the double \<open>42.426406871192846\<close> (\<open>84.85281374238569\<close> under speed
  boost), and its magnitude is below the max speed; it is zero when the flags cancel or
  none is set. Whenever a step reaches the target velocity on both axes without a wall
  clamp, the velocity after \<open>applyInput\<close> is that target, so in such steps a diagonal
  input produces a velocity of smaller magnitude than a straight input.
\<close>

theorem normalised_target_speed:
  "(straight ks \<longrightarrow>
      (case targetVelocity sb ks of (tx, ty) \<Rightarrow> magnitude tx ty) = (if sb then 120 else 60)) \<and>
   (diagonal ks \<longrightarrow>
      (case targetVelocity sb ks of (tx, ty) \<Rightarrow>
         \<bar>tx\<bar> = \<bar>ty\<bar> \<and>
         \<bar>tx\<bar> = Fin (if sb then 5970985942992911 / 70368744177664
                        else 5970985942992911 / 140737488355328) \<and>
         magnitude tx ty < (if sb then 120 else 60))) \<and>
   (\<not> straight ks \<and> \<not> diagonal ks \<longrightarrow> targetVelocity sb ks = (Fin 0, Fin 0)) \<and>
   (i_inputs inp = Some ks \<and> reachesTarget p ks (dt_of (i_dt inp)) \<longrightarrow>
      (p_vx (applyInput p inp), p_vy (applyInput p inp)) = targetVelocity (p_speedBoost p) ks) \<and>
   (i_inputs inpS = Some ksS \<and> straight ksS \<and> reachesTarget p ksS (dt_of (i_dt inpS)) \<and>
    i_inputs inpD = Some ksD \<and> diagonal ksD \<and> reachesTarget p ksD (dt_of (i_dt inpD)) \<longrightarrow>
      speed (applyInput p inpD) < speed (applyInput p inpS))"
proof (intro conjI impI)
  assume "straight ks"
  then show "(case targetVelocity sb ks of (tx, ty) \<Rightarrow> magnitude tx ty) = (if sb then 120 else 60)"
    by (rule magnitude_straight)
next
  assume "diagonal ks"
  then show "case targetVelocity sb ks of (tx, ty) \<Rightarrow>
         \<bar>tx\<bar> = \<bar>ty\<bar> \<and>
         \<bar>tx\<bar> = Fin (if sb then 5970985942992911 / 70368744177664
                        else 5970985942992911 / 140737488355328) \<and>
         magnitude tx ty < (if sb then 120 else 60)"
    by (rule magnitude_diagonal)
next
  assume "\<not> straight ks \<and> \<not> diagonal ks"
  then show "targetVelocity sb ks = (Fin 0, Fin 0)" by (simp add: target_zero)
next
  assume "i_inputs inp = Some ks \<and> reachesTarget p ks (dt_of (i_dt inp))"
  then show "(p_vx (applyInput p inp), p_vy (applyInput p inp)) = targetVelocity (p_speedBoost p) ks"
    by (simp add: applyInput_reaches)
next
  assume a: "i_inputs inpS = Some ksS \<and> straight ksS \<and> reachesTarget p ksS (dt_of (i_dt inpS)) \<and>
    i_inputs inpD = Some ksD \<and> diagonal ksD \<and> reachesTarget p ksD (dt_of (i_dt inpD))"
  have s: "speed (applyInput p inpS) = (if p_speedBoost p then 120 else 60)"
    using a speed_reached [of inpS ksS p] magnitude_straight [of ksS "p_speedBoost p"] by simp
  have d: "speed (applyInput p inpD) < (if p_speedBoost p then 120 else 60)"
    using a speed_reached [of inpD ksD p] magnitude_diagonal [of ksD "p_speedBoost p"]
    by (auto split: prod.splits)
  show "speed (applyInput p inpD) < speed (applyInput p inpS)" using s d by simp
qed

lemma x500_diag: "Fin 500 + Fin (5970985942992911 / 140737488355328) = Fin (4771233132541057 / 8796093022208)"
  using rnd_eval [of "500 + 5970985942992911 / 2 ^ 47" 9 4771233132541057]
  by (simp add: Fin_arith pow2_neg_numeral pow2_numeral)

lemma y360_diag: "Fin 360 + Fin (5970985942992911 / 140737488355328) = Fin (3539780109431937 / 8796093022208)"
  using rnd_eval [of "360 + 5970985942992911 / 2 ^ 47" 8 7079560218863874]
  by (simp add: Fin_arith pow2_neg_numeral pow2_numeral)

lemma Fin_times_1 [simp]: "Fin x * Fin 1 = rnd x"
  by (simp add: Fin_times)

lemma long_right_reaches:
  "i_inputs longRightInput = Some rightKeys" "straight rightKeys"
  "reachesTarget restingTank rightKeys (dt_of (i_dt longRightInput))"
  by (simp_all add: longRightInput_def rightInput_def rightKeys_def straight_def
      reachesTarget_def noClamp_def targetVelocity_table inputMagnitude_cases diagonal_def
      axis_def restingTank_def newPlayer_def dt_of_def Let_def TANK_ACCELERATION_def
      TANK_RADIUS_def MAP_WIDTH_def MAP_HEIGHT_def Fin_ints rnd_Ints)

lemma long_diagonal_reaches:
  "i_inputs longDiagonalInput = Some downRightKeys" "diagonal downRightKeys"
  "reachesTarget restingTank downRightKeys (dt_of (i_dt longDiagonalInput))"
  by (simp_all add: longDiagonalInput_def diagonalInput_def downRightKeys_def
      reachesTarget_def noClamp_def targetVelocity_table inputMagnitude_cases diagonal_def
      axis_def restingTank_def newPlayer_def dt_of_def Let_def TANK_ACCELERATION_def
      TANK_RADIUS_def MAP_WIDTH_def MAP_HEIGHT_def Fin_ints rnd_Ints Fin_minus diag60_fixed
      x500_diag y360_diag)

theorem normalised_target_speed_witness:
  "straight rightKeys \<and> diagonal downRightKeys \<and>
   i_inputs longRightInput = Some rightKeys \<and>
   reachesTarget restingTank rightKeys (dt_of (i_dt longRightInput)) \<and>
   i_inputs longDiagonalInput = Some downRightKeys \<and>
   reachesTarget restingTank downRightKeys (dt_of (i_dt longDiagonalInput)) \<and>
   (case targetVelocity False rightKeys of (tx, ty) \<Rightarrow> magnitude tx ty) = 60 \<and>
   (case targetVelocity False downRightKeys of (tx, ty) \<Rightarrow> magnitude tx ty) < 60 \<and>
   \<not> straight idleKeys \<and> \<not> diagonal idleKeys \<and> targetVelocity False idleKeys = (Fin 0, Fin 0) \<and>
   (p_vx (applyInput restingTank longDiagonalInput), p_vy (applyInput restingTank longDiagonalInput))
     = targetVelocity False downRightKeys \<and>
   speed (applyInput restingTank longDiagonalInput) < speed (applyInput restingTank longRightInput)"
proof -
  have i: "\<not> straight idleKeys" "\<not> diagonal idleKeys"
    by (simp_all add: idleKeys_def straight_def diagonal_def)
  have b: "p_speedBoost restingTank = False" by (simp add: restingTank_def newPlayer_def)
  show ?thesis
    using long_right_reaches long_diagonal_reaches i b
      normalised_target_speed [of rightKeys False longRightInput restingTank
        longRightInput rightKeys longDiagonalInput downRightKeys]
      normalised_target_speed [of downRightKeys False longDiagonalInput restingTank
        longRightInput rightKeys longDiagonalInput downRightKeys]
      normalised_target_speed [of idleKeys False longDiagonalInput restingTank
        longRightInput rightKeys longDiagonalInput downRightKeys]
    by (auto split: prod.splits)
qed

subsection \<open>Reconciliation on the client\<close>

lemma dropWhile_sorted_filter:
  fixes f :: "'a \<Rightarrow> int"
  shows "sorted_wrt (<) (map f xs) \<Longrightarrow> dropWhile (\<lambda>e. f e \<le> a) xs = filter (\<lambda>e. a < f e) xs"
proof (induction xs)
  case Nil
  then show ?case by simp
next
  case (Cons x xs)
  show ?case
  proof (cases "f x \<le> a")
    case True
    then show ?thesis using Cons by simp
  next
    case False
    then have "\<forall>e \<in> set xs. a < f e" using Cons.prems by fastforce
    then have "filter (\<lambda>e. a < f e) xs = xs" by (simp add: filter_id_conv)
    then show ?thesis using False by simp
  qed
qed

lemma push_ordered:
  fixes f :: "'a \<Rightarrow> int"
  assumes "sorted_wrt (<) (map f xs)" and "\<forall>e \<in> set xs. f e < n" and "f x = n"
  shows "sorted_wrt (<) (map f (xs @ [x])) \<and> (\<forall>e \<in> set (xs @ [x]). f e < n + 1)"
  using assms by (auto simp: sorted_wrt_append)

lemma tl_ordered:
  fixes f :: "'a \<Rightarrow> int"
  assumes "sorted_wrt (<) (map f xs) \<and> (\<forall>e \<in> set xs. f e < n)"
  shows "sorted_wrt (<) (map f (tl xs)) \<and> (\<forall>e \<in> set (tl xs). f e < n)"
  using assms by (cases xs) simp_all

lemma sorted_wrt_dropWhile: "sorted_wrt P xs \<Longrightarrow> sorted_wrt P (dropWhile Q xs)"
  by (induction xs) auto

lemma historyOrdered_predictStep:
  assumes "historyOrdered c"
  shows "historyOrdered (predictStep ks turret c)"
proof -
  let ?c' = "predictStep ks turret c"
  obtain entry where
    h: "predictionHistory ?c' =
          (if length (predictionHistory c @ [entry]) > PREDICTION_HISTORY_MAX
           then tl (predictionHistory c @ [entry]) else predictionHistory c @ [entry])"
    and e: "ci_seq entry = sequenceNumber c"
    by (simp add: predictStep_def Let_def)
  have n: "sequenceNumber ?c' = sequenceNumber c + 1"
    by (simp add: predictStep_def Let_def)
  have p: "sorted_wrt (<) (map ci_seq (predictionHistory c @ [entry])) \<and>
        (\<forall>x \<in> set (predictionHistory c @ [entry]). ci_seq x < sequenceNumber c + 1)"
    using assms e unfolding historyOrdered_def by (intro push_ordered) simp_all
  show ?thesis
    unfolding historyOrdered_def n h using p tl_ordered [OF p] by simp
qed

lemma historyOrdered_update:
  "historyOrdered c \<Longrightarrow> historyOrdered (clientUpdate ks turret c)"
  by (simp add: clientUpdate_def historyOrdered_predictStep split: option.splits)

lemma historyOrdered_reconcile: "historyOrdered c \<Longrightarrow> historyOrdered (reconcile sp c)"
  unfolding historyOrdered_def reconcile_def Let_def
  by (auto simp: sorted_wrt_dropWhile sorted_wrt_map dest: set_dropWhileD)

lemma historyOrdered_players [simp]: "historyOrdered (c\<lparr>players := t\<rparr>) = historyOrdered c"
  by (simp add: historyOrdered_def)

lemma historyOrdered_on_state: "historyOrdered c \<Longrightarrow> historyOrdered (on_state st c)"
  by (simp add: on_state_def Let_def historyOrdered_reconcile split: option.splits)

lemma client_reachable_ordered: "client_reachable c \<Longrightarrow> historyOrdered c"
proof (induction rule: client_reachable.induct)
  case (c_init w h)
  then show ?case by (simp add: historyOrdered_def initClient_def)
next
  case (c_update c ks turret)
  then show ?case by (simp add: historyOrdered_update)
next
  case (c_state c st)
  then show ?case by (simp add: historyOrdered_on_state)
next
  case (c_join c sid w h)
  then show ?case by (simp add: historyOrdered_def client_on_join_def)
next
  case (c_start c)
  then show ?case by (simp add: historyOrdered_def client_start_def)
next
  case (c_stop c)
  then show ?case by (simp add: historyOrdered_def client_stop_def)
next
  case (c_flush c)
  then show ?case by (simp add: historyOrdered_def client_flush_def)
qed

text \<open>The table \<open>players\<close> holds, under each id, an entry of the snapshot with that id.\<close>

lemma playersOf_fold:
  "map_of (foldl (\<lambda>tbl e. case e of
                       None \<Rightarrow> tbl
                     | Some p \<Rightarrow> if sp_id p = [] then tbl else AList.update (sp_id p) p tbl)
             tbl ps) me = Some sp \<Longrightarrow>
   map_of tbl me = Some sp \<or> (Some sp \<in> set ps \<and> sp_id sp = me)"
proof (induction ps arbitrary: tbl)
  case Nil
  then show ?case by simp
next
  case (Cons e ps)
  show ?case
  proof (cases e)
    case None
    then show ?thesis using Cons.IH [of tbl] Cons.prems by auto
  next
    case (Some p)
    show ?thesis
    proof (cases "sp_id p = []")
      case True
      then show ?thesis using Cons.IH [of tbl] Cons.prems Some by auto
    next
      case False
      from Cons.IH [of "AList.update (sp_id p) p tbl"] Cons.prems Some False
      have "map_of (AList.update (sp_id p) p tbl) me = Some sp \<or> (Some sp \<in> set ps \<and> sp_id sp = me)"
        by simp
      then show ?thesis using Some by (auto simp: update_conv' split: if_splits)
    qed
  qed
qed

lemma playersOf_entry:
  "map_of (playersOf ps) me = Some sp \<Longrightarrow> Some sp \<in> set ps \<and> sp_id sp = me"
  using playersOf_fold [of "[]" ps me sp] by (simp add: playersOf_def)

lemma on_state_reconciles:
  assumes "gameStarted c" and "playerId c = Some me" and "me \<noteq> []"
    and "map_of (playersOf ps) me = Some sp"
  shows "on_state (Some ps) c = reconcile sp (c\<lparr>players := playersOf ps\<rparr>)"
  using assms by (simp add: on_state_def Let_def)

text \<open>
  Claim C1. On a snapshot that holds an entry for the local player, in a started game,
  the \<open>state\<close> handler gives the predicted player the position and the rotation of that
  entry and its velocity (read through \<open>|| 0\<close>); the history keeps exactly the entries
  with a sequence number above the acknowledged one, in order; and the predicted player
  is the result of applying these entries in order, with the client's \<open>applyInput\<close>, to
  that authoritative base. This holds in every state the client reaches, and for every
  history in strictly increasing sequence order: the code shifts acknowledged entries off
  the front only. Before the game has started, or without a payload, the handler does
  nothing; without an entry for the local player it only replaces the table \<open>players\<close>.
\<close>

theorem on_state_replays_unacknowledged:
  "((client_reachable c \<or> sorted_wrt (<) (map ci_seq (predictionHistory c))) \<and>
    gameStarted c \<and> playerId c = Some me \<and> me \<noteq> [] \<and> map_of (playersOf ps) me = Some sp \<longrightarrow>
      Some sp \<in> set ps \<and> sp_id sp = me \<and>
      predictionHistory (on_state (Some ps) c)
        = filter (\<lambda>e. sp_lastProcessedInput sp < ci_seq e) (predictionHistory c) \<and>
      predictedPlayer (on_state (Some ps) c)
        = foldl (applyInput_client (canvasWidth c) (canvasHeight c))
            (authoritative sp (predictedPlayer c))
            (filter (\<lambda>e. sp_lastProcessedInput sp < ci_seq e) (predictionHistory c)) \<and>
      c_x (authoritative sp (predictedPlayer c)) = sp_x sp \<and>
      c_y (authoritative sp (predictedPlayer c)) = sp_y sp \<and>
      c_vx (authoritative sp (predictedPlayer c)) = or_zero (sp_vx sp) \<and>
      c_vy (authoritative sp (predictedPlayer c)) = or_zero (sp_vy sp) \<and>
      c_rotation (authoritative sp (predictedPlayer c)) = sp_rotation sp) \<and>
   (\<not> gameStarted c \<longrightarrow> on_state state c = c) \<and>
   on_state None c = c \<and>
   (gameStarted c \<and>
    (playerId c = None \<or> playerId c = Some [] \<or>
     (playerId c = Some me \<and> map_of (playersOf ps) me = None)) \<longrightarrow>
      on_state (Some ps) c = c\<lparr>players := playersOf ps\<rparr>)"
proof (intro conjI impI)
  assume a: "(client_reachable c \<or> sorted_wrt (<) (map ci_seq (predictionHistory c))) \<and>
    gameStarted c \<and> playerId c = Some me \<and> me \<noteq> [] \<and> map_of (playersOf ps) me = Some sp"
  have e: "on_state (Some ps) c = reconcile sp (c\<lparr>players := playersOf ps\<rparr>)"
    using a by (simp add: on_state_reconciles)
  have "sorted_wrt (<) (map ci_seq (predictionHistory c))"
    using a client_reachable_ordered [of c] by (auto simp: historyOrdered_def)
  note d = dropWhile_sorted_filter [OF this, of "sp_lastProcessedInput sp"]
  show "Some sp \<in> set ps" "sp_id sp = me" using a playersOf_entry [of ps me sp] by simp_all
  show "predictionHistory (on_state (Some ps) c)
        = filter (\<lambda>e. sp_lastProcessedInput sp < ci_seq e) (predictionHistory c)"
    unfolding e using d by (simp add: reconcile_def Let_def)
  show "predictedPlayer (on_state (Some ps) c)
        = foldl (applyInput_client (canvasWidth c) (canvasHeight c))
            (authoritative sp (predictedPlayer c))
            (filter (\<lambda>e. sp_lastProcessedInput sp < ci_seq e) (predictionHistory c))"
    unfolding e using d by (simp add: reconcile_def Let_def)
qed (auto simp: on_state_def authoritative_def Let_def split: option.splits)

lemma sample_players:
  "map_of (playersOf [Some otherSnap, None, Some sampleSnap]) ''me'' = Some sampleSnap"
  by (simp add: playersOf_def otherSnap_def sampleSnap_def)

theorem on_state_replays_unacknowledged_witness:
  "sorted_wrt (<) (map ci_seq (predictionHistory sampleClient)) \<and>
   gameStarted sampleClient \<and> playerId sampleClient = Some ''me'' \<and>
   map_of (playersOf [Some otherSnap, None, Some sampleSnap]) ''me'' = Some sampleSnap \<and>
   predictionHistory (on_state (Some [Some otherSnap, None, Some sampleSnap]) sampleClient)
     = map sampleEntry [13, 14, 15] \<and>
   predictedPlayer (on_state (Some [Some otherSnap, None, Some sampleSnap]) sampleClient)
     = applyInput_client (Fin 1000) (Fin 720)
         (applyInput_client (Fin 1000) (Fin 720)
            (applyInput_client (Fin 1000) (Fin 720)
               (authoritative sampleSnap (predictedPlayer sampleClient))
               (sampleEntry 13))
            (sampleEntry 14))
         (sampleEntry 15) \<and>
   c_x (authoritative sampleSnap (predictedPlayer sampleClient)) = Fin 511 \<and>
   \<not> gameStarted (client_stop sampleClient) \<and>
   on_state (Some [Some otherSnap, None, Some sampleSnap]) (client_stop sampleClient)
     = client_stop sampleClient \<and>
   map_of (playersOf [Some otherSnap]) ''me'' = None \<and>
   on_state (Some [Some otherSnap]) sampleClient
     = sampleClient\<lparr>players := playersOf [Some otherSnap]\<rparr>"
proof -
  have s: "sorted_wrt (<) (map ci_seq (predictionHistory sampleClient))"
    by (simp add: sampleClient_def sampleEntry_def)
  have g: "gameStarted sampleClient" "playerId sampleClient = Some ''me''"
    "\<not> gameStarted (client_stop sampleClient)"
    by (simp_all add: sampleClient_def client_stop_def)
  have n: "map_of (playersOf [Some otherSnap]) ''me'' = None"
    by (simp add: playersOf_def otherSnap_def sampleSnap_def)
  have h: "filter (\<lambda>e. sp_lastProcessedInput sampleSnap < ci_seq e) (predictionHistory sampleClient)
      = map sampleEntry [13, 14, 15]"
    by (simp add: sampleClient_def sampleSnap_def sampleEntry_def)
  have w: "canvasWidth sampleClient = Fin 1000" "canvasHeight sampleClient = Fin 720"
    "sp_x sampleSnap = Fin 511"
    by (simp_all add: sampleClient_def sampleSnap_def)
  show ?thesis
    using s g n sample_players
      on_state_replays_unacknowledged [of sampleClient "''me''"
        "[Some otherSnap, None, Some sampleSnap]" sampleSnap
        "Some [Some otherSnap, None, Some sampleSnap]"]
      on_state_replays_unacknowledged [of "client_stop sampleClient" "''me''"
        "[Some otherSnap, None, Some sampleSnap]" sampleSnap
        "Some [Some otherSnap, None, Some sampleSnap]"]
      on_state_replays_unacknowledged [of sampleClient "''me''"
        "[Some otherSnap]" sampleSnap "Some [Some otherSnap]"]
    by (simp add: h w)
qed

subsection \<open>Timed power-ups do not stack\<close>

lemma powerUpEffect_absorb:
  "t \<noteq> HEALTH_PACK \<Longrightarrow> powerUpEffect now' t (powerUpEffect now t p) = powerUpEffect now' t p"
  by (cases t) simp_all

lemma flag_same:
  "p_speedBoost p \<Longrightarrow> p\<lparr>p_speedBoost := True\<rparr> = p"
  "p_rapidFire p \<Longrightarrow> p\<lparr>p_rapidFire := True\<rparr> = p"
  "p_shield p \<Longrightarrow> p\<lparr>p_shield := True\<rparr> = p"
  "p_damageBoost p \<Longrightarrow> p\<lparr>p_damageBoost := True\<rparr> = p"
  by simp_all

lemma powerUpEffect_active:
  "p_speedBoost p \<Longrightarrow>
      powerUpEffect now SPEED p = p\<lparr>p_speedBoostExpireTime := Some (now + 5000)\<rparr>"
  "p_rapidFire p \<Longrightarrow>
      powerUpEffect now RAPID_FIRE p = p\<lparr>p_rapidFireExpireTime := Some (now + 5000)\<rparr>"
  "p_shield p \<Longrightarrow>
      powerUpEffect now SHIELD p = p\<lparr>p_shieldExpireTime := Some (now + 5000)\<rparr>"
  "p_damageBoost p \<Longrightarrow>
      powerUpEffect now DAMAGE_BOOST p = p\<lparr>p_damageBoostExpireTime := Some (now + 10000)\<rparr>"
  using flag_same [of p] by (simp_all add: duration_or_default_def)

lemma hitDamage_boosted:
  "p_damageBoost sh \<Longrightarrow> hitDamage (Some sh) target = (if p_shield target then 0 else 30)"
  by (simp add: hitDamage_def Let_def boosted_damage)

text \<open>\<open>applyPowerUp\<close> on a room that holds the player.\<close>

lemma applyPowerUp_found:
  "map_of (g_players g) k = Some p \<Longrightarrow>
   applyPowerUp now k t g = g\<lparr>g_players := AList.update k (powerUpEffect now t p) (g_players g)\<rparr>"
  by (simp add: applyPowerUp_def)

lemma applyPowerUp_player:
  "map_of (g_players g) k = Some p \<Longrightarrow>
   map_of (g_players (applyPowerUp now k t g)) k = Some (powerUpEffect now t p)"
  by (simp add: applyPowerUp_found update_conv')

lemma applyPowerUp_absorb:
  assumes "t \<noteq> HEALTH_PACK" and "map_of (g_players g) k = Some p"
  shows "applyPowerUp now' k t (applyPowerUp now k t g) = applyPowerUp now' k t g"
proof -
  have "applyPowerUp now' k t (applyPowerUp now k t g)
      = (applyPowerUp now k t g)\<lparr>g_players :=
          AList.update k (powerUpEffect now' t (powerUpEffect now t p))
            (g_players (applyPowerUp now k t g))\<rparr>"
    by (rule applyPowerUp_found) (rule applyPowerUp_player [OF assms(2)])
  then show ?thesis
    using assms by (simp add: applyPowerUp_found powerUpEffect_absorb del: powerUpEffect.simps)
qed

text \<open>
  A power-up effect leaves the position and the \<open>dead\<close> flag as they are, so it does not
  change who collects the next power-up.
\<close>

lemma powerUpEffect_place [simp]:
  "p_x (powerUpEffect now t p) = p_x p" "p_y (powerUpEffect now t p) = p_y p"
  "p_dead (powerUpEffect now t p) = p_dead p"
  by (cases t; simp)+

lemma collector_update:
  assumes "map_of ps k = Some p" and "p_x p' = p_x p" and "p_y p' = p_y p" and "p_dead p' = p_dead p"
  shows "collector pu (AList.update k p' ps) = collector pu ps"
  using assms(1)
proof (induction ps)
  case Nil
  then show ?case by simp
next
  case (Cons e ps)
  obtain k' q where e: "e = (k', q)" by (cases e)
  show ?case
  proof (cases "k' = k")
    case True
    then have "q = p" using Cons.prems e by simp
    then show ?thesis using True e assms(2-4) by (simp add: Let_def)
  next
    case False
    then show ?thesis using Cons e by (simp add: Let_def)
  qed
qed

lemma collector_applyPowerUp:
  "collector pu (g_players (applyPowerUp now k t g)) = collector pu (g_players g)"
proof (cases "map_of (g_players g) k")
  case None
  then show ?thesis by (simp add: applyPowerUp_def)
next
  case (Some p)
  then show ?thesis by (simp add: applyPowerUp_found collector_update)
qed

text \<open>
  The collection pass over power-ups of one timed type that are all within reach of the
  same player: every one of them is removed, and the room is the one that a single
  application leaves.
\<close>

lemma powerUpPass_same_type:
  assumes "t \<noteq> HEALTH_PACK" and "map_of (g_players g) k = Some p"
    and "\<forall>pu \<in> set pus. pu_type pu = t \<and> \<not> now - pu_createdAt pu > POWER_UP_LIFETIME \<and>
           collector pu (g_players g) = Some k"
  shows "powerUpPass now pus g = ([], if pus = [] then g else applyPowerUp now k t g)"
  using assms(2,3)
proof (induction pus arbitrary: g p)
  case Nil
  then show ?case by simp
next
  case (Cons pu pus)
  let ?g = "applyPowerUp now k t g"
  have c: "\<forall>q \<in> set pus. pu_type q = t \<and> \<not> now - pu_createdAt q > POWER_UP_LIFETIME \<and>
           collector q (g_players ?g) = Some k"
    using Cons.prems(2) by (simp add: collector_applyPowerUp)
  have "powerUpPass now pus ?g = ([], if pus = [] then ?g else applyPowerUp now k t ?g)"
    by (rule Cons.IH [OF applyPowerUp_player [OF Cons.prems(1)] c])
  also have "applyPowerUp now k t ?g = ?g"
    by (rule applyPowerUp_absorb [OF assms(1) Cons.prems(1)])
  finally show ?case using Cons.prems(2) by simp
qed

lemma collectPowerUps_same_type:
  assumes "t \<noteq> HEALTH_PACK" and "map_of (g_players g) k = Some p" and "g_powerUps g \<noteq> []"
    and "\<forall>pu \<in> set (g_powerUps g). pu_type pu = t \<and>
           \<not> now - pu_createdAt pu > POWER_UP_LIFETIME \<and> collector pu (g_players g) = Some k"
  shows "collectPowerUps now g = (applyPowerUp now k t g)\<lparr>g_powerUps := []\<rparr>"
  using powerUpPass_same_type [OF assms(1,2,4)] assms(3) by (simp add: collectPowerUps_def)

text \<open>
  Claim C6. For each of the four timed types, \<open>applyPowerUp\<close> on a player of the room
  whose flag is already set changes nothing but that player's expiry time, which becomes
  \<open>now + duration\<close>; applying it twice gives the same room as applying it once at the
  later time. The flag is a boolean: after two SPEED pickups \<open>maxSpeed\<close> is what it is
  after one (120, twice the base speed), and the damage of a shooter after two
  DAMAGE_BOOST pickups is what it is after one (30 on an unshielded target). In the
  collection pass of a tick, a player within reach of several power-ups of one timed
  type ends as after a single application.
\<close>

theorem applyPowerUp_no_stacking:
  "(map_of (g_players g) k = Some p \<and> p_speedBoost p \<longrightarrow>
      applyPowerUp now k SPEED g
        = g\<lparr>g_players := AList.update k (p\<lparr>p_speedBoostExpireTime := Some (now + 5000)\<rparr>)
                            (g_players g)\<rparr>) \<and>
   (map_of (g_players g) k = Some p \<and> p_rapidFire p \<longrightarrow>
      applyPowerUp now k RAPID_FIRE g
        = g\<lparr>g_players := AList.update k (p\<lparr>p_rapidFireExpireTime := Some (now + 5000)\<rparr>)
                            (g_players g)\<rparr>) \<and>
   (map_of (g_players g) k = Some p \<and> p_shield p \<longrightarrow>
      applyPowerUp now k SHIELD g
        = g\<lparr>g_players := AList.update k (p\<lparr>p_shieldExpireTime := Some (now + 5000)\<rparr>)
                            (g_players g)\<rparr>) \<and>
   (map_of (g_players g) k = Some p \<and> p_damageBoost p \<longrightarrow>
      applyPowerUp now k DAMAGE_BOOST g
        = g\<lparr>g_players := AList.update k (p\<lparr>p_damageBoostExpireTime := Some (now + 10000)\<rparr>)
                            (g_players g)\<rparr>) \<and>
   (t \<noteq> HEALTH_PACK \<and> map_of (g_players g) k = Some p \<longrightarrow>
      applyPowerUp now' k t (applyPowerUp now k t g) = applyPowerUp now' k t g) \<and>
   (map_of (g_players g) k = Some p \<longrightarrow>
      (\<exists>q. map_of (g_players (applyPowerUp now' k SPEED (applyPowerUp now k SPEED g))) k = Some q \<and>
           p_speedBoost q \<and> maxSpeed (p_speedBoost q) = Fin 120) \<and>
      (\<exists>q. map_of (g_players (applyPowerUp now k SPEED g)) k = Some q \<and>
           p_speedBoost q \<and> maxSpeed (p_speedBoost q) = Fin 120) \<and>
      (\<exists>q. map_of (g_players (applyPowerUp now' k DAMAGE_BOOST (applyPowerUp now k DAMAGE_BOOST g))) k
             = Some q \<and>
           hitDamage (Some q) target = (if p_shield target then 0 else 30)) \<and>
      (\<exists>q. map_of (g_players (applyPowerUp now k DAMAGE_BOOST g)) k = Some q \<and>
           hitDamage (Some q) target = (if p_shield target then 0 else 30))) \<and>
   (t \<noteq> HEALTH_PACK \<and> map_of (g_players g) k = Some p \<and> g_powerUps g \<noteq> [] \<and>
    (\<forall>pu \<in> set (g_powerUps g). pu_type pu = t \<and>
        \<not> now - pu_createdAt pu > POWER_UP_LIFETIME \<and> collector pu (g_players g) = Some k) \<longrightarrow>
      collectPowerUps now g = (applyPowerUp now k t g)\<lparr>g_powerUps := []\<rparr>)"
proof (intro conjI impI)
  assume m: "map_of (g_players g) k = Some p"
  have 1: "map_of (g_players (applyPowerUp now k SPEED g)) k = Some (powerUpEffect now SPEED p)"
    using m by (rule applyPowerUp_player)
  have 2: "map_of (g_players (applyPowerUp now' k SPEED (applyPowerUp now k SPEED g))) k
      = Some (powerUpEffect now' SPEED (powerUpEffect now SPEED p))"
    using 1 by (rule applyPowerUp_player)
  have 3: "map_of (g_players (applyPowerUp now k DAMAGE_BOOST g)) k
      = Some (powerUpEffect now DAMAGE_BOOST p)"
    using m by (rule applyPowerUp_player)
  have 4: "map_of (g_players (applyPowerUp now' k DAMAGE_BOOST (applyPowerUp now k DAMAGE_BOOST g))) k
      = Some (powerUpEffect now' DAMAGE_BOOST (powerUpEffect now DAMAGE_BOOST p))"
    using 3 by (rule applyPowerUp_player)
  show "\<exists>q. map_of (g_players (applyPowerUp now' k SPEED (applyPowerUp now k SPEED g))) k = Some q \<and>
           p_speedBoost q \<and> maxSpeed (p_speedBoost q) = Fin 120"
    unfolding 2 by (simp add: maxSpeed_value)
  show "\<exists>q. map_of (g_players (applyPowerUp now k SPEED g)) k = Some q \<and>
           p_speedBoost q \<and> maxSpeed (p_speedBoost q) = Fin 120"
    unfolding 1 by (simp add: maxSpeed_value)
  show "\<exists>q. map_of (g_players (applyPowerUp now' k DAMAGE_BOOST (applyPowerUp now k DAMAGE_BOOST g))) k
             = Some q \<and>
           hitDamage (Some q) target = (if p_shield target then 0 else 30)"
    unfolding 4 by (simp add: hitDamage_boosted)
  show "\<exists>q. map_of (g_players (applyPowerUp now k DAMAGE_BOOST g)) k = Some q \<and>
           hitDamage (Some q) target = (if p_shield target then 0 else 30)"
    unfolding 3 by (simp add: hitDamage_boosted)
next
  assume "t \<noteq> HEALTH_PACK \<and> map_of (g_players g) k = Some p \<and> g_powerUps g \<noteq> [] \<and>
    (\<forall>pu \<in> set (g_powerUps g). pu_type pu = t \<and>
        \<not> now - pu_createdAt pu > POWER_UP_LIFETIME \<and> collector pu (g_players g) = Some k)"
  then show "collectPowerUps now g = (applyPowerUp now k t g)\<lparr>g_powerUps := []\<rparr>"
    by (intro collectPowerUps_same_type) simp_all
next
  assume "t \<noteq> HEALTH_PACK \<and> map_of (g_players g) k = Some p"
  then show "applyPowerUp now' k t (applyPowerUp now k t g) = applyPowerUp now' k t g"
    by (intro applyPowerUp_absorb) simp_all
qed (simp_all add: applyPowerUp_found powerUpEffect_active del: powerUpEffect.simps)

lemma boostRoom_collector:
  "collector (speedPowerUp n) (g_players boostRoom) = Some ''a''"
  by (simp add: boostRoom_def sampleRoom_def boostedTank_def tankA_def newPlayer_def
      speedPowerUp_def Fin_arith POWER_UP_RADIUS_def)

theorem applyPowerUp_no_stacking_witness:
  "map_of (g_players boostRoom) ''a'' = Some boostedTank \<and>
   p_speedBoost boostedTank \<and> p_rapidFire boostedTank \<and> p_shield boostedTank \<and>
   p_damageBoost boostedTank \<and> SPEED \<noteq> HEALTH_PACK \<and> g_powerUps boostRoom \<noteq> [] \<and>
   g_powerUps boostRoom = [speedPowerUp 1, speedPowerUp 2] \<and>
   pu_type (speedPowerUp 1) = SPEED \<and> pu_type (speedPowerUp 2) = SPEED \<and>
   \<not> 2000 - pu_createdAt (speedPowerUp 1) > POWER_UP_LIFETIME \<and>
   \<not> 2000 - pu_createdAt (speedPowerUp 2) > POWER_UP_LIFETIME \<and>
   collector (speedPowerUp 1) (g_players boostRoom) = Some ''a'' \<and>
   collector (speedPowerUp 2) (g_players boostRoom) = Some ''a'' \<and>
   applyPowerUp 2000 ''a'' SPEED boostRoom
     = boostRoom\<lparr>g_players := [(''a'', boostedTank\<lparr>p_speedBoostExpireTime := Some 7000\<rparr>)]\<rparr> \<and>
   applyPowerUp 2000 ''a'' RAPID_FIRE boostRoom
     = boostRoom\<lparr>g_players := [(''a'', boostedTank\<lparr>p_rapidFireExpireTime := Some 7000\<rparr>)]\<rparr> \<and>
   applyPowerUp 2000 ''a'' SHIELD boostRoom
     = boostRoom\<lparr>g_players := [(''a'', boostedTank\<lparr>p_shieldExpireTime := Some 7000\<rparr>)]\<rparr> \<and>
   applyPowerUp 2000 ''a'' DAMAGE_BOOST boostRoom
     = boostRoom\<lparr>g_players := [(''a'', boostedTank\<lparr>p_damageBoostExpireTime := Some 12000\<rparr>)]\<rparr> \<and>
   applyPowerUp 2500 ''a'' SPEED (applyPowerUp 2000 ''a'' SPEED boostRoom)
     = applyPowerUp 2500 ''a'' SPEED boostRoom \<and>
   (\<exists>q. map_of (g_players (applyPowerUp 2500 ''a'' SPEED (applyPowerUp 2000 ''a'' SPEED boostRoom)))
           ''a'' = Some q \<and> maxSpeed (p_speedBoost q) = Fin 120) \<and>
   (\<exists>q. map_of (g_players (applyPowerUp 2500 ''a'' DAMAGE_BOOST
                              (applyPowerUp 2000 ''a'' DAMAGE_BOOST boostRoom))) ''a'' = Some q \<and>
         hitDamage (Some q) tankD = 30) \<and>
   collectPowerUps 2000 boostRoom
     = boostRoom\<lparr>g_players := [(''a'', boostedTank\<lparr>p_speedBoostExpireTime := Some 7000\<rparr>)],
                  g_powerUps := []\<rparr>"
proof -
  have m: "map_of (g_players boostRoom) ''a'' = Some boostedTank"
    and ps: "g_players boostRoom = [(''a'', boostedTank)]"
    and pus: "g_powerUps boostRoom = [speedPowerUp 1, speedPowerUp 2]"
    by (simp_all add: boostRoom_def sampleRoom_def)
  have f: "p_speedBoost boostedTank" "p_rapidFire boostedTank" "p_shield boostedTank"
    "p_damageBoost boostedTank"
    by (simp_all add: boostedTank_def)
  have c: "\<forall>pu \<in> set (g_powerUps boostRoom). pu_type pu = SPEED \<and>
        \<not> 2000 - pu_createdAt pu > POWER_UP_LIFETIME \<and>
        collector pu (g_players boostRoom) = Some ''a''"
    unfolding pus by (simp add: boostRoom_collector) (simp add: speedPowerUp_def POWER_UP_LIFETIME_def)
  have d: "\<not> p_shield tankD"
    by (simp add: tankD_def newPlayer_def)
  have e: "pu_type (speedPowerUp 1) = SPEED" "pu_type (speedPowerUp 2) = SPEED"
    "\<not> 2000 - pu_createdAt (speedPowerUp 1) > POWER_UP_LIFETIME"
    "\<not> 2000 - pu_createdAt (speedPowerUp 2) > POWER_UP_LIFETIME"
    "collector (speedPowerUp 1) (g_players boostRoom) = Some ''a''"
    "collector (speedPowerUp 2) (g_players boostRoom) = Some ''a''"
    using c unfolding pus by simp_all
  show ?thesis
    using applyPowerUp_no_stacking [of boostRoom "''a''" boostedTank 2000 SPEED 2500 tankD] m f c d e
    by (auto simp add: ps pus)
qed

subsection \<open>Stale operations\<close>

lemma on_input_stale:
  "socketGame sid s = Missing \<or>
   (\<exists>gameId g. socketGame sid s = Own (gameId, g) \<and> map_of (g_players g) sid = None) \<Longrightarrow>
   on_input sid inputs s = Returned s"
  by (auto simp: on_input_def)

lemma on_chat_stale:
  "socketGame sid s = Missing \<or>
   (\<exists>gameId g. socketGame sid s = Own (gameId, g) \<and> map_of (g_players g) sid = None) \<Longrightarrow>
   on_chat_message sid text now s = Returned s"
  by (auto simp: on_chat_message_def)

lemma on_shoot_stale:
  "socketGame sid s = Missing \<or>
   (\<exists>gameId g. socketGame sid s = Own (gameId, g) \<and> map_of (g_players g) sid = None) \<Longrightarrow>
   on_shoot sid angle now s = Returned s"
  by (auto simp: on_shoot_def)

lemma on_join_unknown:
  "jd_serverId data = Some gameId \<Longrightarrow> gameId \<noteq> [] \<Longrightarrow> lookup (games s) gameId = Missing \<Longrightarrow>
   on_join sid (Some data) now d s
     = Returned (s\<lparr>outbox := outbox s @ [EmitError sid ''Game not found'']\<rparr>)"
  by (simp add: on_join_def emit_def)

text \<open>
  An id that is a name inherited from \<open>Object.prototype\<close> is found by the lookup, with a
  value that has no \<open>players\<close>: \<open>join\<close> stores the id for the socket and then throws; for
  a socket with such an id \<open>input\<close> and \<open>chat:message\<close> throw, and \<open>shoot\<close> returns.
\<close>

lemma on_join_inherited:
  "jd_serverId data = Some gameId \<Longrightarrow> lookup (games s) gameId = Inherited \<Longrightarrow>
   on_join sid (Some data) now d s
     = Threw (s\<lparr>socketGameId := (socketGameId s)(sid := Some gameId)\<rparr>)"
  by (auto simp: on_join_def lookup_def inheritedKeys_def split: option.splits if_splits)

lemma inherited_socket:
  "socketGame sid s = Inherited \<Longrightarrow>
   on_input sid inputs s = Threw s \<and> on_chat_message sid text now s = Threw s \<and>
   on_shoot sid angle now s = Returned s"
  by (simp add: on_input_def on_chat_message_def on_shoot_def)

text \<open>
  Claim C8, as stated, fails for \<open>join\<close>: a join that names a room that does not exist
  is answered with the error event "Game not found".
\<close>

theorem join_unknown_room_counterexample:
  "map_of (games initServer) ''game_7'' = None \<and>
   outbox initServer = [] \<and>
   outbox (state_of (on_join ''s1'' (Some sampleJoin) 1000 sampleJoinDraw initServer))
     = [EmitError ''s1'' ''Game not found''] \<and>
   on_join ''s1'' (Some sampleJoin) 1000 sampleJoinDraw initServer
     = Returned (initServer\<lparr>outbox := [EmitError ''s1'' ''Game not found'']\<rparr>)"
  by (simp add: on_join_def emit_def initServer_def sampleJoin_def lookup_def inheritedKeys_def)

text \<open>
  Claim C8, amended. The room of a request is looked up in \<open>games\<close> by its id; the id of
  an \<open>input\<close>, \<open>shoot\<close> or \<open>chat:message\<close> is the one the socket stored at its last join
  or host. When the lookup finds nothing (\<open>Missing\<close>: no room of that id, and the id is
  not a name that \<open>games\<close> inherits from \<open>Object.prototype\<close>), or finds a room that does
  not hold the socket's player, the handlers of \<open>input\<close>, \<open>shoot\<close> and \<open>chat:message\<close>
  return with the whole server state as it is, outbox included. A \<open>join\<close> whose
  non-empty id finds nothing returns with nothing changed but the outbox, which gains
  the error event "Game not found" for that socket.
\<close>

theorem stale_operations_ignored:
  "(socketGame sid s = Missing \<or>
    (\<exists>gameId g. socketGame sid s = Own (gameId, g) \<and> map_of (g_players g) sid = None) \<longrightarrow>
      on_input sid inputs s = Returned s \<and>
      on_shoot sid angle now s = Returned s \<and>
      on_chat_message sid text now s = Returned s) \<and>
   (jd_serverId data = Some gameId \<and> gameId \<noteq> [] \<and> lookup (games s) gameId = Missing \<longrightarrow>
      on_join sid (Some data) now d s
        = Returned (s\<lparr>outbox := outbox s @ [EmitError sid ''Game not found'']\<rparr>))"
  using on_input_stale [of sid s inputs] on_chat_stale [of sid s "text" now]
    on_shoot_stale [of sid s angle now] on_join_unknown [of data gameId s sid now d]
  by blast

lemma protoServer_state:
  "protoServer = initServer\<lparr>socketGameId := (\<lambda>_. None)(''s1'' := Some ''constructor'')\<rparr>"
  by (simp add: protoServer_def step_def on_join_def protoJoin_def lookup_def inheritedKeys_def
      initServer_def)

lemma inherited_id_throws:
  "on_join ''s1'' (Some protoJoin) 1000 sampleJoinDraw initServer = Threw protoServer \<and>
   outbox protoServer = [] \<and> games protoServer = [] \<and>
   socketGameId protoServer ''s1'' = Some ''constructor'' \<and>
   on_input ''s1'' (Some [Some leftInput]) protoServer = Threw protoServer \<and>
   on_chat_message ''s1'' (Some ''hello'') 2000 protoServer = Threw protoServer \<and>
   on_shoot ''s1'' (Fin 0) 2000 protoServer = Returned protoServer"
proof -
  have l: "lookup (games initServer) ''constructor'' = Inherited"
    by (simp add: lookup_def inheritedKeys_def initServer_def)
  have j: "jd_serverId protoJoin = Some ''constructor''" by (simp add: protoJoin_def)
  have s: "socketGame ''s1'' protoServer = Inherited"
    by (simp add: protoServer_state socketGame_def lookup_def inheritedKeys_def initServer_def)
  show ?thesis
    using on_join_inherited [OF j l, of "''s1''" 1000 sampleJoinDraw]
      inherited_socket [OF s, of "Some [Some leftInput]" "Some ''hello''" 2000 "Fin 0"]
    by (simp add: protoServer_state initServer_def)
qed

lemma departedServer_games:
  "\<exists>g. games departedServer = [(''game_'' @ showNat 1, g)] \<and> g_players g = []"
  by (simp add: departedServer_def step_def on_disconnect_def socketGame_def lookup_def
      hostedServer_socket hostedServer_games setGame_def departed_def withoutPlayer_def Let_def
      pushChat_def newPlayer_def)

lemma departedServer_socket:
  "socketGameId departedServer ''s1'' = Some (''game_'' @ showNat 1)"
  by (simp add: departedServer_def step_def on_disconnect_def socketGame_def lookup_def
      hostedServer_socket hostedServer_games setGame_def)

theorem stale_operations_ignored_witness:
  "socketGame ''s2'' protoServer = Missing \<and>
   on_input ''s2'' (Some [Some leftInput]) protoServer = Returned protoServer \<and>
   on_shoot ''s2'' (Fin 0) 1000 protoServer = Returned protoServer \<and>
   on_chat_message ''s2'' (Some ''hello'') 1000 protoServer = Returned protoServer \<and>
   jd_serverId sampleJoin = Some ''game_7'' \<and> ''game_7'' \<noteq> [] \<and>
   lookup (games protoServer) ''game_7'' = Missing \<and>
   on_join ''s2'' (Some sampleJoin) 1000 sampleJoinDraw protoServer
     = Returned (protoServer\<lparr>outbox := [EmitError ''s2'' ''Game not found'']\<rparr>) \<and>
   (\<exists>gameId g. socketGame ''s1'' departedServer = Own (gameId, g) \<and>
      map_of (g_players g) ''s1'' = None) \<and>
   on_input ''s1'' (Some [Some leftInput]) departedServer = Returned departedServer \<and>
   on_shoot ''s1'' (Fin 0) 3000 departedServer = Returned departedServer \<and>
   on_chat_message ''s1'' (Some ''hello'') 3000 departedServer = Returned departedServer"
proof -
  have a: "socketGame ''s2'' protoServer = Missing"
    and c: "lookup (games protoServer) ''game_7'' = Missing"
    and o: "outbox protoServer = []"
    by (simp_all add: protoServer_state socketGame_def lookup_def inheritedKeys_def initServer_def)
  have j: "jd_serverId sampleJoin = Some ''game_7''"
    by (simp add: sampleJoin_def)
  have f: "\<exists>gameId g. socketGame ''s1'' departedServer = Own (gameId, g) \<and>
      map_of (g_players g) ''s1'' = None"
    using departedServer_games
    by (auto simp add: socketGame_def lookup_def departedServer_socket)
  show ?thesis
    using a c j f
      stale_operations_ignored [of "''s2''" protoServer "Some [Some leftInput]" "Fin 0" 1000
        "Some ''hello''" sampleJoin "''game_7''" sampleJoinDraw]
      stale_operations_ignored [of "''s1''" departedServer "Some [Some leftInput]" "Fin 0" 3000
        "Some ''hello''"]
    by (simp add: o)
qed

subsection \<open>Shields and invulnerability in the collision pass\<close>

lemma findTarget_map_of:
  "distinct (map fst ps) \<Longrightarrow> findTarget b ps = Some (tid, target) \<Longrightarrow> map_of ps tid = Some target"
  using findTarget_mem [of b ps tid target] by simp

lemma resolveHit_keys:
  "(tid, target) \<in> set (g_players g) \<Longrightarrow>
   map fst (g_players (fst (resolveHit now gameId b tid target g))) = map fst (g_players g)"
  by (force simp: resolveHit_def Let_def AList.update_keys)

lemma stepBullet_keys:
  "map fst (g_players (fst (snd (stepBullet now gameId b g)))) = map fst (g_players g)"
proof (cases "findTarget b (g_players g)")
  case None
  then show ?thesis by (simp add: stepBullet_def split: prod.splits)
next
  case (Some a)
  obtain tid target where a: "a = (tid, target)" by (cases a)
  from findTarget_mem [OF Some [unfolded a]] have "(tid, target) \<in> set (g_players g)" by simp
  from resolveHit_keys [OF this, of now gameId b]
  show ?thesis using Some a by (simp add: stepBullet_def split: prod.splits)
qed

text \<open>What one bullet can do to the player stored under a key.\<close>

lemma stepBullet_player:
  assumes d: "distinct (map fst (g_players g))" and k: "map_of (g_players g) k = Some p"
  shows "map_of (g_players (fst (snd (stepBullet now gameId b g)))) k = Some p \<or>
         (findTarget b (g_players g) = Some (k, p) \<and>
          map_of (g_players (fst (snd (stepBullet now gameId b g)))) k
            = Some (damaged now (hitDamage (map_of (g_players g) (b_owner b)) p) p))"
proof (cases "findTarget b (g_players g)")
  case None
  then show ?thesis using k by (simp add: stepBullet_def split: prod.splits)
next
  case (Some a)
  obtain tid target where a: "a = (tid, target)" by (cases a)
  note f = Some [unfolded a]
  have t: "map_of (g_players g) tid = Some target" by (rule findTarget_map_of [OF d f])
  show ?thesis
  proof (cases "tid = k")
    case True
    then have "target = p" using t k by simp
    then show ?thesis
      using f True by (simp add: stepBullet_def resolveHit_def Let_def AList.update_conv')
  next
    case False
    then show ?thesis
      using f k by (simp add: stepBullet_def resolveHit_def Let_def AList.update_conv')
  qed
qed

lemma stepBullet_invulnerable:
  assumes "distinct (map fst (g_players g))" and "map_of (g_players g) k = Some p"
    and "p_invulnerable p"
  shows "map_of (g_players (fst (snd (stepBullet now gameId b g)))) k = Some p"
  using stepBullet_player [OF assms(1,2), of now gameId b] assms(3)
    findTarget_mem [of b "g_players g" k p] by auto

lemma damaged_shielded:
  "p_shield p \<Longrightarrow> p_shield (damaged now d p)"
  by (simp add: damaged_def Let_def)

lemma hitDamage_shield: "p_shield target \<Longrightarrow> hitDamage shooter target = 0"
  by (simp add: hitDamage_def Let_def)

lemma damaged_zero_hp: "0 \<le> p_hp p \<Longrightarrow> p_hp (damaged now 0 p) = p_hp p"
  by (simp add: damaged_def Let_def)

lemma stepBullet_shielded:
  assumes "distinct (map fst (g_players g))" and "map_of (g_players g) k = Some p"
    and "p_shield p" and "0 \<le> p_hp p"
  shows "\<exists>p'. map_of (g_players (fst (snd (stepBullet now gameId b g)))) k = Some p' \<and>
              p_shield p' \<and> p_hp p' = p_hp p"
  using stepBullet_player [OF assms(1,2), of now gameId b] assms(3,4)
  by (auto simp: hitDamage_shield damaged_zero_hp damaged_shielded)

lemma bulletPass_keys:
  "map fst (g_players (fst (snd (bulletPass now gameId bs g)))) = map fst (g_players g)"
proof (induction bs)
  case Nil
  then show ?case by simp
next
  case (Cons b bs)
  obtain bs' g1 ev1 where r: "bulletPass now gameId bs g = (bs', g1, ev1)" by (metis prod_cases3)
  obtain b' g2 ev2 where t: "stepBullet now gameId b g1 = (b', g2, ev2)" by (metis prod_cases3)
  show ?case using Cons r t stepBullet_keys [of now gameId b g1] by simp
qed

lemma bulletPass_invulnerable:
  assumes "distinct (map fst (g_players g))" and "map_of (g_players g) k = Some p"
    and "p_invulnerable p"
  shows "map_of (g_players (fst (snd (bulletPass now gameId bs g)))) k = Some p"
proof (induction bs)
  case Nil
  then show ?case using assms by simp
next
  case (Cons b bs)
  obtain bs' g1 ev1 where r: "bulletPass now gameId bs g = (bs', g1, ev1)" by (metis prod_cases3)
  obtain b' g2 ev2 where t: "stepBullet now gameId b g1 = (b', g2, ev2)" by (metis prod_cases3)
  have d: "distinct (map fst (g_players g1))"
    using bulletPass_keys [of now gameId bs g] r assms(1) by simp
  have "map_of (g_players g1) k = Some p" using Cons r by simp
  from stepBullet_invulnerable [OF d this assms(3), of now gameId b]
  show ?case using r t by simp
qed

lemma bulletPass_shielded:
  assumes "distinct (map fst (g_players g))" and "map_of (g_players g) k = Some p"
    and "p_shield p" and "0 \<le> p_hp p"
  shows "\<exists>p'. map_of (g_players (fst (snd (bulletPass now gameId bs g)))) k = Some p' \<and>
              p_shield p' \<and> p_hp p' = p_hp p"
proof (induction bs)
  case Nil
  then show ?case using assms by simp
next
  case (Cons b bs)
  obtain bs' g1 ev1 where r: "bulletPass now gameId bs g = (bs', g1, ev1)" by (metis prod_cases3)
  obtain b' g2 ev2 where t: "stepBullet now gameId b g1 = (b', g2, ev2)" by (metis prod_cases3)
  have d: "distinct (map fst (g_players g1))"
    using bulletPass_keys [of now gameId bs g] r assms(1) by simp
  from Cons r obtain p1 where p1: "map_of (g_players g1) k = Some p1" "p_shield p1" "p_hp p1 = p_hp p"
    by auto
  from stepBullet_shielded [OF d p1(1,2), of now gameId b] p1(3) assms(4)
  show ?case using r t by simp
qed

lemma collisionPass_players:
  "g_players (fst (collisionPass now gameId g)) = g_players (fst (snd (bulletPass now gameId (g_bullets g) g)))"
  by (cases "bulletPass now gameId (g_bullets g) g") (simp add: collisionPass_def)

lemma moveBullet_events:
  "e \<in> set (snd (moveBullet now gameId b)) \<Longrightarrow> \<exists>x y c. e = EmitWallImpact gameId x y c"
  by (auto simp: moveBullet_def bounceX_def bounceY_def Let_def split: option.splits if_splits)

lemma stepBullet_no_hit_event:
  assumes "distinct (map fst (g_players g))" and "map_of (g_players g) k = Some p"
    and "p_invulnerable p"
  shows "EmitBulletHit gameId' sh k x y \<notin> set (snd (snd (stepBullet now gameId b g)))"
proof (cases "findTarget b (g_players g)")
  case None
  then show ?thesis
    using moveBullet_events [of "EmitBulletHit gameId' sh k x y" now gameId b]
    by (auto simp: stepBullet_def split: prod.splits)
next
  case (Some a)
  obtain tid target where a: "a = (tid, target)" by (cases a)
  note f = Some [unfolded a]
  have "map_of (g_players g) tid = Some target" by (rule findTarget_map_of [OF assms(1) f])
  moreover have "\<not> p_invulnerable target" using findTarget_mem [OF f] by simp
  ultimately have "tid \<noteq> k" using assms(2,3) by auto
  then show ?thesis using f by (simp add: stepBullet_def resolveHit_def Let_def)
qed

lemma bulletPass_no_hit_event:
  assumes "distinct (map fst (g_players g))" and "map_of (g_players g) k = Some p"
    and "p_invulnerable p"
  shows "EmitBulletHit gameId' sh k x y \<notin> set (snd (snd (bulletPass now gameId bs g)))"
proof (induction bs)
  case Nil
  then show ?case by simp
next
  case (Cons b bs)
  obtain bs' g1 ev1 where r: "bulletPass now gameId bs g = (bs', g1, ev1)" by (metis prod_cases3)
  obtain b' g2 ev2 where t: "stepBullet now gameId b g1 = (b', g2, ev2)" by (metis prod_cases3)
  have d: "distinct (map fst (g_players g1))"
    using bulletPass_keys [of now gameId bs g] r assms(1) by simp
  have m: "map_of (g_players g1) k = Some p"
    using bulletPass_invulnerable [OF assms, of now gameId bs] r by simp
  have "EmitBulletHit gameId' sh k x y \<notin> set ev2"
    using stepBullet_no_hit_event [OF d m assms(3), of gameId' sh x y now gameId b] t by simp
  then show ?case using Cons r t by simp
qed

lemma collisionPass_events:
  "snd (collisionPass now gameId g) = snd (snd (bulletPass now gameId (g_bullets g) g))"
  by (cases "bulletPass now gameId (g_bullets g) g") (simp add: collisionPass_def)

text \<open>
  Claim C3. The target a bullet finds is never invulnerable; through the whole collision
  pass, whatever the bullets, a player whose invulnerable flag is set stays exactly as it
  was and no hit event names it as the victim. The damage computed against a shielded
  target is zero, whoever shoots, so the hit leaves the target's hit points as they were;
  through the whole collision pass the hit points of a shielded player do not change.
  (Hit points are never negative and player keys are distinct in every reachable room,
  see \<open>reachable_room_inv\<close>.)
\<close>

theorem shield_and_invulnerability:
  "(findTarget b ps = Some (tid, target) \<longrightarrow> \<not> p_invulnerable target \<and> (tid, target) \<in> set ps) \<and>
   (distinct (map fst (g_players g)) \<and> map_of (g_players g) k = Some p \<and> p_invulnerable p \<longrightarrow>
      map_of (g_players (fst (collisionPass now gameId g))) k = Some p \<and>
      EmitBulletHit gameId sh k x y \<notin> set (snd (collisionPass now gameId g))) \<and>
   (p_shield target \<longrightarrow> hitDamage shooter target = 0) \<and>
   (p_shield target \<and> 0 \<le> p_hp target \<longrightarrow>
      p_hp (damaged now (hitDamage shooter target) target) = p_hp target) \<and>
   (distinct (map fst (g_players g)) \<and> map_of (g_players g) k = Some p \<and> p_shield p \<and>
    0 \<le> p_hp p \<longrightarrow>
      (\<exists>p'. map_of (g_players (fst (collisionPass now gameId g))) k = Some p' \<and>
            p_hp p' = p_hp p))"
proof (intro conjI impI)
  assume "findTarget b ps = Some (tid, target)"
  from findTarget_mem [OF this]
  show "\<not> p_invulnerable target" "(tid, target) \<in> set ps" by simp_all
next
  assume i: "distinct (map fst (g_players g)) \<and> map_of (g_players g) k = Some p \<and> p_invulnerable p"
  then show "map_of (g_players (fst (collisionPass now gameId g))) k = Some p"
    unfolding collisionPass_players by (intro bulletPass_invulnerable) simp_all
  from i show "EmitBulletHit gameId sh k x y \<notin> set (snd (collisionPass now gameId g))"
    unfolding collisionPass_events using bulletPass_no_hit_event [of g k p] by simp
next
  assume "p_shield target"
  then show "hitDamage shooter target = 0" by (rule hitDamage_shield)
next
  assume "p_shield target \<and> 0 \<le> p_hp target"
  then show "p_hp (damaged now (hitDamage shooter target) target) = p_hp target"
    by (simp add: hitDamage_shield damaged_zero_hp)
next
  assume a: "distinct (map fst (g_players g)) \<and> map_of (g_players g) k = Some p \<and> p_shield p \<and>
    0 \<le> p_hp p"
  then have "\<exists>p'. map_of (g_players (fst (snd (bulletPass now gameId (g_bullets g) g)))) k = Some p' \<and>
              p_shield p' \<and> p_hp p' = p_hp p"
    by (intro bulletPass_shielded) simp_all
  then show "\<exists>p'. map_of (g_players (fst (collisionPass now gameId g))) k = Some p' \<and>
            p_hp p' = p_hp p"
    unfolding collisionPass_players by blast
qed

lemma shotA_fields:
  "b_x shotA = Fin 100" "b_y shotA = Fin 100" "b_vx shotA = Fin 5" "b_vy shotA = Fin 0"
  "b_owner shotA = ''a''"
  by (simp_all add: shotA_def newBullet_def tankA_def newPlayer_def Let_def TICK_RATE_def
      BULLET_SPEED_def dt60 bullet60 Fin_ints)

lemma findTarget_shotA:
  "findTarget shotA [(''a'', tankA), (''b'', tankB), (''c'', tankC)] = Some (''c'', tankC)"
  by (simp add: shotA_fields hitTest_def Let_def tankB_def tankC_def newPlayer_def HIT_RADIUS_def
      Fin_ints)

theorem shield_and_invulnerability_witness:
  "findTarget shotA [(''a'', tankA), (''b'', tankB), (''c'', tankC)] = Some (''c'', tankC) \<and>
   \<not> p_invulnerable tankC \<and>
   distinct (map fst (g_players (sampleRoom [(''a'', tankA), (''b'', tankB), (''c'', tankC)] [shotA]))) \<and>
   map_of (g_players (sampleRoom [(''a'', tankA), (''b'', tankB), (''c'', tankC)] [shotA])) ''b''
     = Some tankB \<and>
   p_invulnerable tankB \<and>
   map_of (g_players (fst (collisionPass 1000 ''game_1''
       (sampleRoom [(''a'', tankA), (''b'', tankB), (''c'', tankC)] [shotA])))) ''b'' = Some tankB \<and>
   EmitBulletHit ''game_1'' ''a'' ''b'' (Fin 100) (Fin 100)
     \<notin> set (snd (collisionPass 1000 ''game_1''
         (sampleRoom [(''a'', tankA), (''b'', tankB), (''c'', tankC)] [shotA]))) \<and>
   map_of (g_players (sampleRoom [(''a'', tankA), (''b'', tankB), (''c'', tankC)] [shotA])) ''c''
     = Some tankC \<and>
   p_shield tankC \<and> 0 \<le> p_hp tankC \<and>
   hitDamage (Some tankA) tankC = 0 \<and>
   (\<exists>p'. map_of (g_players (fst (collisionPass 1000 ''game_1''
       (sampleRoom [(''a'', tankA), (''b'', tankB), (''c'', tankC)] [shotA])))) ''c'' = Some p' \<and>
         p_hp p' = 100)"
proof -
  let ?g = "sampleRoom [(''a'', tankA), (''b'', tankB), (''c'', tankC)] [shotA]"
  have h: "distinct (map fst (g_players ?g))"
    "map_of (g_players ?g) ''b'' = Some tankB" "p_invulnerable tankB"
    "map_of (g_players ?g) ''c'' = Some tankC" "p_shield tankC" "0 \<le> p_hp tankC"
    "p_hp tankC = 100"
    by (simp_all add: sampleRoom_def tankB_def tankC_def newPlayer_def MAX_HP_def)
  show ?thesis
    using h findTarget_shotA
      shield_and_invulnerability [of shotA "[(''a'', tankA), (''b'', tankB), (''c'', tankC)]"
        "''c''" tankC ?g "''b''" tankB 1000 "''game_1''" "''a''" "Fin 100" "Fin 100" "Some tankA"]
      shield_and_invulnerability [of shotA "[(''a'', tankA), (''b'', tankB), (''c'', tankC)]"
        "''c''" tankC ?g "''c''" tankC 1000 "''game_1''" "''a''" "Fin 100" "Fin 100" "Some tankA"]
    by simp
qed

subsection \<open>Hit points\<close>

text \<open>
  Claim C4. In every state the server reaches, every player of every room has hit points
  in \<open>[0, 100]\<close>. The operations that write hit points: a hit subtracts the damage with a
  floor at 0, a health pack adds 50 with a ceiling at 100, a respawn sets 100, and a
  player created by \<open>join\<close> or \<open>host\<close> starts with 100.
\<close>

theorem hp_within_bounds:
  "(reachable s \<and> (gameId, g) \<in> set (games s) \<and> (sid, p) \<in> set (g_players g) \<longrightarrow>
      0 \<le> p_hp p \<and> p_hp p \<le> 100) \<and>
   p_hp (damaged now d q) = max 0 (p_hp q - d) \<and>
   p_hp (powerUpEffect now HEALTH_PACK q) = min 100 (p_hp q + 50) \<and>
   (p_dead q \<and> p_respawnTime q \<noteq> 0 \<and> p_respawnTime q < now \<longrightarrow> p_hp (respawn now dr q) = 100) \<and>
   p_hp (newPlayer sid x y n c) = 100"
proof (intro conjI impI)
  assume a: "reachable s \<and> (gameId, g) \<in> set (games s) \<and> (sid, p) \<in> set (g_players g)"
  then have "room_inv g" using reachable_room_inv by blast
  then have "player_ok p" using a by (force simp: room_inv_def)
  then show "0 \<le> p_hp p" "p_hp p \<le> 100" by (simp_all add: player_ok_def MAX_HP_def)
qed (simp_all add: damaged_def Let_def respawn_def newPlayer_def MAX_HP_def HEALTH_PACK_value_def)

theorem hp_within_bounds_witness:
  "reachable hostedServer \<and>
   (''game_'' @ showNat 1, snd (hd (games hostedServer))) \<in> set (games hostedServer) \<and>
   (''s1'', newPlayer ''s1'' (Fin 500) (Fin 360) (sanitizeString (Some ''Ada'')) ''#4a90e2'')
      \<in> set (g_players (snd (hd (games hostedServer)))) \<and>
   0 \<le> p_hp (newPlayer ''s1'' (Fin 500) (Fin 360) (sanitizeString (Some ''Ada'')) ''#4a90e2'') \<and>
   p_hp (newPlayer ''s1'' (Fin 500) (Fin 360) (sanitizeString (Some ''Ada'')) ''#4a90e2'') \<le> 100 \<and>
   p_dead (damaged 2000 30 tankD) \<and> p_respawnTime (damaged 2000 30 tankD) \<noteq> 0 \<and>
   p_respawnTime (damaged 2000 30 tankD) < 6000 \<and>
   p_hp (damaged 2000 30 tankD) = 0 \<and>
   p_hp (respawn 6000 (1 / 2, 1 / 2) (damaged 2000 30 tankD)) = 100"
proof -
  have r: "reachable hostedServer"
    unfolding hostedServer_def by (intro reachable.intros)
  have m: "(''game_'' @ showNat 1, snd (hd (games hostedServer))) \<in> set (games hostedServer)"
    "(''s1'', newPlayer ''s1'' (Fin 500) (Fin 360) (sanitizeString (Some ''Ada'')) ''#4a90e2'')
      \<in> set (g_players (snd (hd (games hostedServer))))"
    by (simp_all add: hostedServer_games)
  have d: "p_dead (damaged 2000 30 tankD) \<and> p_respawnTime (damaged 2000 30 tankD) \<noteq> 0 \<and>
     p_respawnTime (damaged 2000 30 tankD) < 6000"
    by (simp add: damaged_def tankD_def newPlayer_def Let_def RESPAWN_TIME_def)
  have h: "p_hp tankD = 20" by (simp add: tankD_def)
  show ?thesis
    using r m d h
      hp_within_bounds [of hostedServer "''game_'' @ showNat 1" "snd (hd (games hostedServer))"
        "''s1''" "newPlayer ''s1'' (Fin 500) (Fin 360) (sanitizeString (Some ''Ada'')) ''#4a90e2''"
        2000 30 tankD]
      hp_within_bounds [of hostedServer "''game_'' @ showNat 1" "snd (hd (games hostedServer))"
        "''s1''" "newPlayer ''s1'' (Fin 500) (Fin 360) (sanitizeString (Some ''Ada'')) ''#4a90e2''"
        6000 0 "damaged 2000 30 tankD" "(1 / 2, 1 / 2)"]
    by simp
qed


subsection \<open>Bounces\<close>

lemma moveBullet_spent:
  assumes "b_bounces b = MAX_BOUNCES" and "crossesWall b"
  shows "moveBullet now gameId b = (None, [])"
proof (cases "b_x b + b_vx b < Fin 0 \<or> b_x b + b_vx b > MAP_WIDTH")
  case True
  then show ?thesis using assms(1) by (auto simp: moveBullet_def bounceX_def Let_def)
next
  case False
  then have "b_y b + b_vy b < Fin 0 \<or> b_y b + b_vy b > MAP_HEIGHT"
    using assms(2) by (auto simp: crossesWall_def)
  then show ?thesis
    using False assms(1) by (auto simp: moveBullet_def bounceX_def bounceY_def Let_def)
qed

lemma stepBullet_spent:
  assumes "b_bounces b = MAX_BOUNCES" and "crossesWall b"
  shows "fst (stepBullet now gameId b g) = None"
  using moveBullet_spent [OF assms, of now gameId]
  by (cases "findTarget b (g_players g)") (auto simp: stepBullet_def split: prod.splits)

text \<open>
  Claim C5. In every state the server reaches, no bullet of any room has bounced more
  than 3 times. A bullet that has bounced 3 times and whose next position lies beyond a
  wall is removed in that tick, with no reflection and no wall-impact event.
\<close>

theorem bounces_capped:
  "(reachable s \<and> (gameId, g) \<in> set (games s) \<and> b \<in> set (g_bullets g) \<longrightarrow> b_bounces b \<le> 3) \<and>
   (b_bounces c = 3 \<and> crossesWall c \<longrightarrow>
      moveBullet now gameId' c = (None, []) \<and> fst (stepBullet now gameId' c g') = None)"
proof (intro conjI impI)
  assume a: "reachable s \<and> (gameId, g) \<in> set (games s) \<and> b \<in> set (g_bullets g)"
  then have "room_inv g" using reachable_room_inv by blast
  then show "b_bounces b \<le> 3" using a by (simp add: room_inv_def MAX_BOUNCES_def)
next
  assume "b_bounces c = 3 \<and> crossesWall c"
  then have c: "b_bounces c = MAX_BOUNCES" "crossesWall c" by (simp_all add: MAX_BOUNCES_def)
  show "moveBullet now gameId' c = (None, [])" by (rule moveBullet_spent [OF c])
  show "fst (stepBullet now gameId' c g') = None" by (rule stepBullet_spent [OF c])
qed

theorem bounces_capped_witness:
  "reachable shotServer \<and>
   (fst (hd (games shotServer)), snd (hd (games shotServer))) \<in> set (games shotServer) \<and>
   hd (g_bullets (snd (hd (games shotServer)))) \<in> set (g_bullets (snd (hd (games shotServer)))) \<and>
   b_bounces (hd (g_bullets (snd (hd (games shotServer))))) \<le> 3 \<and>
   b_bounces spentBullet = 3 \<and> crossesWall spentBullet \<and>
   moveBullet 2000 ''game_1'' spentBullet = (None, []) \<and>
   fst (stepBullet 2000 ''game_1'' spentBullet (sampleRoom [(''a'', tankA)] [spentBullet])) = None"
proof -
  have r: "reachable shotServer"
    unfolding shotServer_def hostedServer_def by (intro reachable.intros)
  from shotServer_bullets obtain e where e: "games shotServer = [e]" and
    b: "g_bullets (snd e) \<noteq> []"
    by (cases "games shotServer") auto
  have m: "(fst (hd (games shotServer)), snd (hd (games shotServer))) \<in> set (games shotServer)"
    "hd (g_bullets (snd (hd (games shotServer)))) \<in> set (g_bullets (snd (hd (games shotServer))))"
    using e b by simp_all
  have c: "b_bounces spentBullet = 3 \<and> crossesWall spentBullet"
    by (simp add: spentBullet_def crossesWall_def Fin_ints)
  show ?thesis
    using r m c
      bounces_capped [of shotServer "fst (hd (games shotServer))" "snd (hd (games shotServer))"
        "hd (g_bullets (snd (hd (games shotServer))))" spentBullet 2000 "''game_1''"
        "sampleRoom [(''a'', tankA)] [spentBullet]"]
    by simp
qed

subsection \<open>A hit by a bullet whose owner has left\<close>

lemma hitDamage_no_shooter [simp]:
  "hitDamage None target = (if p_shield target then 0 else BULLET_DAMAGE)"
  by (simp add: hitDamage_def Let_def)

lemma creditKill_absent: "owner \<notin> fst ` set sc \<Longrightarrow> creditKill owner sc = sc"
  by (auto simp: creditKill_def split: option.splits dest!: map_of_SomeD intro: rev_image_eqI)

lemma map_of_absent: "k \<notin> fst ` set al \<Longrightarrow> map_of al k = None"
  by (simp add: map_of_eq_None_iff)

text \<open>
  Claim C10. In a room of a reachable state (or any room whose scores are kept for
  players present only), when the owner of a bullet is not among the players and the
  bullet finds a target: the bullet is removed, a hit is reported, the target loses the
  base damage of 20 with no boost (nothing if shielded), floored at 0, is marked dead with
  a respawn time of \<open>now + RESPAWN_TIME\<close> when no hit points are left, and the scores are
  unchanged.
\<close>

theorem orphan_bullet_hit:
  assumes "(\<exists>s gameId'. reachable s \<and> (gameId', g) \<in> set (games s)) \<or>
           fst ` set (g_scores g) \<subseteq> fst ` set (g_players g)"
    and "b_owner b \<notin> fst ` set (g_players g)"
    and "findTarget b (g_players g) = Some (tid, target)"
  shows "stepBullet now gameId b g =
           (None,
            g\<lparr>g_players := AList.update tid
                 (damaged now (if p_shield target then 0 else BULLET_DAMAGE) target) (g_players g)\<rparr>,
            [EmitBulletHit gameId (b_owner b) tid (b_x b) (b_y b)]) \<and>
         g_scores (fst (snd (stepBullet now gameId b g))) = g_scores g \<and>
         p_hp (damaged now (if p_shield target then 0 else BULLET_DAMAGE) target)
           = max 0 (p_hp target - (if p_shield target then 0 else 20)) \<and>
         (p_hp target \<le> (if p_shield target then 0 else 20) \<longrightarrow>
            p_dead (damaged now (if p_shield target then 0 else BULLET_DAMAGE) target) \<and>
            p_respawnTime (damaged now (if p_shield target then 0 else BULLET_DAMAGE) target)
              = now + RESPAWN_TIME)"
proof -
  have "fst ` set (g_scores g) \<subseteq> fst ` set (g_players g)"
  proof (rule disjE [OF assms(1)])
    assume "\<exists>s gameId'. reachable s \<and> (gameId', g) \<in> set (games s)"
    then have "room_inv g" using reachable_room_inv by blast
    then show ?thesis by (simp add: room_inv_def)
  qed
  then have "b_owner b \<notin> fst ` set (g_scores g)" using assms(2) by blast
  then have c: "creditKill (b_owner b) (g_scores g) = g_scores g" by (rule creditKill_absent)
  have n: "map_of (g_players g) (b_owner b) = None" using assms(2) by (rule map_of_absent)
  have e: "stepBullet now gameId b g =
           (None,
            g\<lparr>g_players := AList.update tid
                 (damaged now (if p_shield target then 0 else BULLET_DAMAGE) target) (g_players g)\<rparr>,
            [EmitBulletHit gameId (b_owner b) tid (b_x b) (b_y b)])"
    using assms(3) by (simp add: stepBullet_def resolveHit_def Let_def c n)
  show ?thesis
    unfolding e by (simp add: damaged_def Let_def BULLET_DAMAGE_def)
qed


theorem orphan_bullet_hit_witness:
  "fst ` set (g_scores (sampleRoom [(''d'', tankD)] [shotA]))
     \<subseteq> fst ` set (g_players (sampleRoom [(''d'', tankD)] [shotA])) \<and>
   b_owner shotA \<notin> fst ` set (g_players (sampleRoom [(''d'', tankD)] [shotA])) \<and>
   findTarget shotA (g_players (sampleRoom [(''d'', tankD)] [shotA])) = Some (''d'', tankD) \<and>
   fst (stepBullet 2000 ''game_1'' shotA (sampleRoom [(''d'', tankD)] [shotA])) = None \<and>
   g_scores (fst (snd (stepBullet 2000 ''game_1'' shotA (sampleRoom [(''d'', tankD)] [shotA]))))
     = [(''d'', 0)] \<and>
   p_hp (damaged 2000 BULLET_DAMAGE tankD) = 0 \<and>
   p_dead (damaged 2000 BULLET_DAMAGE tankD) \<and>
   p_respawnTime (damaged 2000 BULLET_DAMAGE tankD) = 5000"
proof -
  let ?g = "sampleRoom [(''d'', tankD)] [shotA]"
  have h: "fst ` set (g_scores ?g) \<subseteq> fst ` set (g_players ?g)"
    "b_owner shotA \<notin> fst ` set (g_players ?g)"
    by (simp_all add: sampleRoom_def shotA_fields)
  have f: "findTarget shotA (g_players ?g) = Some (''d'', tankD)"
    by (simp add: sampleRoom_def shotA_fields hitTest_def Let_def tankD_def newPlayer_def
        HIT_RADIUS_def Fin_ints)
  have t: "\<not> p_shield tankD" "p_hp tankD = 20" "g_scores ?g = [(''d'', 0)]"
    by (simp_all add: tankD_def newPlayer_def sampleRoom_def)
  show ?thesis
    using h f t orphan_bullet_hit [OF disjI2 [OF h(1)] h(2) f, of 2000 "''game_1''"]
    by (simp add: RESPAWN_TIME_def)
qed

subsection \<open>The power-up spawn check\<close>




























end
